(* ===== verification/Prelude.thy ===== *)
theory Prelude
  imports Complex_Main
begin

text \<open>
  Shared vocabulary of the development: the values a Python script stores in its
  dictionaries and CSV rows (\<open>pyval\<close>), insertion-ordered dictionaries as association
  lists (\<open>dget\<close>, \<open>dset\<close>), \<open>dict.get\<close> with a default, and the substring and
  prefix tests on strings that the scripts' \<open>in\<close>, \<open>startswith\<close> and
  \<open>endswith\<close> perform. Strings are Isabelle \<open>string\<close>s holding the UTF-8 encoding
  of the Python \<open>str\<close>; every pattern the scripts look for is ASCII, and an ASCII
  byte never occurs inside the encoding of another code point, so byte-wise and code
  point-wise matching find the same occurrences.
\<close>

named_theorems dict_simps "characteristic equations of the dictionary model"

section \<open>Python values\<close>

text \<open>
  A Python float is modelled by its exact rational value: the parsers read decimal
  literals, and the rounding of IEEE binary64 is not modelled.
\<close>

datatype pyval = VInt int | VFloat rat | VBool bool | VStr string | VNone

type_synonym 'v pydict = "(string \<times> 'v) list"

section \<open>Insertion-ordered dictionaries\<close>

text \<open>
  A Python \<open>dict\<close> keeps its keys in insertion order, and \<open>d[k] = v\<close> overwrites
  an existing key in place. An association list with distinct keys models both.
\<close>

definition dget :: "('k \<times> 'v) list \<Rightarrow> 'k \<Rightarrow> 'v option" where
  "dget d = map_of d"

fun dset :: "('k \<times> 'v) list \<Rightarrow> 'k \<Rightarrow> 'v \<Rightarrow> ('k \<times> 'v) list" where
  "dset [] k v = [(k, v)]"
| "dset ((k', v') # d) k v = (if k' = k then (k, v) # d else (k', v') # dset d k v)"

definition py_get :: "('k \<rightharpoonup> 'v) \<Rightarrow> 'k \<Rightarrow> 'v \<Rightarrow> 'v" where
  "py_get m k dflt = (case m k of None \<Rightarrow> dflt | Some v \<Rightarrow> v)"

lemma dget_dset [dict_simps]: "dget (dset d k v) k' = (if k' = k then Some v else dget d k')"
  by (induction d) (auto simp: dget_def)

lemma dget_dset_upd: "dget (dset d k v) = (dget d)(k \<mapsto> v)"
  by (simp add: fun_eq_iff dget_dset)

lemma keys_dset [dict_simps]: "map fst (dset d k v) =
    (if k \<in> set (map fst d) then map fst d else map fst d @ [k])"
  by (induction d) (force simp: image_iff)+

lemma distinct_dset [dict_simps]: "distinct (map fst d) \<Longrightarrow> distinct (map fst (dset d k v))"
  by (simp add: keys_dset)

lemma length_dset: "length (dset d k v) = (if k \<in> set (map fst d) then length d else Suc (length d))"
  by (induction d) (force simp: image_iff)+

lemma py_get_simps [simp, dict_simps]:
  "py_get Map.empty k d = d"
  "py_get (m(k \<mapsto> v)) k d = v"
  "k' \<noteq> k \<Longrightarrow> py_get (m(k \<mapsto> v)) k' d = py_get m k' d"
  by (simp_all add: py_get_def)

lemma py_get_Some [simp]: "m k = Some v \<Longrightarrow> py_get m k d = v"
  by (simp add: py_get_def)

lemma py_get_None [simp]: "m k = None \<Longrightarrow> py_get m k d = d"
  by (simp add: py_get_def)

section \<open>Prefixes and substrings\<close>

text \<open>\<open>s.startswith(p)\<close>, \<open>s.endswith(p)\<close> and \<open>p in s\<close>.\<close>

fun starts_with :: "'a list \<Rightarrow> 'a list \<Rightarrow> bool" where
  "starts_with s [] = True"
| "starts_with [] (p # ps) = False"
| "starts_with (c # cs) (p # ps) = (c = p \<and> starts_with cs ps)"

definition ends_with :: "'a list \<Rightarrow> 'a list \<Rightarrow> bool" where
  "ends_with s p = starts_with (rev s) (rev p)"

fun str_contains :: "'a list \<Rightarrow> 'a list \<Rightarrow> bool" where
  "str_contains p [] = (p = [])"
| "str_contains p (c # cs) = (starts_with (c # cs) p \<or> str_contains p cs)"

lemma starts_with_iff: "starts_with s p \<longleftrightarrow> (\<exists>r. s = p @ r)"
  by (induction s p rule: starts_with.induct) auto

lemma ends_with_iff: "ends_with s p \<longleftrightarrow> (\<exists>r. s = r @ p)"
proof -
  have "ends_with s p \<longleftrightarrow> (\<exists>r. rev s = rev p @ r)"
    by (simp add: ends_with_def starts_with_iff)
  also have "\<dots> \<longleftrightarrow> (\<exists>r. s = r @ p)"
    by (metis rev_append rev_rev_ident)
  finally show ?thesis .
qed

text \<open>The scanning test refines the specification of a substring occurrence.\<close>

lemma str_contains_iff: "str_contains p s \<longleftrightarrow> (\<exists>u v. s = u @ p @ v)"
proof (induction s)
  case Nil
  then show ?case by auto
next
  case (Cons c cs)
  have "(\<exists>u v. c # cs = u @ p @ v) \<longleftrightarrow> (\<exists>v. c # cs = p @ v) \<or> (\<exists>u v. cs = u @ p @ v)"
    by (auto simp: Cons_eq_append_conv)
  with Cons show ?case by (simp add: starts_with_iff)
qed

lemma str_contains_append: "str_contains p s \<Longrightarrow> str_contains p (u @ s @ v)"
  by (auto simp: str_contains_iff) (metis append.assoc)

end
