(* ===== verification/Text_Scan.thy ===== *)
theory Text_Scan
  imports Prelude "HOL-Library.Monad_Syntax"
begin

text \<open>
  The regular-expression primitives the log parsers are built from, as functions on
  UTF-8 strings. A \<^emph>\<open>matcher\<close> tries a pattern at the start of a string and returns
  what it captured with the rest of the string. \<open>search\<close> is \<open>re.search\<close> (the first
  position where the pattern matches), \<open>finditer\<close> is \<open>re.finditer\<close> (non-overlapping
  matches from left to right, with their start offsets). Character classes:
  \<^item> \<open>\d\<close> is the ASCII digits (Python also accepts the other Unicode decimal digits;
    the logs are written by JavaScript's \<open>console.log\<close>, which prints ASCII digits);
  \<^item> \<open>\s\<close> is Python's Unicode whitespace, each code point matched as its UTF-8
    byte sequence (\<open>space_seqs\<close>);
  \<^item> \<open>[A-Z_]\<close> and \<open>[^}]\<close> are ASCII classes, matched byte-wise.
  \<open>int()\<close> of a digit string is \<open>digits_val\<close>; \<open>float()\<close> of a \<open>[\d.]+\<close>
  capture is \<open>parse_decimal\<close>, \<open>None\<close> where Python raises \<open>ValueError\<close>.
\<close>

type_synonym 'a matcher = "string \<Rightarrow> ('a \<times> string) option"

named_theorems scan_simps "unfolding rules for the matchers"

section \<open>Character classes\<close>

text \<open>\<open>[0-9]\<close> and \<open>[A-Z_]\<close>, by their ASCII codes.\<close>

definition is_digit :: "char \<Rightarrow> bool" where
  "is_digit c \<longleftrightarrow> 48 \<le> (of_char c :: nat) \<and> (of_char c :: nat) \<le> 57"

definition is_event_char :: "char \<Rightarrow> bool" where
  "is_event_char c \<longleftrightarrow> (65 \<le> (of_char c :: nat) \<and> (of_char c :: nat) \<le> 90) \<or> c = CHR ''_''"

text \<open>
  Python's \<open>\s\<close> for \<open>str\<close> patterns: \<open>\t \n \v \f \r\<close>, U+001C to U+001F, space,
  U+0085, U+00A0, U+1680, U+2000 to U+200A, U+2028, U+2029, U+202F, U+205F and
  U+3000, each as its UTF-8 encoding.
\<close>

definition space_seqs :: "string list" where
  "space_seqs =
     [[CHR 0x09], [CHR 0x0A], [CHR 0x0B], [CHR 0x0C], [CHR 0x0D],
      [CHR 0x1C], [CHR 0x1D], [CHR 0x1E], [CHR 0x1F], [CHR 0x20],
      [CHR 0xC2, CHR 0x85], [CHR 0xC2, CHR 0xA0], [CHR 0xE1, CHR 0x9A, CHR 0x80]]
   @ map (\<lambda>b. [CHR 0xE2, CHR 0x80, b])
       [CHR 0x80, CHR 0x81, CHR 0x82, CHR 0x83, CHR 0x84, CHR 0x85, CHR 0x86,
        CHR 0x87, CHR 0x88, CHR 0x89, CHR 0x8A, CHR 0xA8, CHR 0xA9, CHR 0xAF]
   @ [[CHR 0xE2, CHR 0x81, CHR 0x9F], [CHR 0xE3, CHR 0x80, CHR 0x80]]"

lemma space_seqs_nonempty: "w \<in> set space_seqs \<Longrightarrow> w \<noteq> []"
  by (auto simp: space_seqs_def)

section \<open>Repetitions\<close>

text \<open>\<open>\s*\<close>: the longest prefix of whitespace code points, and the rest.\<close>

lemma find_space_shorter:
  assumes "find (starts_with s) space_seqs = Some w"
  shows "length (drop (length w) s) < length s"
proof -
  from assms have "w \<in> set space_seqs" and "starts_with s w"
    by (auto simp: find_Some_iff)
  then obtain r where "s = w @ r" and "w \<noteq> []"
    by (auto simp: starts_with_iff space_seqs_nonempty)
  then show ?thesis by simp
qed

function skip_spaces :: "string \<Rightarrow> string \<times> string" where
  "skip_spaces s =
     (case find (starts_with s) space_seqs of
        None \<Rightarrow> ([], s)
      | Some w \<Rightarrow> (let (ws, r) = skip_spaces (drop (length w) s) in (w @ ws, r)))"
  by pat_completeness auto
termination
  by (relation "measure (\<lambda>s. length s)") (auto dest: find_space_shorter)

declare skip_spaces.simps [simp del]

lemma skip_spaces_append: "skip_spaces s = (ws, r) \<Longrightarrow> s = ws @ r"
proof (induction s arbitrary: ws r rule: skip_spaces.induct)
  case (1 s)
  show ?case
  proof (cases "find (starts_with s) space_seqs")
    case None
    with "1.prems" show ?thesis by (simp add: skip_spaces.simps [of s])
  next
    case (Some w)
    then have "starts_with s w" by (auto simp: find_Some_iff)
    then obtain t where s: "s = w @ t" by (auto simp: starts_with_iff)
    obtain ws' r' where rec: "skip_spaces (drop (length w) s) = (ws', r')"
      by fastforce
    with "1.IH" [OF Some] have "drop (length w) s = ws' @ r'" by simp
    moreover from "1.prems" Some rec have "ws = w @ ws'" and "r' = r"
      by (simp_all add: skip_spaces.simps [of s])
    ultimately show ?thesis using s by simp
  qed
qed

lemma skip_spaces_no_space [simp]:
  "find (starts_with s) space_seqs = None \<Longrightarrow> skip_spaces s = ([], s)"
  by (simp add: skip_spaces.simps [of s])

section \<open>Numbers\<close>

text \<open>\<open>int(s)\<close> for a string of ASCII digits.\<close>

definition digit_val :: "char \<Rightarrow> nat" where
  "digit_val c = of_char c - 48"

definition digits_val :: "string \<Rightarrow> nat" where
  "digits_val ds = foldl (\<lambda>n c. 10 * n + digit_val c) 0 ds"

text \<open>
  \<open>float(s)\<close> for a capture of \<open>[\d.]+\<close>: digits with at most one dot and at least
  one digit; every other such string (\<open>.\<close>, \<open>1.2.3\<close>) raises \<open>ValueError\<close>.
\<close>

definition parse_decimal :: "string \<Rightarrow> rat option" where
  "parse_decimal s =
     (let ip = takeWhile is_digit s; r = dropWhile is_digit s in
      case r of
        [] \<Rightarrow> if ip = [] then None else Some (of_nat (digits_val ip))
      | c # fp \<Rightarrow>
          if c = CHR ''.'' \<and> list_all is_digit fp \<and> (ip \<noteq> [] \<or> fp \<noteq> [])
          then Some (of_nat (digits_val ip) + of_nat (digits_val fp) / 10 ^ length fp)
          else None)"

text \<open>Decimal printing of a natural number, as \<open>str(n)\<close> and \<open>console.log\<close> print it.\<close>

fun show_nat :: "nat \<Rightarrow> string" where
  "show_nat n = (if n < 10 then [char_of (48 + n)] else show_nat (n div 10) @ [char_of (48 + n mod 10)])"

declare show_nat.simps [simp del]

lemma digit_val_char_of [simp]: "(d::nat) < 10 \<Longrightarrow> digit_val (char_of (48 + d)) = d"
  by (simp add: digit_val_def)

lemma is_digit_char_of [simp]: "(d::nat) < 10 \<Longrightarrow> is_digit (char_of (48 + d))"
  by (simp add: is_digit_def)

lemma digits_val_snoc [simp]: "digits_val (ds @ [c]) = 10 * digits_val ds + digit_val c"
  by (simp add: digits_val_def)

lemma show_nat_digits: "list_all is_digit (show_nat n) \<and> show_nat n \<noteq> []"
proof (induction n rule: show_nat.induct)
  case (1 n)
  then show ?case by (auto simp: show_nat.simps [of n])
qed

lemma digits_val_show_nat: "digits_val (show_nat n) = n"
proof (induction n rule: show_nat.induct)
  case (1 n)
  then show ?case by (auto simp: show_nat.simps [of n] digits_val_def)
qed

section \<open>re.search and re.finditer\<close>

fun search :: "'a matcher \<Rightarrow> string \<Rightarrow> 'a option" where
  "search m [] = map_option fst (m [])"
| "search m (c # cs) = (case m (c # cs) of Some (a, _) \<Rightarrow> Some a | None \<Rightarrow> search m cs)"

text \<open>
  After a match the scan resumes where the match ended; after a failure, one byte
  further on. A match that consumes nothing is followed by a search from the next
  position; none of the patterns modelled here matches the empty string (the
  \<open>_consumes\<close> lemmas of each pattern).
\<close>

function finditer :: "'a matcher \<Rightarrow> nat \<Rightarrow> string \<Rightarrow> (nat \<times> 'a) list" where
  "finditer m i s =
     (case s of
        [] \<Rightarrow> []
      | c # cs \<Rightarrow>
          (case m s of
             None \<Rightarrow> finditer m (Suc i) cs
           | Some (a, r) \<Rightarrow>
               if length r < length s then (i, a) # finditer m (i + (length s - length r)) r
               else (i, a) # finditer m (Suc i) cs))"
  by pat_completeness auto
termination
  by (relation "measure (\<lambda>(m, i, s). length s)") auto

declare finditer.simps [simp del]

lemma finditer_Nil [simp]: "finditer m i [] = []"
  by (simp add: finditer.simps)

lemma finditer_Cons:
  "finditer m i (c # cs) =
     (case m (c # cs) of
        None \<Rightarrow> finditer m (Suc i) cs
      | Some (a, r) \<Rightarrow>
          if length r < Suc (length cs) then (i, a) # finditer m (i + (Suc (length cs) - length r)) r
          else (i, a) # finditer m (Suc i) cs)"
  by (simp add: finditer.simps [of m i "c # cs"] split: option.split)

definition findall :: "'a matcher \<Rightarrow> string \<Rightarrow> 'a list" where
  "findall m s = map snd (finditer m 0 s)"

section \<open>Pattern pieces\<close>

text \<open>A literal, a one-or-more repetition of a class, and \<open>\s+\<close>.\<close>

definition lit :: "string \<Rightarrow> string \<Rightarrow> string option" where
  "lit p s = (if starts_with s p then Some (drop (length p) s) else None)"

definition munch :: "(char \<Rightarrow> bool) \<Rightarrow> string \<Rightarrow> (string \<times> string) option" where
  "munch P s = (let d = takeWhile P s in if d = [] then None else Some (d, dropWhile P s))"

definition spaces1 :: "string \<Rightarrow> (string \<times> string) option" where
  "spaces1 s = (case skip_spaces s of (w, r) \<Rightarrow> if w = [] then None else Some (w, r))"

lemma lit_Some: "lit p s = Some r \<Longrightarrow> s = p @ r"
  by (auto simp: lit_def starts_with_iff split: if_splits)

lemma lit_append [simp]: "lit p (p @ r) = Some r"
  by (simp add: lit_def starts_with_iff)

lemma munch_Some: "munch P s = Some (d, r) \<Longrightarrow> s = d @ r \<and> d \<noteq> [] \<and> list_all P d"
  by (auto simp: munch_def Let_def list_all_iff dest: set_takeWhileD split: if_splits)

lemma spaces1_Some: "spaces1 s = Some (w, r) \<Longrightarrow> s = w @ r \<and> w \<noteq> []"
  by (auto simp: spaces1_def dest: skip_spaces_append split: prod.splits if_splits)

lemmas scan_eval [scan_simps] = lit_def munch_def spaces1_def is_digit_def is_event_char_def
  skip_spaces.simps space_seqs_def digits_val_def digit_val_def finditer.simps findall_def

lemma munch_append:
  assumes "list_all P d" "d \<noteq> []" "r = [] \<or> \<not> P (hd r)"
  shows "munch P (d @ r) = Some (d, r)"
proof -
  have all: "\<forall>x\<in>set d. P x" using assms(1) by (simp add: list_all_iff)
  have "takeWhile P r = [] \<and> dropWhile P r = r"
    using assms(3) by (cases r) auto
  then have "takeWhile P (d @ r) = d" and "dropWhile P (d @ r) = r"
    using all by (simp_all add: takeWhile_append2 dropWhile_append2)
  with assms(2) show ?thesis by (simp add: munch_def)
qed

text \<open>A string that starts with no whitespace code point.\<close>

definition no_space_start :: "string \<Rightarrow> bool" where
  "no_space_start s \<longleftrightarrow> find (starts_with s) space_seqs = None"

lemma space_seqs_first_byte:
  "w \<in> set space_seqs \<Longrightarrow> (of_char (hd w) :: nat) < 33 \<or> 194 \<le> (of_char (hd w) :: nat)"
  unfolding space_seqs_def by auto

lemma no_space_start_ascii:
  assumes "33 \<le> (of_char c :: nat)" "(of_char c :: nat) < 194"
  shows "no_space_start (c # r)"
proof -
  have "\<not> starts_with (c # r) w" if "w \<in> set space_seqs" for w
  proof
    assume "starts_with (c # r) w"
    with space_seqs_nonempty [OF that] have "hd w = c"
      by (cases w) auto
    with space_seqs_first_byte [OF that] assms show False by simp
  qed
  then show ?thesis by (simp add: no_space_start_def find_None_iff)
qed

lemma no_space_start_digit: "is_digit c \<Longrightarrow> no_space_start (c # r)"
  by (rule no_space_start_ascii) (simp_all add: is_digit_def)

lemma no_space_start_event_char: "is_event_char c \<Longrightarrow> no_space_start (c # r)"
  by (rule no_space_start_ascii) (auto simp: is_event_char_def)

lemma spaces1_blank: "no_space_start r \<Longrightarrow> spaces1 (CHR '' '' # r) = Some ('' '', r)"
proof -
  assume r: "no_space_start r"
  have "find (starts_with (CHR '' '' # r)) space_seqs = Some [CHR 0x20]"
    by (simp add: space_seqs_def)
  with r have "skip_spaces (CHR '' '' # r) = ('' '', r)"
    by (simp add: skip_spaces.simps [of "CHR '' '' # r"] no_space_start_def)
  then show ?thesis by (simp add: spaces1_def)
qed

section \<open>Properties of the scans\<close>

text \<open>
  A matcher returns the rest of its input after the text it consumed. Under that
  condition every match \<open>finditer\<close> reports is a real match at its offset, and the
  offsets increase strictly.
\<close>

definition returns_suffix :: "'a matcher \<Rightarrow> bool" where
  "returns_suffix m \<longleftrightarrow> (\<forall>t a r. m t = Some (a, r) \<longrightarrow> (\<exists>u. t = u @ r))"

lemma finditer_match:
  "returns_suffix m \<Longrightarrow> (p, a) \<in> set (finditer m i s) \<Longrightarrow>
    i \<le> p \<and> p < i + length s \<and> (\<exists>r. m (drop (p - i) s) = Some (a, r))"
proof (induction m i s rule: finditer.induct)
  case (1 m' i s)
  note suf = "1.prems"(1) and mem0 = "1.prems"(2)
  show ?case
  proof (cases s)
    case Nil
    with mem0 show ?thesis by simp
  next
    case (Cons c cs)
    show ?thesis
    proof (cases "m' s")
      case None
      with Cons mem0 have mem: "(p, a) \<in> set (finditer m' (Suc i) cs)"
        by (simp add: finditer_Cons)
      from "1.IH"(1) [OF Cons None suf mem] obtain r where
        "Suc i \<le> p" "p < Suc i + length cs" "m' (drop (p - Suc i) cs) = Some (a, r)"
        by blast
      moreover from \<open>Suc i \<le> p\<close> have "drop (p - i) s = drop (p - Suc i) cs"
        by (simp add: Cons Suc_diff_Suc [symmetric])
      ultimately show ?thesis using Cons by auto
    next
      case (Some ar)
      obtain a' r where ar: "ar = (a', r)" by fastforce
      show ?thesis
      proof (cases "length r < length s")
        case True
        with Cons Some ar mem0
        have "(p, a) = (i, a') \<or> (p, a) \<in> set (finditer m' (i + (length s - length r)) r)"
          by (simp add: finditer_Cons)
        then show ?thesis
        proof
          assume "(p, a) = (i, a')"
          with Some ar Cons show ?thesis by auto
        next
          assume mem: "(p, a) \<in> set (finditer m' (i + (length s - length r)) r)"
          from "1.IH"(2) [OF Cons Some ar[symmetric] True suf mem]
          obtain r' where le: "i + (length s - length r) \<le> p"
            and lt: "p < i + (length s - length r) + length r"
            and m: "m' (drop (p - (i + (length s - length r))) r) = Some (a, r')"
            by blast
          from suf Some ar obtain u where "s = u @ r"
            unfolding returns_suffix_def by blast
          then have "drop (p - i) s = drop (p - (i + (length s - length r))) r"
            using le by simp
          with le lt m True show ?thesis by auto
        qed
      next
        case False
        with Cons Some ar mem0
        have "(p, a) = (i, a') \<or> (p, a) \<in> set (finditer m' (Suc i) cs)"
          by (simp add: finditer_Cons)
        then show ?thesis
        proof
          assume "(p, a) = (i, a')"
          with Some ar Cons show ?thesis by auto
        next
          assume mem: "(p, a) \<in> set (finditer m' (Suc i) cs)"
          from "1.IH"(3) [OF Cons Some ar[symmetric] False suf mem] obtain r' where
            "Suc i \<le> p" "p < Suc i + length cs" "m' (drop (p - Suc i) cs) = Some (a, r')"
            by blast
          moreover from \<open>Suc i \<le> p\<close> have "drop (p - i) s = drop (p - Suc i) cs"
            by (simp add: Cons Suc_diff_Suc [symmetric])
          ultimately show ?thesis using Cons by auto
        qed
      qed
    qed
  qed
qed

lemma finditer_lower: "(q, b) \<in> set (finditer m j t) \<Longrightarrow> j \<le> q"
proof (induction m j t rule: finditer.induct)
  case (1 m j t)
  then show ?case
    by (cases t) (fastforce simp: finditer_Cons split: option.splits if_splits)+
qed

lemma finditer_sorted: "sorted_wrt (<) (map fst (finditer m i s))"
proof (induction m i s rule: finditer.induct)
  case (1 m i s)
  show ?case
  proof (cases s)
    case Nil
    then show ?thesis by simp
  next
    case (Cons c cs)
    then show ?thesis
      using "1.IH" by (fastforce simp: finditer_Cons dest: finditer_lower split: option.splits)
  qed
qed

text \<open>A pattern that matches at no position is never found.\<close>

lemma finditer_no_match: "\<forall>j < length s. m (drop j s) = None \<Longrightarrow> finditer m i s = []"
proof (induction s arbitrary: i)
  case Nil
  then show ?case by simp
next
  case (Cons c cs)
  have "m (c # cs) = None" using Cons.prems by (metis drop0 length_Cons zero_less_Suc)
  moreover have "\<forall>j < length cs. m (drop j cs) = None"
    using Cons.prems by (metis Suc_mono drop_Suc_Cons length_Cons)
  ultimately show ?case using Cons.IH by (simp add: finditer_Cons)
qed

lemma findall_no_match: "\<forall>j < length s. m (drop j s) = None \<Longrightarrow> findall m s = []"
  by (simp add: findall_def finditer_no_match)

section \<open>Slicing by code points\<close>

text \<open>
  \<open>content[p:p+n]\<close> counts code points. On the UTF-8 encoding a code point starts at
  every byte that is not a continuation byte (\<open>10xxxxxx\<close>); \<open>utf8_take n\<close> keeps the
  bytes of the first \<open>n\<close> code points.
\<close>

definition is_cont_byte :: "char \<Rightarrow> bool" where
  "is_cont_byte c \<longleftrightarrow> 128 \<le> (of_char c :: nat) \<and> (of_char c :: nat) < 192"

fun utf8_take :: "nat \<Rightarrow> string \<Rightarrow> string" where
  "utf8_take n [] = []"
| "utf8_take n (c # cs) =
     (if is_cont_byte c then c # utf8_take n cs
      else if n = 0 then [] else c # utf8_take (n - 1) cs)"

lemma utf8_take_prefix: "\<exists>r. s = utf8_take n s @ r"
  by (induction n s rule: utf8_take.induct) auto

lemma utf8_take_ascii: "list_all (\<lambda>c. (of_char c :: nat) < 128) s \<Longrightarrow> utf8_take n s = take n s"
  by (induction n s rule: utf8_take.induct) (auto simp: is_cont_byte_def take_Cons')

text \<open>The matches \<open>finditer\<close> reports do not depend on the offset it starts counting
  from; a match at the start of the text is the first of \<open>findall\<close>.\<close>

lemma finditer_offset: "map snd (finditer m i s) = map snd (finditer m j s)"
proof (induction "length s" arbitrary: s i j rule: less_induct)
  case less
  show ?case
  proof (cases s)
    case Nil
    then show ?thesis by simp
  next
    case (Cons c cs)
    have ih: "map snd (finditer m i' t) = map snd (finditer m j' t)" if "length t < length s" for t i' j'
      using less that by blast
    show ?thesis
    proof (cases "m (c # cs)")
      case None
      then show ?thesis using ih [of cs "Suc i" "Suc j"] Cons by (simp add: finditer_Cons)
    next
      case (Some ar)
      obtain a r where ar: "ar = (a, r)" by fastforce
      show ?thesis
      proof (cases "length r < Suc (length cs)")
        case True
        then show ?thesis
          using ih [of r "i + (Suc (length cs) - length r)" "j + (Suc (length cs) - length r)"] Cons Some ar
          by (simp add: finditer_Cons)
      next
        case False
        then show ?thesis using ih [of cs "Suc i" "Suc j"] Cons Some ar by (simp add: finditer_Cons)
      qed
    qed
  qed
qed

lemma findall_first:
  assumes "m s = Some (a, r)" "length r < length s"
  shows "findall m s = a # findall m r"
proof (cases s)
  case Nil
  then show ?thesis using assms(2) by simp
next
  case (Cons c cs)
  have "map snd (finditer m (length s - length r) r) = map snd (finditer m 0 r)"
    by (rule finditer_offset)
  then show ?thesis
    using assms Cons by (simp add: findall_def finditer_Cons)
qed

lemma lit_snoc: "lit (p @ [c]) (p @ c # r) = Some r"
  using lit_append [of "p @ [c]" r] by simp

end
