(* ===== verification/Timing.thy ===== *)
theory Timing
  imports Text_Scan "HOL-Library.Multiset"
begin

text \<open>
  The timing-event extractor of the console-log parsers
  (\<open>src/docs/plans/Bookkeeper/speed_tests/parse_console_log.py\<close>,
  \<open>improved_parser_json.py\<close> beside it, and the older
  \<open>src/docs/speed_tests/parse_console_log.py\<close>): the timer-line pattern, the two
  match streams merged by offset, the grouping of events into test runs at each
  \<open>PROCESSING_START\<close>, and the three-stage rows computed from each run.
\<close>

section \<open>Timer lines\<close>

text \<open>
  \<open><src>\.js:\d+\s+([A-Z_]+):\s+(\d+)\<close> with \<open>src\<close> one of \<open>processingTimer\<close>
  and \<open>fileHashWorker\<close>. Each class meets the next at a character outside it, so the
  greedy match is the only one and no backtracking changes it.
\<close>

definition timer_line :: "string \<Rightarrow> (string \<times> nat) matcher" where
  "timer_line src s = do {
     s1 \<leftarrow> lit (src @ ''.js:'') s;
     (_, s2) \<leftarrow> munch is_digit s1;
     (_, s3) \<leftarrow> spaces1 s2;
     (ev, s4) \<leftarrow> munch is_event_char s3;
     s5 \<leftarrow> lit '':'' s4;
     (_, s6) \<leftarrow> spaces1 s5;
     (d, s7) \<leftarrow> munch is_digit s6;
     Some ((ev, digits_val d), s7)
   }"

datatype source = Main | Worker

type_synonym timer_event = "nat \<times> string \<times> int \<times> source"

definition timer_matches :: "string \<Rightarrow> source \<Rightarrow> string \<Rightarrow> timer_event list" where
  "timer_matches src tag content =
     map (\<lambda>(p, ev, t). (p, ev, int t, tag)) (finditer (timer_line src) 0 content)"

text \<open>\<open>all_matches.sort(key=lambda x: x[0])\<close>: Python's sort is stable, as \<open>sort_key\<close> is.\<close>

definition timer_events :: "string \<Rightarrow> timer_event list" where
  "timer_events content =
     sort_key fst (timer_matches ''processingTimer'' Main content @
                   timer_matches ''fileHashWorker'' Worker content)"

section \<open>Grouping events into test runs\<close>

text \<open>
  The loop of \<open>parse_timing_data\<close>: \<open>test_run_data\<close> is a \<open>defaultdict(dict)\<close> from run
  numbers to event dictionaries, \<open>test_run_positions\<close> the offset of each run's start.
\<close>

record run_groups =
  current_test_run :: nat
  test_run_data :: "(nat \<times> (string \<times> int) list) list"
  test_run_positions :: "(nat \<times> nat) list"

definition dget_or :: "('k \<times> 'v) list \<Rightarrow> 'k \<Rightarrow> 'v \<Rightarrow> 'v" where
  "dget_or d k dflt = py_get (dget d) k dflt"

definition is_start :: "timer_event \<Rightarrow> bool" where
  "is_start e \<longleftrightarrow> fst (snd e) = ''PROCESSING_START''"

definition group_step :: "run_groups \<Rightarrow> timer_event \<Rightarrow> run_groups" where
  "group_step st e =
     (case e of (pos, event_type, timing, _) \<Rightarrow>
       let st1 = (if event_type = ''PROCESSING_START''
                  then st\<lparr>current_test_run := Suc (current_test_run st),
                          test_run_positions :=
                            dset (test_run_positions st) (Suc (current_test_run st)) pos\<rparr>
                  else st);
           k = current_test_run st1
       in if 0 < k
          then st1\<lparr>test_run_data := dset (test_run_data st1) k
                     (dset (dget_or (test_run_data st1) k []) event_type timing)\<rparr>
          else st1)"

definition groups_init :: run_groups where
  "groups_init = \<lparr>current_test_run = 0, test_run_data = [], test_run_positions = []\<rparr>"

definition group_runs :: "timer_event list \<Rightarrow> run_groups" where
  "group_runs evs = foldl group_step groups_init evs"

section \<open>What the grouping promises\<close>

text \<open>
  The specification of the grouping (spec section 4.2): the \<open>j\<close>-th event belongs to
  the run numbered by the count of boundary markers among the first \<open>j + 1\<close> events;
  events before the first marker belong to no run; within a run, a later value of an
  event name overwrites an earlier one.
\<close>

definition run_of :: "timer_event list \<Rightarrow> nat \<Rightarrow> nat" where
  "run_of evs j = length (filter is_start (take (Suc j) evs))"

definition events_of_run :: "timer_event list \<Rightarrow> nat \<Rightarrow> timer_event list" where
  "events_of_run evs k = map (nth evs) (filter (\<lambda>j. run_of evs j = k) [0..<length evs])"

definition last_write :: "timer_event list \<Rightarrow> string \<rightharpoonup> int" where
  "last_write es = map_of (rev (map (\<lambda>(p, ev, t, _). (ev, t)) es))"

definition run_count :: "timer_event list \<Rightarrow> nat" where
  "run_count evs = length (filter is_start evs)"

definition abs_runs :: "run_groups \<Rightarrow> nat \<rightharpoonup> (string \<rightharpoonup> int)" where
  "abs_runs st = (\<lambda>k. map_option dget (dget (test_run_data st) k))"

definition spec_runs :: "timer_event list \<Rightarrow> nat \<rightharpoonup> (string \<rightharpoonup> int)" where
  "spec_runs evs k =
     (if 0 < k \<and> k \<le> run_count evs then Some (last_write (events_of_run evs k)) else None)"

lemma events_of_run_snoc:
  "events_of_run (evs @ [e]) k =
     events_of_run evs k @ (if run_count (evs @ [e]) = k then [e] else [])"
proof -
  let ?n = "length evs"
  have run_prefix: "run_of (evs @ [e]) j = run_of evs j" if "j < ?n" for j
    using that by (simp add: run_of_def)
  have run_last: "run_of (evs @ [e]) ?n = run_count (evs @ [e])"
    by (simp add: run_of_def run_count_def)
  have "filter (\<lambda>j. run_of (evs @ [e]) j = k) [0..<?n] = filter (\<lambda>j. run_of evs j = k) [0..<?n]"
    by (rule filter_cong) (simp_all add: run_prefix)
  moreover have "map (nth (evs @ [e])) (filter (\<lambda>j. run_of evs j = k) [0..<?n]) =
      map (nth evs) (filter (\<lambda>j. run_of evs j = k) [0..<?n])"
    by (rule map_cong) (simp_all add: nth_append)
  ultimately show ?thesis
    by (simp add: events_of_run_def run_last)
qed

lemma run_of_le_count: "run_of evs j \<le> run_count evs"
proof -
  have "filter is_start evs = filter is_start (take (Suc j) evs) @ filter is_start (drop (Suc j) evs)"
    by (metis append_take_drop_id filter_append)
  then show ?thesis
    unfolding run_of_def run_count_def by (metis le_add1 length_append)
qed

lemma events_of_run_beyond:
  assumes "run_count evs < k"
  shows "events_of_run evs k = []"
proof -
  have "run_of evs j \<noteq> k" for j
    using assms run_of_le_count [of evs j] by simp
  then show ?thesis by (simp add: events_of_run_def)
qed

lemma last_write_snoc [simp]: "last_write (es @ [(p, ev, t, src)]) = (last_write es)(ev \<mapsto> t)"
  by (simp add: last_write_def)

lemma last_write_single [simp]: "last_write [(p, ev, t, src)] = [ev \<mapsto> t]"
  by (simp add: last_write_def)

lemma last_write_Nil [simp]: "last_write [] = Map.empty"
  by (simp add: last_write_def)

lemma run_count_snoc [simp]:
  "run_count (evs @ [e]) = (if is_start e then Suc (run_count evs) else run_count evs)"
  by (simp add: run_count_def)

lemma abs_runs_set:
  "abs_runs (st\<lparr>test_run_data := dset (test_run_data st) c d\<rparr>) =
     (abs_runs st)(c \<mapsto> dget d)"
  by (simp add: abs_runs_def fun_eq_iff dget_dset)

lemma abs_runs_other_fields [simp]:
  "abs_runs (st\<lparr>current_test_run := c, test_run_positions := ps\<rparr>) = abs_runs st"
  by (simp add: abs_runs_def fun_eq_iff)

lemma dget_dget_or:
  "abs_runs st c = Some m \<Longrightarrow> dget (dget_or (test_run_data st) c []) = m"
  by (auto simp: abs_runs_def dget_or_def)

lemma dget_or_absent:
  "abs_runs st c = None \<Longrightarrow> dget_or (test_run_data st) c [] = []"
  by (auto simp: abs_runs_def dget_or_def)

lemma group_step_current:
  "current_test_run (group_step st (pos, ev, t, src)) =
     (if ev = ''PROCESSING_START'' then Suc (current_test_run st) else current_test_run st)"
  by (simp add: group_step_def Let_def)

lemma group_step_abs:
  "abs_runs (group_step st (pos, ev, t, src)) =
     (let c = current_test_run (group_step st (pos, ev, t, src))
      in if 0 < c then (abs_runs st)(c \<mapsto> (py_get (abs_runs st) c Map.empty)(ev \<mapsto> t))
         else abs_runs st)"
proof -
  have inner: "dget (dget_or (test_run_data st) c []) = py_get (abs_runs st) c Map.empty" for c
    by (simp add: dget_or_def py_get_def abs_runs_def dget_def split: option.split)
  show ?thesis
    by (auto simp: group_step_def Let_def abs_runs_def fun_eq_iff dget_dset dget_dset_upd
        inner [unfolded abs_runs_def])
qed

text \<open>One step of the loop keeps the loop state equal to the specification of the prefix read so far.\<close>

lemma group_step_refines:
  assumes cur: "current_test_run st = run_count evs"
    and abs: "abs_runs st = spec_runs evs"
  shows "current_test_run (group_step st e) = run_count (evs @ [e]) \<and>
         abs_runs (group_step st e) = spec_runs (evs @ [e])"
proof -
  obtain pos ev t src where e: "e = (pos, ev, t, src)" by (cases e) auto
  let ?c = "run_count evs"
  have cur': "current_test_run (group_step st e) = run_count (evs @ [e])"
    by (simp add: e group_step_current cur is_start_def)
  show ?thesis
  proof (cases "ev = ''PROCESSING_START''")
    case True
    then have start: "is_start e" by (simp add: e is_start_def)
    have "spec_runs (evs @ [e]) = (spec_runs evs)(Suc ?c \<mapsto> [ev \<mapsto> t])"
      using start
      by (auto simp: fun_eq_iff spec_runs_def events_of_run_snoc events_of_run_beyond e)
    moreover have "py_get (spec_runs evs) (Suc ?c) Map.empty = Map.empty"
      by (simp add: spec_runs_def)
    ultimately show ?thesis
      using cur' True cur by (simp add: e group_step_abs group_step_current abs)
  next
    case False
    then have nstart: "\<not> is_start e" by (simp add: e is_start_def)
    show ?thesis
    proof (cases "?c = 0")
      case True
      with nstart have "spec_runs (evs @ [e]) = spec_runs evs"
        by (auto simp: fun_eq_iff spec_runs_def events_of_run_snoc)
      with True False cur abs cur' show ?thesis
        by (simp add: e group_step_abs group_step_current)
    next
      case c: False
      have "spec_runs (evs @ [e]) =
          (spec_runs evs)(?c \<mapsto> (py_get (spec_runs evs) ?c Map.empty)(ev \<mapsto> t))"
        using nstart c
        by (auto simp: fun_eq_iff spec_runs_def events_of_run_snoc e py_get_def)
      with False c cur abs cur' show ?thesis
        by (simp add: e group_step_abs group_step_current Let_def)
    qed
  qed
qed

section \<open>Execution mode\<close>

text \<open>
  \<open>detect_execution_mode\<close>: whether the 5000 code points from a run's start contain a
  worker timer line for \<open>SIZE_ANALYSIS_COMPLETE\<close> or \<open>HASH_CALCULATION_COMPLETE\<close>, or
  the fallback message.
\<close>

definition worker_event_line :: "string \<Rightarrow> unit matcher" where
  "worker_event_line ev s = do {
     s1 \<leftarrow> lit ''fileHashWorker.js:'' s;
     (_, s2) \<leftarrow> munch is_digit s1;
     (_, s3) \<leftarrow> spaces1 s2;
     s4 \<leftarrow> lit ev s3;
     Some ((), s4)
   }"

definition fallback_msg :: string where
  "fallback_msg = ''Web Worker restart failed, falling back to main thread processing''"

definition detect_execution_mode :: "string \<Rightarrow> nat \<Rightarrow> bool" where
  "detect_execution_mode content test_run_start_pos =
     (let search_window = utf8_take 5000 (drop test_run_start_pos content)
      in search (worker_event_line ''SIZE_ANALYSIS_COMPLETE'') search_window \<noteq> None
         \<or> search (worker_event_line ''HASH_CALCULATION_COMPLETE'') search_window \<noteq> None
         \<or> str_contains fallback_msg search_window)"

section \<open>Three-stage rows\<close>

record timing_row =
  test_run :: nat
  is_worker_mode :: bool
  total_duration :: "int option"
  phase1_file_analysis :: "int option"
  phase2_hash_processing :: "int option"
  phase3_ui_rendering :: "int option"
  processing_start :: int
  deduplication_start :: "int option"
  ui_update_start :: "int option"
  all_files_displayed :: "int option"

text \<open>A duration is defined when both of its endpoints are; \<open>None\<close> is Python's \<open>None\<close>.\<close>

text \<open>\<open>data\<close> is the run's event dictionary, read only through \<open>data.get\<close>.\<close>

definition three_stage_row :: "nat \<Rightarrow> bool \<Rightarrow> (string \<rightharpoonup> int) \<Rightarrow> timing_row" where
  "three_stage_row k worker data =
     (let ps = py_get data ''PROCESSING_START'' 0;
          ds = data ''DEDUPLICATION_START'';
          us = data ''UI_UPDATE_START'';
          af = data ''ALL_FILES_DISPLAYED''
      in \<lparr>test_run = k, is_worker_mode = worker,
          total_duration = (case af of Some a \<Rightarrow> Some (a - ps) | None \<Rightarrow> None),
          phase1_file_analysis = (case ds of Some d \<Rightarrow> Some (d - ps) | None \<Rightarrow> None),
          phase2_hash_processing =
            (case (us, ds) of (Some u, Some d) \<Rightarrow> Some (u - d) | _ \<Rightarrow> None),
          phase3_ui_rendering =
            (case (af, us) of (Some a, Some u) \<Rightarrow> Some (a - u) | _ \<Rightarrow> None),
          processing_start = ps, deduplication_start = ds, ui_update_start = us,
          all_files_displayed = af\<rparr>)"

definition parse_timing_data :: "string \<Rightarrow> timing_row list" where
  "parse_timing_data content =
     (let st = group_runs (timer_events content)
      in map (\<lambda>k. three_stage_row k
                    (detect_execution_mode content (dget_or (test_run_positions st) k 0))
                    (dget (dget_or (test_run_data st) k [])))
           (sort (map fst (test_run_data st))))"

section \<open>The older parser\<close>

text \<open>
  \<open>parse_timing_data\<close> of \<open>src/docs/speed_tests/parse_console_log.py\<close>: only the
  \<open>processingTimer\<close> lines (\<open>re.findall\<close>), a counter that starts at \<open>1\<close> and has
  no guard, and a row of the sixteen expected columns with \<open>''\<close> for a missing event.
\<close>

definition older_columns :: "string list" where
  "older_columns =
     [''PROCESSING_START'', ''DEDUPLICATION_START'', ''WORKER_SEND'',
      ''SIZE_ANALYSIS_COMPLETE'', ''HASH_CALCULATION_COMPLETE'', ''DEDUP_LOGIC_START'',
      ''DEDUP_LOGIC_COMPLETE'', ''WORKER_COMPLETE'', ''RESULT_MAPPING_COMPLETE'',
      ''UI_UPDATE_START'', ''CHUNK1_START'', ''CHUNK1_COMPLETE'',
      ''CHUNK2_START'', ''DOM_RENDER_COMPLETE'', ''CHUNK2_COMPLETE'', ''ALL_FILES_DISPLAYED'']"

text \<open>One pass of the loop: \<open>current_test_run += 1\<close> at a marker, then the write.\<close>

definition older_step ::
  "nat \<times> (nat \<times> (string \<times> int) list) list \<Rightarrow> string \<times> int \<Rightarrow> nat \<times> (nat \<times> (string \<times> int) list) list" where
  "older_step st m =
     (case (st, m) of ((cur, d), (event_type, timing)) \<Rightarrow>
        let cur' = (if event_type = ''PROCESSING_START'' then Suc cur else cur)
        in (cur', dset d cur' (dset (dget_or d cur' []) event_type timing)))"

definition older_groups :: "timer_event list \<Rightarrow> (nat \<times> (string \<times> int) list) list" where
  "older_groups evs = snd (foldl older_step (1, []) (map (\<lambda>(p, ev, t, src). (ev, t)) evs))"

definition parse_timing_data_older :: "string \<Rightarrow> pyval pydict list" where
  "parse_timing_data_older content =
     (let d = older_groups (timer_matches ''processingTimer'' Main content)
      in map (\<lambda>k. (''Test Run #'', VInt (int k)) #
                   map (\<lambda>c. (c, case dget (dget_or d k []) c of Some t \<Rightarrow> VInt t | None \<Rightarrow> VStr ''''))
                       older_columns)
             (sort (map fst d)))"

section \<open>The whole loop\<close>

text \<open>
  The loop invariant: the current run is the number of markers read, the event
  dictionaries are the specification's, the run numbers are distinct keys, and each
  run's recorded offset is the offset of its marker.
\<close>

definition start_pos :: "timer_event list \<Rightarrow> nat \<Rightarrow> nat" where
  "start_pos evs k = fst (filter is_start evs ! (k - 1))"

definition groups_inv :: "timer_event list \<Rightarrow> run_groups \<Rightarrow> bool" where
  "groups_inv evs st \<longleftrightarrow>
     current_test_run st = run_count evs \<and> abs_runs st = spec_runs evs \<and>
     distinct (map fst (test_run_data st)) \<and>
     dget (test_run_positions st) =
       (\<lambda>k. if 0 < k \<and> k \<le> run_count evs then Some (start_pos evs k) else None)"

lemma group_step_data_keys:
  "distinct (map fst (test_run_data st)) \<Longrightarrow> distinct (map fst (test_run_data (group_step st e)))"
  by (cases e) (simp add: group_step_def Let_def distinct_dset)

lemma group_step_positions:
  assumes "current_test_run st = run_count evs"
    and "dget (test_run_positions st) =
       (\<lambda>k. if 0 < k \<and> k \<le> run_count evs then Some (start_pos evs k) else None)"
  shows "dget (test_run_positions (group_step st e)) =
       (\<lambda>k. if 0 < k \<and> k \<le> run_count (evs @ [e]) then Some (start_pos (evs @ [e]) k) else None)"
proof -
  obtain pos ev t src where e: "e = (pos, ev, t, src)" by (cases e) auto
  have prefix: "start_pos (evs @ [e]) k = start_pos evs k" if "0 < k" "k \<le> run_count evs" for k
  proof -
    have "k - 1 < length (filter is_start evs)" using that by (simp add: run_count_def)
    then show ?thesis by (simp add: start_pos_def nth_append)
  qed
  show ?thesis
  proof (cases "ev = ''PROCESSING_START''")
    case True
    then have "is_start e" by (simp add: e is_start_def)
    moreover have "start_pos (evs @ [e]) (Suc (run_count evs)) = pos"
      using \<open>is_start e\<close> by (simp add: start_pos_def nth_append run_count_def e)
    ultimately show ?thesis
      using assms True prefix
      by (auto simp: group_step_def e Let_def dget_dset_upd fun_eq_iff)
  next
    case False
    then have "\<not> is_start e" by (simp add: e is_start_def)
    with assms False prefix show ?thesis
      by (auto simp: group_step_def e Let_def fun_eq_iff)
  qed
qed

lemma groups_inv_step: "groups_inv evs st \<Longrightarrow> groups_inv (evs @ [e]) (group_step st e)"
  unfolding groups_inv_def
  using group_step_refines group_step_data_keys group_step_positions by blast

lemma group_runs_inv: "groups_inv evs (group_runs evs)"
proof (induction evs rule: rev_induct)
  case Nil
  show ?case
    by (auto simp: groups_inv_def group_runs_def groups_init_def abs_runs_def spec_runs_def
        run_count_def dget_def fun_eq_iff)
next
  case (snoc e evs)
  then show ?case
    using groups_inv_step by (simp add: group_runs_def)
qed

lemma group_runs_keys:
  "sort (map fst (test_run_data (group_runs evs))) = [1..<Suc (run_count evs)]"
proof -
  let ?ks = "map fst (test_run_data (group_runs evs))"
  have inv: "groups_inv evs (group_runs evs)" by (rule group_runs_inv)
  have "set ?ks = {k. abs_runs (group_runs evs) k \<noteq> None}"
    by (simp add: abs_runs_def dget_def dom_map_of_conv_image_fst [symmetric] dom_def)
  also have "\<dots> = {1..run_count evs}"
    using inv by (auto simp: groups_inv_def spec_runs_def)
  finally have "set ?ks = {1..run_count evs}" .
  moreover have "distinct ?ks" using inv by (simp add: groups_inv_def)
  ultimately show ?thesis
    by (metis atLeastLessThanSuc_atLeastAtMost distinct_sort set_sort sorted_distinct_set_unique
        sorted_sort distinct_upt set_upt sorted_upt)
qed

lemma group_runs_data:
  assumes "0 < k" "k \<le> run_count evs"
  shows "dget (dget_or (test_run_data (group_runs evs)) k []) = last_write (events_of_run evs k)"
proof -
  have "abs_runs (group_runs evs) k = Some (last_write (events_of_run evs k))"
    using group_runs_inv [of evs] assms by (simp add: groups_inv_def spec_runs_def)
  then obtain d where "dget (test_run_data (group_runs evs)) k = Some d"
    and "dget d = last_write (events_of_run evs k)"
    by (auto simp: abs_runs_def)
  then show ?thesis by (simp add: dget_or_def)
qed

lemma group_runs_pos:
  "0 < k \<Longrightarrow> k \<le> run_count evs \<Longrightarrow>
     dget_or (test_run_positions (group_runs evs)) k 0 = start_pos evs k"
  using group_runs_inv [of evs]
  by (simp add: groups_inv_def dget_or_def py_get_def)

lemma parse_timing_row:
  assumes "0 < k" "k \<le> run_count (timer_events content)"
  shows "parse_timing_data content ! (k - 1) =
     three_stage_row k (detect_execution_mode content (start_pos (timer_events content) k))
       (last_write (events_of_run (timer_events content) k))"
proof -
  let ?N = "run_count (timer_events content)"
  have "k - 1 < length [1..<Suc ?N]" "[1..<Suc ?N] ! (k - 1) = k"
    using assms by (simp_all del: upt_Suc)
  with assms show ?thesis
    by (simp add: parse_timing_data_def Let_def group_runs_keys group_runs_data group_runs_pos
        del: upt_Suc)
qed

section \<open>The boundary marker of each run\<close>

definition start_time :: "timer_event list \<Rightarrow> nat \<Rightarrow> int" where
  "start_time evs k = fst (snd (snd (filter is_start evs ! (k - 1))))"

lemma is_start_simp [simp]: "is_start (p, ev, t, src) \<longleftrightarrow> ev = ''PROCESSING_START''"
  by (simp add: is_start_def)

lemma last_write_start:
  "last_write es ''PROCESSING_START'' =
     (if filter is_start es = [] then None else Some (fst (snd (snd (last (filter is_start es))))))"
proof (induction es rule: rev_induct)
  case Nil
  then show ?case by simp
next
  case (snoc e es)
  obtain p ev t src where e: "e = (p, ev, t, src)" by (cases e) auto
  with snoc show ?case by simp
qed

lemma starts_of_run:
  "0 < k \<Longrightarrow> k \<le> run_count evs \<Longrightarrow>
     filter is_start (events_of_run evs k) = [filter is_start evs ! (k - 1)]"
proof (induction evs arbitrary: k rule: rev_induct)
  case Nil
  then show ?case by (simp add: run_count_def)
next
  case (snoc e evs)
  show ?case
  proof (cases "k \<le> run_count evs")
    case True
    then have "k - 1 < length (filter is_start evs)" using snoc.prems by (simp add: run_count_def)
    moreover have "run_count (evs @ [e]) = k \<Longrightarrow> \<not> is_start e"
      using True by auto
    ultimately show ?thesis
      using snoc True by (auto simp: events_of_run_snoc nth_append)
  next
    case False
    with snoc.prems have "is_start e" and k: "k = Suc (run_count evs)"
      by (auto split: if_splits)
    then show ?thesis
      by (simp add: events_of_run_snoc events_of_run_beyond nth_append run_count_def)
  qed
qed

lemma run_start_time:
  "0 < k \<Longrightarrow> k \<le> run_count evs \<Longrightarrow>
     last_write (events_of_run evs k) ''PROCESSING_START'' = Some (start_time evs k)"
  by (simp add: last_write_start starts_of_run start_time_def)

lemma three_stage_row_test_run [simp]: "test_run (three_stage_row k w d) = k"
  by (simp add: three_stage_row_def Let_def)

section \<open>Properties of the timing extractor\<close>

text \<open>
  C1: the parser computes, for each run \<open>k\<close> from 1 to the number of
  \<open>PROCESSING_START\<close> markers, the three-stage row of the dictionary in which each
  event name holds the last value it took between the \<open>k\<close>-th marker and the next,
  with the execution mode read from the window at the \<open>k\<close>-th marker.
\<close>

theorem parse_timing_data_spec:
  "parse_timing_data content =
     map (\<lambda>k. three_stage_row k
                (detect_execution_mode content (start_pos (timer_events content) k))
                (last_write (events_of_run (timer_events content) k)))
         [1..<Suc (run_count (timer_events content))]"
  by (auto simp: parse_timing_data_def Let_def group_runs_keys group_runs_data group_runs_pos)

text \<open>
  C2: a log with \<open>N\<close> boundary markers gives exactly \<open>N\<close> timing rows, numbered
  1 to \<open>N\<close> in order; events before the first marker open no run.
\<close>

theorem timing_run_numbers:
  "map test_run (parse_timing_data content) = [1..<Suc (run_count (timer_events content))]"
  by (simp add: parse_timing_data_def Let_def group_runs_keys comp_def)

text \<open>
  C3: the grouping loop refines its specification: run \<open>k\<close> exists exactly for
  \<open>1 \<le> k \<le> N\<close>, and its dictionary maps each event name to its last value among
  the events of run \<open>k\<close>.
\<close>

theorem grouping_refines: "abs_runs (group_runs evs) = spec_runs evs"
  using group_runs_inv [of evs] by (simp add: groups_inv_def)

text \<open>
  C4: the start timestamp of every row is the value of its own \<open>PROCESSING_START\<close>
  event; the default \<open>0\<close> of \<open>data.get('PROCESSING_START', 0)\<close> is never taken.
\<close>

theorem timing_processing_start:
  assumes "0 < k" "k \<le> run_count (timer_events content)"
  shows "processing_start (parse_timing_data content ! (k - 1)) = start_time (timer_events content) k"
  using parse_timing_row [OF assms] run_start_time [OF assms]
  by (simp add: three_stage_row_def Let_def)

text \<open>
  C5: each duration of a row is the difference of its two timestamps in that run when
  both are present and \<open>None\<close> otherwise, never a coerced zero.
\<close>

theorem timing_phase_durations:
  assumes "0 < k" "k \<le> run_count (timer_events content)"
  defines "r \<equiv> parse_timing_data content ! (k - 1)"
    and "m \<equiv> last_write (events_of_run (timer_events content) k)"
    and "t0 \<equiv> start_time (timer_events content) k"
  shows "phase1_file_analysis r = map_option (\<lambda>d. d - t0) (m ''DEDUPLICATION_START'') \<and>
    phase2_hash_processing r =
      (case (m ''UI_UPDATE_START'', m ''DEDUPLICATION_START'') of
         (Some u, Some d) \<Rightarrow> Some (u - d) | _ \<Rightarrow> None) \<and>
    phase3_ui_rendering r =
      (case (m ''ALL_FILES_DISPLAYED'', m ''UI_UPDATE_START'') of
         (Some a, Some u) \<Rightarrow> Some (a - u) | _ \<Rightarrow> None) \<and>
    total_duration r = map_option (\<lambda>a. a - t0) (m ''ALL_FILES_DISPLAYED'')"
  using parse_timing_row [OF assms(1,2)] run_start_time [OF assms(1,2)]
  unfolding r_def m_def t0_def
  by (simp add: three_stage_row_def Let_def split: option.split)

text \<open>
  C6: \<open>detect_execution_mode\<close> reports worker mode for a run whose window holds the
  message \<open>Web Worker restart failed, falling back to main thread processing\<close>, the
  message of a run that fell back to the main thread.
\<close>

theorem detect_fallback_is_worker:
  assumes "str_contains fallback_msg (utf8_take 5000 (drop p content))"
  shows "detect_execution_mode content p"
  using assms by (simp add: detect_execution_mode_def)

text \<open>
  C7: a timer line written as \<open>src.js:LINE EVENT: VALUE\<close> is read back as the pair
  \<open>(EVENT, VALUE)\<close>, and the scan resumes right after the value.
\<close>

theorem timer_line_roundtrip:
  assumes ev: "list_all is_event_char ev" "ev \<noteq> []"
    and rest: "rest = [] \<or> \<not> is_digit (hd rest)"
  shows "timer_line src (src @ ''.js:'' @ show_nat l @ '' '' @ ev @ '': '' @ show_nat v @ rest) =
    Some ((ev, v), rest)"
proof -
  obtain c cs where c: "ev = c # cs" "is_event_char c"
    using ev by (cases ev) auto
  obtain d ds where d: "show_nat v = d # ds" "is_digit d"
    using show_nat_digits [of v] by (cases "show_nat v") auto
  have colon: "\<not> is_event_char (CHR '':'')" by (simp add: is_event_char_def)
  have blank: "\<not> is_digit (CHR '' '')" by (simp add: is_digit_def)
  have 1: "lit (src @ ''.js:'') (src @ ''.js:'' @ show_nat l @ '' '' @ ev @ '': '' @ show_nat v @ rest) =
      Some (show_nat l @ '' '' @ ev @ '': '' @ show_nat v @ rest)"
    using lit_append [of "src @ ''.js:''"] by simp
  have 2: "munch is_digit (show_nat l @ '' '' @ ev @ '': '' @ show_nat v @ rest) =
      Some (show_nat l, '' '' @ ev @ '': '' @ show_nat v @ rest)"
    using show_nat_digits [of l] blank by (intro munch_append) simp_all
  have 3: "spaces1 ('' '' @ ev @ '': '' @ show_nat v @ rest) = Some ('' '', ev @ '': '' @ show_nat v @ rest)"
    using spaces1_blank [OF no_space_start_event_char [OF c(2)]] c(1) by simp
  have 4: "munch is_event_char (ev @ '': '' @ show_nat v @ rest) = Some (ev, '': '' @ show_nat v @ rest)"
    using ev colon by (intro munch_append) simp_all
  have 5: "lit '':'' ('': '' @ show_nat v @ rest) = Some ('' '' @ show_nat v @ rest)"
    using lit_append [of "'':''" "'' '' @ show_nat v @ rest"] by simp
  have 6: "spaces1 ('' '' @ show_nat v @ rest) = Some ('' '', show_nat v @ rest)"
    using spaces1_blank [OF no_space_start_digit [OF d(2)]] d(1) by simp
  have 7: "munch is_digit (show_nat v @ rest) = Some (show_nat v, rest)"
    using show_nat_digits [of v] rest by (intro munch_append) simp_all
  show ?thesis
    unfolding timer_line_def
    by (simp only: 1 2 3 4 5 6 7 bind.simps prod.case digits_val_show_nat)
qed

text \<open>
  The older parser's loop against the newer one: its counter is one ahead, its run
  \<open>k + 1\<close> holds what the newer parser files under run \<open>k\<close>, and its run \<open>1\<close> holds the
  events before the first marker.
\<close>

lemma older_sim:
  "fst (foldl older_step (1, []) (map (\<lambda>(p, ev, t, src). (ev, t)) evs)) =
     Suc (current_test_run (group_runs evs)) \<and>
   dget (older_groups evs) 0 = None \<and>
   (\<forall>k. 0 < k \<longrightarrow> dget (older_groups evs) (Suc k) = dget (test_run_data (group_runs evs)) k) \<and>
   map_option dget (dget (older_groups evs) 1) =
     (if takeWhile (\<lambda>e. \<not> is_start e) evs = [] then None
      else Some (last_write (takeWhile (\<lambda>e. \<not> is_start e) evs)))"
proof (induction evs rule: rev_induct)
  case Nil
  show ?case by (simp add: older_groups_def group_runs_def groups_init_def dget_def)
next
  case (snoc e evs)
  obtain p ev t src where e: "e = (p, ev, t, src)" by (cases e) auto
  obtain cur d where v: "foldl older_step (1, []) (map (\<lambda>(p, ev, t, src). (ev, t)) evs) = (cur, d)"
    by fastforce
  define st where "st = group_runs evs"
  have c: "current_test_run st = run_count evs"
    using group_runs_inv [of evs] by (simp add: groups_inv_def st_def)
  have cur: "cur = Suc (current_test_run st)" and d0: "dget d 0 = None"
    and dk: "\<And>k. 0 < k \<Longrightarrow> dget d (Suc k) = dget (test_run_data st) k"
    and d1: "map_option dget (dget d 1) =
       (if takeWhile (\<lambda>e. \<not> is_start e) evs = [] then None
        else Some (last_write (takeWhile (\<lambda>e. \<not> is_start e) evs)))"
    using snoc.IH v by (simp_all add: older_groups_def st_def)
  define c' where "c' = (if ev = ''PROCESSING_START'' then Suc (current_test_run st) else current_test_run st)"
  have fold': "foldl older_step (1, []) (map (\<lambda>(p, ev, t, src). (ev, t)) (evs @ [e])) =
      (Suc c', dset d (Suc c') (dset (dget_or d (Suc c') []) ev t))"
    using v by (simp add: e older_step_def c'_def cur)
  have st': "current_test_run (group_runs (evs @ [e])) = c'"
    by (simp add: group_runs_def e group_step_current c'_def st_def [unfolded group_runs_def])
  have data': "test_run_data (group_runs (evs @ [e])) =
      (if 0 < c' then dset (test_run_data st) c' (dset (dget_or (test_run_data st) c' []) ev t)
       else test_run_data st)"
    by (simp add: group_runs_def e group_step_def Let_def c'_def st_def [unfolded group_runs_def])
  have same: "dget_or d (Suc c') [] = dget_or (test_run_data st) c' []" if "0 < c'"
    using dk [OF that] by (simp add: dget_or_def py_get_def)
  have pre: "takeWhile (\<lambda>e. \<not> is_start e) (evs @ [e]) =
      (if c' = 0 then evs @ [e] else takeWhile (\<lambda>e. \<not> is_start e) evs)"
  proof (cases "run_count evs = 0")
    case True
    then have all: "\<forall>x \<in> set evs. \<not> is_start x" by (simp add: run_count_def filter_empty_conv)
    then have tw: "takeWhile (\<lambda>e. \<not> is_start e) evs = evs" by (simp add: takeWhile_eq_all_conv)
    show ?thesis using True c all by (auto simp: c'_def e takeWhile_append2 tw)
  next
    case False
    then obtain x where "x \<in> set evs" "is_start x" by (auto simp: run_count_def filter_empty_conv)
    then show ?thesis using False c by (auto simp: c'_def takeWhile_append1)
  qed
  have "map_option dget (dget (older_groups (evs @ [e])) 1) =
     (if takeWhile (\<lambda>e. \<not> is_start e) (evs @ [e]) = [] then None
      else Some (last_write (takeWhile (\<lambda>e. \<not> is_start e) (evs @ [e]))))"
  proof (cases "c' = 0")
    case True
    then have "current_test_run st = 0" "ev \<noteq> ''PROCESSING_START''" by (auto simp: c'_def split: if_splits)
    then have "takeWhile (\<lambda>e. \<not> is_start e) evs = evs"
      using c by (simp add: run_count_def filter_empty_conv takeWhile_eq_all_conv)
    then have "dget (dget_or d 1 []) = last_write evs"
      using d1 by (cases evs) (auto simp: dget_or_def py_get_def dget_def split: option.splits)
    then show ?thesis using True pre fold' by (simp add: older_groups_def e dget_dset dget_dset_upd)
  next
    case False
    then show ?thesis using pre d1 fold' by (simp add: older_groups_def dget_dset)
  qed
  moreover have "dget (older_groups (evs @ [e])) (Suc k) = dget (test_run_data (group_runs (evs @ [e]))) k"
    if "0 < k" for k
    using that dk [OF that] same fold' by (auto simp: older_groups_def data' dget_dset)
  ultimately show ?case
    using d0 st' fold' by (simp add: older_groups_def dget_dset)
qed

lemma older_groups_distinct: "distinct (map fst (older_groups evs))"
proof -
  have "distinct (map fst (snd (foldl older_step st ms)))" if "distinct (map fst (snd st))" for st ms
    using that
  proof (induction ms arbitrary: st)
    case (Cons m ms)
    then show ?case by (auto simp: older_step_def Let_def distinct_dset split: prod.splits)
  qed simp
  then show ?thesis by (simp add: older_groups_def)
qed

lemma older_runs:
  "map_option dget (dget (older_groups evs) k) =
     (if k = 0 then None
      else if k = 1 then
        (if takeWhile (\<lambda>e. \<not> is_start e) evs = [] then None
         else Some (last_write (takeWhile (\<lambda>e. \<not> is_start e) evs)))
      else spec_runs evs (k - 1))"
proof (cases k)
  case 0
  then show ?thesis using older_sim [of evs] by simp
next
  case (Suc j)
  show ?thesis
  proof (cases j)
    case 0
    then show ?thesis using older_sim [of evs] Suc by simp
  next
    case (Suc i)
    have "abs_runs (group_runs evs) (Suc i) = spec_runs evs (Suc i)"
      using group_runs_inv [of evs] by (simp add: groups_inv_def)
    then show ?thesis using older_sim [of evs] Suc \<open>k = Suc j\<close> by (simp add: abs_runs_def)
  qed
qed


text \<open>
  C8: the older \<open>parse_timing_data\<close> files under run \<open>k + 1\<close> exactly what the
  specification of the grouping gives run \<open>k\<close>, and under run \<open>1\<close> the events logged
  before the first \<open>PROCESSING_START\<close>; it has no run \<open>0\<close>.
\<close>

theorem older_timing_runs_shifted:
  "map_option dget (dget (older_groups evs) k) =
     (if k = 0 then None
      else if k = 1 then
        (if takeWhile (\<lambda>e. \<not> is_start e) evs = [] then None
         else Some (last_write (takeWhile (\<lambda>e. \<not> is_start e) evs)))
      else spec_runs evs (k - 1))"
  by (rule older_runs)

lemma older_keys:
  "sort (map fst (older_groups evs)) =
     (if takeWhile (\<lambda>e. \<not> is_start e) evs = [] then [] else [1]) @ [2..<run_count evs + 2]"
proof -
  let ?pre = "takeWhile (\<lambda>e. \<not> is_start e) evs"
  let ?L = "(if ?pre = [] then [] else [1]) @ [2..<run_count evs + 2]"
  have mem: "k \<in> set (map fst (older_groups evs)) \<longleftrightarrow> map_option dget (dget (older_groups evs) k) \<noteq> None"
    for k by (simp add: dget_def map_of_eq_None_iff)
  have "map_option dget (dget (older_groups evs) k) \<noteq> None \<longleftrightarrow> k \<in> set ?L" for k
    unfolding older_runs by (auto simp: spec_runs_def)
  then have "set (map fst (older_groups evs)) = set ?L" using mem by blast
  moreover have "sorted ?L" "distinct ?L" by (auto simp: sorted_append)
  ultimately show ?thesis
    by (metis older_groups_distinct distinct_sort set_sort sorted_distinct_set_unique sorted_sort)
qed

text \<open>
  C34: the older parser numbers its rows \<open>2, 3, ..., N + 1\<close> for a log with \<open>N\<close>
  markers, with an extra row \<open>1\<close> only when events precede the first marker: a log that
  starts with its first \<open>PROCESSING_START\<close> has no row \<open>1\<close>, while the folder records
  of the same file are numbered from \<open>1\<close>.
\<close>

theorem older_timing_run_numbers:
  "map hd (parse_timing_data_older content) =
     map (\<lambda>k. (''Test Run #'', VInt (int k)))
       ((if takeWhile (\<lambda>e. \<not> is_start e) (timer_matches ''processingTimer'' Main content) = []
         then [] else [1]) @
        [2..<run_count (timer_matches ''processingTimer'' Main content) + 2])"
  by (simp add: parse_timing_data_older_def older_keys Let_def comp_def del: upt_Suc)

section \<open>Witnesses\<close>

lemma timing_demo_runs:
  "run_count (timer_events
     ''processingTimer.js:1 PROCESSING_START: 5\<newline>processingTimer.js:2 DEDUPLICATION_START: 9'') = 1"
  by (simp add: timer_events_def timer_matches_def run_count_def timer_line_def scan_simps)

theorem timing_processing_start_witness:
  "0 < (1::nat) \<and>
   1 \<le> run_count (timer_events
     ''processingTimer.js:1 PROCESSING_START: 5\<newline>processingTimer.js:2 DEDUPLICATION_START: 9'') \<and>
   processing_start (parse_timing_data
     ''processingTimer.js:1 PROCESSING_START: 5\<newline>processingTimer.js:2 DEDUPLICATION_START: 9'' ! (1 - 1)) =
   start_time (timer_events
     ''processingTimer.js:1 PROCESSING_START: 5\<newline>processingTimer.js:2 DEDUPLICATION_START: 9'') 1"
  using timing_processing_start [of 1
      "''processingTimer.js:1 PROCESSING_START: 5\<newline>processingTimer.js:2 DEDUPLICATION_START: 9''"]
    timing_demo_runs
  by simp

theorem timing_phase_durations_witness:
  "let c = ''processingTimer.js:1 PROCESSING_START: 5\<newline>processingTimer.js:2 DEDUPLICATION_START: 9'';
       r = parse_timing_data c ! (1 - 1); m = last_write (events_of_run (timer_events c) 1);
       t0 = start_time (timer_events c) 1
   in 0 < (1::nat) \<and> 1 \<le> run_count (timer_events c) \<and>
      phase1_file_analysis r = map_option (\<lambda>d. d - t0) (m ''DEDUPLICATION_START'') \<and>
      phase2_hash_processing r =
        (case (m ''UI_UPDATE_START'', m ''DEDUPLICATION_START'') of
           (Some u, Some d) \<Rightarrow> Some (u - d) | _ \<Rightarrow> None) \<and>
      phase3_ui_rendering r =
        (case (m ''ALL_FILES_DISPLAYED'', m ''UI_UPDATE_START'') of
           (Some a, Some u) \<Rightarrow> Some (a - u) | _ \<Rightarrow> None) \<and>
      total_duration r = map_option (\<lambda>a. a - t0) (m ''ALL_FILES_DISPLAYED'')"
  using timing_phase_durations [of 1
      "''processingTimer.js:1 PROCESSING_START: 5\<newline>processingTimer.js:2 DEDUPLICATION_START: 9''"]
    timing_demo_runs
  by (simp only: Let_def) simp

theorem detect_fallback_is_worker_witness:
  "str_contains fallback_msg (utf8_take 5000 (drop 0 (''x '' @ fallback_msg))) \<and>
   detect_execution_mode (''x '' @ fallback_msg) 0"
proof -
  have h: "str_contains fallback_msg (utf8_take 5000 (drop 0 (''x '' @ fallback_msg)))"
    by (simp add: fallback_msg_def is_cont_byte_def)
  show ?thesis using h detect_fallback_is_worker [OF h] by simp
qed

theorem timer_line_roundtrip_witness:
  "list_all is_event_char ''PROCESSING_START'' \<and> ''PROCESSING_START'' \<noteq> [] \<and>
   (''\<newline>'' = [] \<or> \<not> is_digit (hd ''\<newline>'')) \<and>
   timer_line ''processingTimer''
     (''processingTimer'' @ ''.js:'' @ show_nat 12 @ '' '' @ ''PROCESSING_START'' @ '': '' @
      show_nat 100 @ ''\<newline>'') =
   Some ((''PROCESSING_START'', 100), ''\<newline>'')"
proof -
  have h1: "list_all is_event_char ''PROCESSING_START''" by (simp add: is_event_char_def)
  have h2: "''\<newline>'' = [] \<or> \<not> is_digit (hd ''\<newline>'')" by (simp add: is_digit_def)
  show ?thesis
    using h1 h2 timer_line_roundtrip [OF h1 _ h2, of "''processingTimer''" 12 100] by simp
qed

end
