(* ===== verification/Folder.thy ===== *)
theory Folder
  imports Text_Scan
begin

text \<open>
  The folder-metric extractors: \<open>parse_folder_analysis_data\<close> of
  \<open>src/docs/plans/Bookkeeper/speed_tests/parse_console_log.py\<close> (the modal-predictor
  format), its older version in \<open>src/docs/speed_tests/parse_console_log.py\<close> (with
  derived metrics), and \<open>extract_complete_folder_data\<close> of
  \<open>src/docs/speed_tests/improved_parser.py\<close>. Each finds the \<open>FOLDER_ANALYSIS_DATA\<close>
  records of a console log, reads a fixed list of \<open>name: value\<close> fields out of each
  record with one \<open>re.search\<close> per field, and numbers the rows it produces.
\<close>

section \<open>Fields of a record\<close>

text \<open>
  A field is read as \<open>int\<close> (\<open>name:\s*(\d+)\<close>) or as \<open>float\<close>
  (\<open>name:\s*([\d.]+)\<close>); the kind decides the class of the capture and the
  conversion.
\<close>

datatype field_kind = FInt | FFloat

definition is_num_char :: "char \<Rightarrow> bool" where
  "is_num_char c \<longleftrightarrow> is_digit c \<or> c = CHR ''.''"

definition field_re :: "string \<Rightarrow> field_kind \<Rightarrow> string matcher" where
  "field_re f k s = do {
     s1 \<leftarrow> lit (f @ '':'') s;
     munch (if k = FFloat then is_num_char else is_digit) (snd (skip_spaces s1))
   }"

definition field_value :: "field_kind \<Rightarrow> string \<Rightarrow> pyval option" where
  "field_value k g =
     (case k of FInt \<Rightarrow> Some (VInt (int (digits_val g)))
              | FFloat \<Rightarrow> map_option VFloat (parse_decimal g))"

text \<open>
  The loop \<open>for field, pattern in field_patterns.items()\<close>: a field that is found is
  converted (a \<open>ValueError\<close> of \<open>float()\<close> aborts the record, \<open>None\<close>), a field that is
  not found takes the default of its kind.
\<close>

fun extract_fields ::
  "(field_kind \<Rightarrow> pyval) \<Rightarrow> (string \<times> field_kind) list \<Rightarrow> string \<Rightarrow> pyval pydict \<Rightarrow>
   pyval pydict option" where
  "extract_fields dflt [] m data = Some data"
| "extract_fields dflt ((f, k) # fs) m data =
     (case search (field_re f k) m of
        Some g \<Rightarrow>
          (case field_value k g of
             None \<Rightarrow> None
           | Some v \<Rightarrow> extract_fields dflt fs m (dset data f v))
      | None \<Rightarrow> extract_fields dflt fs m (dset data f (dflt k)))"

text \<open>
  A row \<open>{'TestRun#': test_run, c: data[c], ...}\<close>: a column missing from \<open>data\<close>
  raises \<open>KeyError\<close>, \<open>None\<close>.
\<close>

definition folder_row :: "string list \<Rightarrow> nat \<Rightarrow> pyval pydict \<Rightarrow> pyval pydict option" where
  "folder_row cols n data =
     map_option (\<lambda>vs. (''TestRun#'', VInt (int n)) # zip cols vs) (those (map (dget data) cols))"

section \<open>Numbering the records\<close>

text \<open>
  \<open>test_run = 1; for match in matches: try: ...; folder_data.append(row);
  test_run += 1 except Exception: print(...)\<close>: a record that fails is skipped and
  does not use up a number.
\<close>

fun number_records :: "(nat \<Rightarrow> 'm \<Rightarrow> 'r option) \<Rightarrow> nat \<Rightarrow> 'm list \<Rightarrow> 'r list" where
  "number_records f n [] = []"
| "number_records f n (m # ms) =
     (case f n m of
        None \<Rightarrow> number_records f n ms
      | Some r \<Rightarrow> r # number_records f (Suc n) ms)"

text \<open>The same loop without \<open>try\<close>: the first exception ends the whole call.\<close>

fun number_all :: "(nat \<Rightarrow> 'm \<Rightarrow> 'r option) \<Rightarrow> nat \<Rightarrow> 'm list \<Rightarrow> 'r list option" where
  "number_all f n [] = Some []"
| "number_all f n (m # ms) = do { r \<leftarrow> f n m; rs \<leftarrow> number_all f (Suc n) ms; Some (r # rs) }"

section \<open>The modal-predictor format\<close>

text \<open>\<open>U+1F52C\<close> (microscope), as its UTF-8 bytes.\<close>

definition microscope :: string where
  "microscope = [CHR 0xF0, CHR 0x9F, CHR 0x94, CHR 0xAC]"

definition not_brace :: "char \<Rightarrow> bool" where
  "not_brace c \<longleftrightarrow> c \<noteq> CHR ''}''"

text \<open>
  \<open>\{([^}]+)\}\<close> after a marker: the greedy class stops at the first \<open>}\<close>, the only
  place the closing brace can match.
\<close>

definition brace_block :: "string \<Rightarrow> string matcher" where
  "brace_block marker s = do {
     s1 \<leftarrow> lit (marker @ ''{'') s;
     (g, s2) \<leftarrow> munch not_brace s1;
     s3 \<leftarrow> lit ''}'' s2;
     Some (g, s3)
   }"

definition folder_marker :: string where
  "folder_marker = microscope @ '' FOLDER_ANALYSIS_DATA (Modal Predictors): ''"

definition folder_fields :: "(string \<times> field_kind) list" where
  "folder_fields =
     [(''timestamp'', FInt), (''totalFiles'', FInt), (''duplicateCandidateCount'', FInt),
      (''duplicateCandidatePercent'', FInt), (''uniqueFilesSizeMB'', FFloat),
      (''duplicateCandidatesSizeMB'', FFloat), (''totalSizeMB'', FFloat),
      (''totalDirectoryCount'', FInt), (''maxDirectoryDepth'', FInt),
      (''uniqueFilesTotal'', FInt), (''avgDirectoryDepth'', FFloat)]"

definition folder_columns :: "string list" where
  "folder_columns =
     [''timestamp'', ''totalFiles'', ''duplicateCandidateCount'', ''duplicateCandidatePercent'',
      ''uniqueFilesSizeMB'', ''duplicateCandidatesSizeMB'', ''totalSizeMB'',
      ''totalDirectoryCount'', ''maxDirectoryDepth'', ''uniqueFilesTotal'', ''avgDirectoryDepth'']"

definition folder_record :: "nat \<Rightarrow> string \<Rightarrow> pyval pydict option" where
  "folder_record n m = do {
     data \<leftarrow> extract_fields (\<lambda>_. VInt 0) folder_fields m [];
     folder_row folder_columns n data
   }"

definition parse_folder_analysis_data :: "string \<Rightarrow> pyval pydict list" where
  "parse_folder_analysis_data content =
     number_records folder_record 1 (findall (brace_block folder_marker) content)"

section \<open>The older format with derived metrics\<close>

text \<open>
  \<open>src/docs/speed_tests/parse_console_log.py\<close>: the pattern
  \<open>\{([^}]+)(?:, \<dots>)?\}\<close> captures the same text as \<open>\{([^}]+)\}\<close> (the greedy class
  already stops at the first \<open>}\<close>, where the optional group can only match empty).
\<close>

definition folder_marker_v1 :: string where
  "folder_marker_v1 = microscope @ '' FOLDER_ANALYSIS_DATA: ''"

definition folder_fields_v1 :: "(string \<times> field_kind) list" where
  "folder_fields_v1 =
     [(''timestamp'', FInt), (''totalFiles'', FInt), (''mainFolderFiles'', FInt),
      (''subfolderFiles'', FInt), (''totalSizeMB'', FFloat)]"

text \<open>
  \<open>round(x, 2)\<close>: to the nearest multiple of \<open>1/100\<close>, ties to even, on the exact value.
\<close>

definition py_round2 :: "rat \<Rightarrow> rat" where
  "py_round2 x =
     (let y = x * 100; f = \<lfloor>y\<rfloor>; d = y - of_int f in
      of_int (if d < 1/2 then f else if 1/2 < d then f + 1 else if even f then f else f + 1) / 100)"

text \<open>
  The numeric value of an \<open>int\<close> or \<open>float\<close> in arithmetic; any other value raises
  \<open>TypeError\<close> (\<open>None\<close>).
\<close>

fun num :: "pyval \<Rightarrow> rat option" where
  "num (VInt i) = Some (of_int i)"
| "num (VFloat r) = Some r"
| "num (VBool b) = Some (if b then 1 else 0)"
| "num (VStr s) = None"
| "num VNone = None"

fun pint :: "pyval \<Rightarrow> int option" where
  "pint (VInt i) = Some i"
| "pint (VBool b) = Some (if b then 1 else 0)"
| "pint (VFloat r) = None"
| "pint (VStr s) = None"
| "pint VNone = None"

text \<open>
  The derived metrics and the row of the older parser. The counts are \<open>int\<close>s (they
  come from \<open>\d+\<close> or the default \<open>0\<close>); \<open>pint\<close> reads them as such.
\<close>

definition derived_row_v1 :: "nat \<Rightarrow> pyval pydict \<Rightarrow> pyval pydict option" where
  "derived_row_v1 n data = do {
     ts \<leftarrow> dget data ''timestamp'';
     tfv \<leftarrow> dget data ''totalFiles'';
     mfv \<leftarrow> dget data ''mainFolderFiles'';
     sfv \<leftarrow> dget data ''subfolderFiles'';
     szv \<leftarrow> dget data ''totalSizeMB'';
     tf \<leftarrow> pint tfv;
     mf \<leftarrow> pint mfv;
     sf \<leftarrow> pint sfv;
     sz \<leftarrow> num szv;
     let unique_files_total = tf - max 0 (tf - mf - sf);
     Some [(''TestRun#'', VInt (int n)),
           (''avgDirectoryDepth'', VFloat (if 0 < sf then 5/2 else 1)),
           (''avgFilenameLength'', VInt 25),
           (''identicalSizeFiles'', VInt (max 0 (tf - unique_files_total))),
           (''largestFileSizesMB'', VFloat (py_round2 (sz * (1/10)))),
           (''mainFolderFiles'', mfv),
           (''mainFolderSizeMB'',
              if 0 < tf then VFloat (py_round2 (sz * (of_int mf / of_int tf))) else VInt 0),
           (''maxDirectoryDepth'', VInt (if 0 < sf then 5 else 1)),
           (''subfolderFiles'', sfv),
           (''timestamp'', ts),
           (''totalFiles'', tfv),
           (''totalSizeMB'', szv),
           (''uniqueFilesMainFolder'', mfv),
           (''uniqueFilesTotal'', VInt unique_files_total),
           (''zeroByteFiles'', VInt 0)]
   }"

definition folder_record_v1 :: "nat \<Rightarrow> string \<Rightarrow> pyval pydict option" where
  "folder_record_v1 n m = do {
     data \<leftarrow> extract_fields (\<lambda>_. VInt 0) folder_fields_v1 m [];
     derived_row_v1 n data
   }"

definition parse_folder_analysis_data_v1 :: "string \<Rightarrow> pyval pydict list" where
  "parse_folder_analysis_data_v1 content =
     number_records folder_record_v1 1 (findall (brace_block folder_marker_v1) content)"

section \<open>The debugging extractor\<close>

text \<open>
  \<open>src/docs/speed_tests/improved_parser.py\<close> looks for the marker
  \<open>\<dots>FOLDER_ANALYSIS_DATA (Modal Predictors): \<close> written with the characters
  \<open>U+00F0 U+0178 U+201D U+00AC\<close>: the UTF-8 bytes of the microscope sign read as
  Windows-1252, stored again as UTF-8.
\<close>

definition mojibake_microscope :: string where
  "mojibake_microscope =
     [CHR 0xC3, CHR 0xB0, CHR 0xC5, CHR 0xB8, CHR 0xE2, CHR 0x80, CHR 0x9D, CHR 0xC2, CHR 0xAC]"

definition folder_marker_moji :: string where
  "folder_marker_moji = mojibake_microscope @ '' FOLDER_ANALYSIS_DATA (Modal Predictors): ''"

text \<open>
  The lookahead \<open>(?=\n[^\s]|\n$)\<close>: a newline followed by a code point that is not
  whitespace, or a newline at the end of the text or before a final newline.
\<close>

definition record_end :: "string \<Rightarrow> bool" where
  "record_end r \<longleftrightarrow>
     r \<noteq> [] \<and> hd r = CHR 0x0A \<and>
     (tl r = [] \<or> tl r = [CHR 0x0A] \<or> (tl r \<noteq> [] \<and> no_space_start (tl r)))"

text \<open>
  \<open>(.+?)\<close> with \<open>re.DOTALL\<close>: the shortest non-empty capture after which the
  lookahead holds. The lookahead starts with a newline byte, which never lies inside
  a multi-byte code point, so trying it after every byte is trying it after every
  code point.
\<close>

fun lazy_until :: "(string \<Rightarrow> bool) \<Rightarrow> string \<Rightarrow> string \<Rightarrow> (string \<times> string) option" where
  "lazy_until P acc [] = None"
| "lazy_until P acc (c # cs) = (if P cs then Some (rev (c # acc), cs) else lazy_until P (c # acc) cs)"

definition moji_block :: "string matcher" where
  "moji_block s = do { s1 \<leftarrow> lit folder_marker_moji s; lazy_until record_end [] s1 }"

definition complete_fields :: "(string \<times> field_kind) list" where
  "complete_fields =
     [(''timestamp'', FInt), (''totalFiles'', FInt), (''duplicateCandidateCount'', FInt),
      (''duplicateCandidatePercent'', FInt), (''uniqueFilesSizeMB'', FFloat),
      (''duplicateCandidatesSizeMB'', FFloat), (''totalSizeMB'', FFloat),
      (''totalDirectoryCount'', FInt), (''maxDirectoryDepth'', FInt),
      (''avgDirectoryDepth'', FFloat), (''uniqueFilesTotal'', FInt)]"

text \<open>A missing \<open>float\<close> field defaults to \<open>0.0\<close>, a missing \<open>int\<close> field to \<open>0\<close>.\<close>

definition complete_default :: "field_kind \<Rightarrow> pyval" where
  "complete_default k = (case k of FInt \<Rightarrow> VInt 0 | FFloat \<Rightarrow> VFloat 0)"

definition complete_record :: "nat \<Rightarrow> string \<Rightarrow> pyval pydict option" where
  "complete_record n m = do {
     data \<leftarrow> extract_fields complete_default complete_fields m [];
     folder_row folder_columns n data
   }"

text \<open>There is no \<open>try\<close>: a \<open>ValueError\<close> ends the call (\<open>None\<close>).\<close>

definition extract_complete_folder_data :: "string \<Rightarrow> pyval pydict list option" where
  "extract_complete_folder_data content =
     number_all complete_record 1 (findall moji_block content)"

section \<open>Properties\<close>

lemma number_records_tags:
  assumes "\<And>n m r. f n m = Some r \<Longrightarrow> tag r = g n"
  shows "map tag (number_records f n ms) = map g [n..<n + length (number_records f n ms)]"
proof (induction ms arbitrary: n)
  case Nil
  then show ?case by simp
next
  case (Cons m ms)
  show ?case
  proof (cases "f n m")
    case None
    then show ?thesis using Cons.IH by simp
  next
    case (Some r)
    define L where "L = length (number_records f (Suc n) ms)"
    have "map tag (number_records f n (m # ms)) = map g (n # [Suc n..<Suc n + L])"
      using Some Cons.IH [of "Suc n"] by (simp add: assms L_def)
    also have "\<dots> = map g [n..<n + Suc L]"
      by (metis upt_conv_Cons add_Suc_right add_Suc less_add_Suc1)
    finally show ?thesis using Some by (simp add: L_def)
  qed
qed

lemma number_records_length:
  assumes "\<And>n n' m. (f n m = None) = (f n' m = None)"
  shows "length (number_records f n ms) = length (filter (\<lambda>m. f 0 m \<noteq> None) ms)"
proof (induction ms arbitrary: n)
  case Nil
  then show ?case by simp
next
  case (Cons m ms)
  then show ?case
    using assms [of n m 0] by (cases "f n m") auto
qed

lemma field_value_int [simp]: "field_value FInt g = Some (VInt (int (digits_val g)))"
  by (simp add: field_value_def)

lemma field_value_None: "field_value k g = None \<longleftrightarrow> k = FFloat \<and> parse_decimal g = None"
  by (cases k) (auto simp: field_value_def)

lemma extract_fields_None:
  "extract_fields dflt fs m d = None \<longleftrightarrow>
     (\<exists>(f, k) \<in> set fs. \<exists>g. search (field_re f k) m = Some g \<and> field_value k g = None)"
  by (induction dflt fs m d rule: extract_fields.induct) (auto split: option.splits)

lemma extract_fields_other:
  "extract_fields dflt fs m d = Some d' \<Longrightarrow> f \<notin> fst ` set fs \<Longrightarrow> dget d' f = dget d f"
  by (induction dflt fs m d rule: extract_fields.induct)
     (auto simp: dget_dset split: option.splits)

lemma extract_fields_keys:
  "extract_fields dflt fs m d = Some d' \<Longrightarrow> distinct (map fst fs) \<Longrightarrow>
   set (map fst fs) \<inter> set (map fst d) = {} \<Longrightarrow> map fst d' = map fst d @ map fst fs"
  by (induction dflt fs m d rule: extract_fields.induct)
     (auto simp: keys_dset split: option.splits)

lemma extract_fields_value:
  "extract_fields dflt fs m d = Some d' \<Longrightarrow> distinct (map fst fs) \<Longrightarrow> (f, k) \<in> set fs \<Longrightarrow>
   dget d' f = (case search (field_re f k) m of None \<Rightarrow> Some (dflt k) | Some g \<Rightarrow> field_value k g)"
proof (induction dflt fs m d rule: extract_fields.induct)
  case (1 dflt m data)
  then show ?case by simp
next
  case (2 dflt f' k' fs m data)
  show ?case
  proof (cases "f' = f")
    case True
    with "2.prems" have k: "k' = k" and nf: "f \<notin> fst ` set fs"
      by (auto simp: image_iff)
    show ?thesis
      using "2.prems"(1) extract_fields_other [OF _ nf] True k
      by (auto simp: dget_dset split: option.splits)
  next
    case False
    with "2.prems" have "(f, k) \<in> set fs" by auto
    with "2.IH" "2.prems" show ?thesis by (auto split: option.splits)
  qed
qed

lemma those_Some_iff: "those xs = Some ys \<longleftrightarrow> (\<forall>x \<in> set xs. x \<noteq> None) \<and> ys = map the xs"
  by (induction xs arbitrary: ys) (auto split: option.splits)

lemma folder_row_Some:
  assumes "\<forall>c \<in> set cols. dget data c \<noteq> None"
  shows "folder_row cols n data =
    Some ((''TestRun#'', VInt (int n)) # map (\<lambda>c. (c, the (dget data c))) cols)"
proof -
  have "those (map (dget data) cols) = Some (map (the \<circ> dget data) cols)"
    using assms by (simp add: those_Some_iff)
  then show ?thesis by (simp add: folder_row_def zip_map2 zip_same_conv_map)
qed

lemma folder_row_value:
  "folder_row cols n data = Some row \<Longrightarrow> c \<in> set cols \<Longrightarrow> c \<noteq> ''TestRun#'' \<Longrightarrow>
   dget row c = dget data c"
  by (auto simp: folder_row_def those_Some_iff dget_def map_of_zip_map)

lemma folder_row_keys: "folder_row cols n data = Some row \<Longrightarrow> map fst row = ''TestRun#'' # cols"
  by (auto simp: folder_row_def those_Some_iff)

lemma folder_row_tag: "folder_row cols n data = Some row \<Longrightarrow> dget row ''TestRun#'' = Some (VInt (int n))"
  by (auto simp: folder_row_def dget_def)

lemma folder_fields_keys: "map fst folder_fields = folder_columns" "distinct folder_columns"
  by (simp_all add: folder_fields_def folder_columns_def)

lemma folder_record_data:
  assumes "extract_fields (\<lambda>_. VInt 0) folder_fields m [] = Some data"
  shows "\<forall>c \<in> set folder_columns. dget data c \<noteq> None"
  using extract_fields_keys [OF assms] folder_fields_keys
  by (simp add: dget_def map_of_eq_None_iff flip: list.set_map)

lemma folder_record_None_iff:
  "folder_record n m = None \<longleftrightarrow> extract_fields (\<lambda>_. VInt 0) folder_fields m [] = None"
  using folder_record_data folder_row_Some
  by (auto simp: folder_record_def split: Option.bind_splits)

lemma extract_int_field:
  assumes "extract_fields dflt fs m d = Some d'" "distinct (map fst fs)" "(f, FInt) \<in> set fs"
    and "dflt FInt = VInt 0"
  shows "\<exists>i. dget d' f = Some (VInt i) \<and> 0 \<le> i"
  using extract_fields_value [OF assms(1-3)] assms(4) by (auto split: option.splits)

lemma folder_fields_v1_distinct: "distinct (map fst folder_fields_v1)"
  by (simp add: folder_fields_v1_def)

lemma folder_demo_record:
  "folder_record 1 ''totalFiles: 5'' = Some
     [(''TestRun#'', VInt 1), (''timestamp'', VInt 0), (''totalFiles'', VInt 5),
      (''duplicateCandidateCount'', VInt 0), (''duplicateCandidatePercent'', VInt 0),
      (''uniqueFilesSizeMB'', VInt 0), (''duplicateCandidatesSizeMB'', VInt 0),
      (''totalSizeMB'', VInt 0), (''totalDirectoryCount'', VInt 0),
      (''maxDirectoryDepth'', VInt 0), (''uniqueFilesTotal'', VInt 0),
      (''avgDirectoryDepth'', VInt 0)]"
  by (simp add: folder_record_def folder_fields_def folder_columns_def field_re_def scan_simps
      field_value_def folder_row_def is_num_char_def dget_def)

lemma folder_v1_demo_record:
  "folder_record_v1 1 ''totalFiles: 5, mainFolderFiles: 3'' = Some
     [(''TestRun#'', VInt 1), (''avgDirectoryDepth'', VFloat 1), (''avgFilenameLength'', VInt 25),
      (''identicalSizeFiles'', VInt 2), (''largestFileSizesMB'', VFloat 0),
      (''mainFolderFiles'', VInt 3), (''mainFolderSizeMB'', VFloat 0),
      (''maxDirectoryDepth'', VInt 1), (''subfolderFiles'', VInt 0), (''timestamp'', VInt 0),
      (''totalFiles'', VInt 5), (''totalSizeMB'', VInt 0), (''uniqueFilesMainFolder'', VInt 3),
      (''uniqueFilesTotal'', VInt 3), (''zeroByteFiles'', VInt 0)]"
  by (simp add: folder_record_v1_def folder_fields_v1_def derived_row_v1_def field_re_def scan_simps
      field_value_def is_num_char_def dget_def py_round2_def)

section \<open>Claims\<close>

text \<open>
  C9: the rows of \<open>parse_folder_analysis_data\<close> are numbered \<open>1, 2, \<dots>\<close> without
  gaps, one for each record of the log whose fields all convert; a record that fails
  uses up no number.
\<close>

theorem folder_rows_numbered:
  "map (\<lambda>r. dget r ''TestRun#'') (parse_folder_analysis_data content) =
     map (\<lambda>k. Some (VInt (int k))) [1..<Suc (length (parse_folder_analysis_data content))] \<and>
   length (parse_folder_analysis_data content) =
     length (filter (\<lambda>m. folder_record 0 m \<noteq> None) (findall (brace_block folder_marker) content))"
proof
  have "\<And>n m r. folder_record n m = Some r \<Longrightarrow> dget r ''TestRun#'' = Some (VInt (int n))"
    by (auto simp: folder_record_def folder_row_tag split: Option.bind_splits)
  from number_records_tags [where f = folder_record and tag = "\<lambda>r. dget r ''TestRun#''"
      and g = "\<lambda>k. Some (VInt (int k))", OF this,
      where n = 1 and ms = "findall (brace_block folder_marker) content"]
  show "map (\<lambda>r. dget r ''TestRun#'') (parse_folder_analysis_data content) =
     map (\<lambda>k. Some (VInt (int k))) [1..<Suc (length (parse_folder_analysis_data content))]"
    by (simp add: parse_folder_analysis_data_def del: upt_Suc)
  have "\<And>n n' m. (folder_record n m = None) = (folder_record n' m = None)"
    by (simp add: folder_record_None_iff)
  from number_records_length [OF this]
  show "length (parse_folder_analysis_data content) =
     length (filter (\<lambda>m. folder_record 0 m \<noteq> None) (findall (brace_block folder_marker) content))"
    by (simp add: parse_folder_analysis_data_def)
qed

text \<open>
  C10: a record is dropped exactly when one of its \<open>float\<close> fields is found with a
  capture of \<open>[\d.]+\<close> that \<open>float()\<close> rejects (such as \<open>1.2.3\<close>); the \<open>int\<close>
  fields, missing fields and the row construction never fail.
\<close>

theorem folder_record_error:
  "folder_record n m = None \<longleftrightarrow>
     (\<exists>(f, k) \<in> set folder_fields. k = FFloat \<and>
        (\<exists>g. search (field_re f k) m = Some g \<and> parse_decimal g = None))"
proof -
  have "folder_record n m = None \<longleftrightarrow> extract_fields (\<lambda>_. VInt 0) folder_fields m [] = None"
    by (rule folder_record_None_iff)
  also have "\<dots> \<longleftrightarrow> (\<exists>(f, k) \<in> set folder_fields. k = FFloat \<and>
        (\<exists>g. search (field_re f k) m = Some g \<and> parse_decimal g = None))"
    by (auto simp: extract_fields_None field_value_None)
  finally show ?thesis .
qed

text \<open>
  C11: a record that is read gives the row \<open>TestRun#\<close> followed by the eleven columns
  in order; each holds the conversion of the first match of its field pattern, or
  \<open>0\<close> when the pattern is not found.
\<close>

theorem folder_record_values:
  assumes "folder_record n m = Some row"
  shows "map fst row = ''TestRun#'' # folder_columns \<and>
    (\<forall>(f, k) \<in> set folder_fields.
       dget row f = (case search (field_re f k) m of None \<Rightarrow> Some (VInt 0) | Some g \<Rightarrow> field_value k g))"
proof -
  obtain data where d: "extract_fields (\<lambda>_. VInt 0) folder_fields m [] = Some data"
    and r: "folder_row folder_columns n data = Some row"
    using assms by (auto simp: folder_record_def split: Option.bind_splits)
  have "dget row f = (case search (field_re f k) m of None \<Rightarrow> Some (VInt 0) | Some g \<Rightarrow> field_value k g)"
    if "(f, k) \<in> set folder_fields" for f k
  proof -
    have "f \<in> set folder_columns" "f \<noteq> ''TestRun#''"
      using that by (auto simp: folder_fields_def folder_columns_def)
    then show ?thesis
      using folder_row_value [OF r] extract_fields_value [OF d _ that] folder_fields_keys
      by simp
  qed
  then show ?thesis using folder_row_keys [OF r] by auto
qed

text \<open>
  C12: in the older parser's rows the derived \<open>uniqueFilesTotal\<close> is
  \<open>min(totalFiles, mainFolderFiles + subfolderFiles)\<close>, and it and
  \<open>identicalSizeFiles\<close> (never negative) add up to \<open>totalFiles\<close>.
\<close>

theorem folder_v1_partition:
  assumes "folder_record_v1 n m = Some row"
  shows "\<exists>tf mf sf u i.
    dget row ''totalFiles'' = Some (VInt tf) \<and> dget row ''mainFolderFiles'' = Some (VInt mf) \<and>
    dget row ''subfolderFiles'' = Some (VInt sf) \<and>
    dget row ''uniqueFilesTotal'' = Some (VInt u) \<and> dget row ''identicalSizeFiles'' = Some (VInt i) \<and>
    u = min tf (mf + sf) \<and> u + i = tf \<and> 0 \<le> i"
proof -
  obtain data where d: "extract_fields (\<lambda>_. VInt 0) folder_fields_v1 m [] = Some data"
    and r: "derived_row_v1 n data = Some row"
    using assms by (auto simp: folder_record_v1_def split: Option.bind_splits)
  have mem: "(''totalFiles'', FInt) \<in> set folder_fields_v1" "(''mainFolderFiles'', FInt) \<in> set folder_fields_v1"
    "(''subfolderFiles'', FInt) \<in> set folder_fields_v1"
    by (simp_all add: folder_fields_v1_def)
  obtain tf mf sf where
    "dget data ''totalFiles'' = Some (VInt tf)" "dget data ''mainFolderFiles'' = Some (VInt mf)"
    "dget data ''subfolderFiles'' = Some (VInt sf)"
    using extract_int_field [OF d folder_fields_v1_distinct mem(1)]
      extract_int_field [OF d folder_fields_v1_distinct mem(2)]
      extract_int_field [OF d folder_fields_v1_distinct mem(3)] by auto
  with r show ?thesis
    by (auto simp: derived_row_v1_def dget_def split: Option.bind_splits)
qed

text \<open>
  C13: \<open>improved_parser.py\<close> finds no record in a log that does not contain the
  mis-encoded marker; in particular a log written with the real microscope sign gives
  no rows.
\<close>

theorem complete_parser_misses_utf8_marker:
  assumes "\<not> str_contains mojibake_microscope content"
  shows "extract_complete_folder_data content = Some []"
proof -
  have "moji_block (drop j content) = None" for j
  proof (rule ccontr)
    assume "moji_block (drop j content) \<noteq> None"
    then obtain s1 where "lit folder_marker_moji (drop j content) = Some s1"
      by (auto simp: moji_block_def split: Option.bind_splits)
    then have "drop j content = folder_marker_moji @ s1" by (rule lit_Some)
    then have "drop j content = mojibake_microscope @ ('' FOLDER_ANALYSIS_DATA (Modal Predictors): '' @ s1)"
      by (simp only: folder_marker_moji_def append.assoc)
    then have "content = take j content @ mojibake_microscope @
        ('' FOLDER_ANALYSIS_DATA (Modal Predictors): '' @ s1)"
      by (metis append_take_drop_id)
    then have "str_contains mojibake_microscope content"
      unfolding str_contains_iff by blast
    with assms show False by simp
  qed
  then show ?thesis
    by (simp add: extract_complete_folder_data_def findall_no_match)
qed

section \<open>Witnesses\<close>

theorem folder_record_values_witness:
  "let row = [(''TestRun#'', VInt 1), (''timestamp'', VInt 0), (''totalFiles'', VInt 5),
      (''duplicateCandidateCount'', VInt 0), (''duplicateCandidatePercent'', VInt 0),
      (''uniqueFilesSizeMB'', VInt 0), (''duplicateCandidatesSizeMB'', VInt 0),
      (''totalSizeMB'', VInt 0), (''totalDirectoryCount'', VInt 0),
      (''maxDirectoryDepth'', VInt 0), (''uniqueFilesTotal'', VInt 0),
      (''avgDirectoryDepth'', VInt 0)]
   in folder_record 1 ''totalFiles: 5'' = Some row \<and>
      map fst row = ''TestRun#'' # folder_columns \<and>
      (\<forall>(f, k) \<in> set folder_fields.
         dget row f = (case search (field_re f k) ''totalFiles: 5'' of
                         None \<Rightarrow> Some (VInt 0) | Some g \<Rightarrow> field_value k g))"
  using folder_record_values [OF folder_demo_record] folder_demo_record
  by (simp only: Let_def) simp

theorem folder_v1_partition_witness:
  "let row = [(''TestRun#'', VInt 1), (''avgDirectoryDepth'', VFloat 1),
      (''avgFilenameLength'', VInt 25), (''identicalSizeFiles'', VInt 2),
      (''largestFileSizesMB'', VFloat 0), (''mainFolderFiles'', VInt 3),
      (''mainFolderSizeMB'', VFloat 0), (''maxDirectoryDepth'', VInt 1),
      (''subfolderFiles'', VInt 0), (''timestamp'', VInt 0), (''totalFiles'', VInt 5),
      (''totalSizeMB'', VInt 0), (''uniqueFilesMainFolder'', VInt 3),
      (''uniqueFilesTotal'', VInt 3), (''zeroByteFiles'', VInt 0)]
   in folder_record_v1 1 ''totalFiles: 5, mainFolderFiles: 3'' = Some row \<and>
      (\<exists>tf mf sf u i.
        dget row ''totalFiles'' = Some (VInt tf) \<and> dget row ''mainFolderFiles'' = Some (VInt mf) \<and>
        dget row ''subfolderFiles'' = Some (VInt sf) \<and>
        dget row ''uniqueFilesTotal'' = Some (VInt u) \<and> dget row ''identicalSizeFiles'' = Some (VInt i) \<and>
        u = min tf (mf + sf) \<and> u + i = tf \<and> 0 \<le> i)"
  using folder_v1_partition [OF folder_v1_demo_record] folder_v1_demo_record
  by (simp only: Let_def)

theorem complete_parser_misses_utf8_marker_witness:
  "\<not> str_contains mojibake_microscope (''log '' @ folder_marker @ ''{totalFiles: 5}'') \<and>
   extract_complete_folder_data (''log '' @ folder_marker @ ''{totalFiles: 5}'') = Some []"
proof -
  have h: "\<not> str_contains mojibake_microscope (''log '' @ folder_marker @ ''{totalFiles: 5}'')"
    by (simp add: mojibake_microscope_def folder_marker_def microscope_def)
  show ?thesis using h complete_parser_misses_utf8_marker [OF h] by simp
qed

end
