(* ===== verification/Floats.thy ===== *)
theory Floats
  imports Prelude "HOL-Library.Product_Lexorder"
begin

text \<open>
  The floating-point values of pandas and numpy as the analysis scripts use them: exact
  rationals for the finite values (IEEE rounding is not modelled), the two infinities,
  and \<open>NaN\<close>, which stands for a missing table cell as well as for an undefined result.
  Arithmetic follows IEEE 754 on these values (division by zero gives an infinity or
  \<open>NaN\<close> and never raises, as for numpy scalars); comparisons with \<open>NaN\<close> are false.
  The statistics of a pandas \<open>Series\<close> skip \<open>NaN\<close>; those of numpy on a Python list
  do not.
\<close>

section \<open>Values and arithmetic\<close>

datatype pyfloat = Fin rat | PInf | NInf | NaN

text \<open>\<open>c / t\<close> of two finite values: division by zero gives \<open>inf\<close>, \<open>-inf\<close> or \<open>NaN\<close>.\<close>

definition fdiv :: "rat \<Rightarrow> rat \<Rightarrow> pyfloat" where
  "fdiv c t = (if t \<noteq> 0 then Fin (c / t) else if 0 < c then PInf else if c < 0 then NInf else NaN)"

fun fadd :: "pyfloat \<Rightarrow> pyfloat \<Rightarrow> pyfloat" where
  "fadd (Fin a) (Fin b) = Fin (a + b)"
| "fadd NaN y = NaN"
| "fadd x NaN = NaN"
| "fadd PInf NInf = NaN"
| "fadd NInf PInf = NaN"
| "fadd PInf y = PInf"
| "fadd x PInf = PInf"
| "fadd NInf y = NInf"
| "fadd x NInf = NInf"

fun fneg :: "pyfloat \<Rightarrow> pyfloat" where
  "fneg (Fin a) = Fin (- a)"
| "fneg PInf = NInf"
| "fneg NInf = PInf"
| "fneg NaN = NaN"

definition fsub :: "pyfloat \<Rightarrow> pyfloat \<Rightarrow> pyfloat" where
  "fsub x y = fadd x (fneg y)"

text \<open>The sign of a value: \<open>1\<close>, \<open>-1\<close>, \<open>0\<close>, or none for \<open>NaN\<close>.\<close>

fun fsgn :: "pyfloat \<Rightarrow> int option" where
  "fsgn (Fin a) = Some (if 0 < a then 1 else if a < 0 then -1 else 0)"
| "fsgn PInf = Some 1"
| "fsgn NInf = Some (-1)"
| "fsgn NaN = None"

definition inf_of_sign :: "int \<Rightarrow> pyfloat" where
  "inf_of_sign s = (if 0 < s then PInf else if s < 0 then NInf else NaN)"

fun fmul :: "pyfloat \<Rightarrow> pyfloat \<Rightarrow> pyfloat" where
  "fmul (Fin a) (Fin b) = Fin (a * b)"
| "fmul x y =
     (case (fsgn x, fsgn y) of (Some s, Some t) \<Rightarrow> inf_of_sign (s * t) | _ \<Rightarrow> NaN)"

fun fdivf :: "pyfloat \<Rightarrow> pyfloat \<Rightarrow> pyfloat" where
  "fdivf (Fin a) (Fin b) = fdiv a b"
| "fdivf (Fin a) PInf = Fin 0"
| "fdivf (Fin a) NInf = Fin 0"
| "fdivf x (Fin b) =
     (case fsgn x of Some s \<Rightarrow> inf_of_sign (if b < 0 then - s else s) | None \<Rightarrow> NaN)"
| "fdivf x y = NaN"

fun fabs :: "pyfloat \<Rightarrow> pyfloat" where
  "fabs (Fin a) = Fin \<bar>a\<bar>"
| "fabs PInf = PInf"
| "fabs NInf = PInf"
| "fabs NaN = NaN"

text \<open>Multiplication by a finite constant.\<close>

definition fscale :: "pyfloat \<Rightarrow> rat \<Rightarrow> pyfloat" where
  "fscale x k = fmul x (Fin k)"

text \<open>\<open>x >= c\<close> and \<open>x > c\<close> for a finite \<open>c\<close>: false for \<open>NaN\<close>.\<close>

fun fge :: "pyfloat \<Rightarrow> rat \<Rightarrow> bool" where
  "fge (Fin a) c = (c \<le> a)"
| "fge PInf c = True"
| "fge NInf c = False"
| "fge NaN c = False"

fun fgt :: "pyfloat \<Rightarrow> rat \<Rightarrow> bool" where
  "fgt (Fin a) c = (c < a)"
| "fgt PInf c = True"
| "fgt NInf c = False"
| "fgt NaN c = False"

section \<open>Statistics\<close>

text \<open>The statistics of a list of finite values.\<close>

definition mean :: "rat list \<Rightarrow> rat" where
  "mean xs = sum_list xs / of_nat (length xs)"

text \<open>The middle of the sorted values, or the mean of the two middles.\<close>

definition median :: "rat list \<Rightarrow> rat" where
  "median xs =
     (let ys = sort xs; n = length ys in
      if odd n then ys ! (n div 2) else (ys ! (n div 2 - 1) + ys ! (n div 2)) / 2)"

text \<open>The order of the non-\<open>NaN\<close> values, as a sort key.\<close>

fun fkey :: "pyfloat \<Rightarrow> int \<times> rat" where
  "fkey NInf = (0, 0)"
| "fkey (Fin a) = (1, a)"
| "fkey PInf = (2, 0)"
| "fkey NaN = (3, 0)"

text \<open>
  \<open>Series.median()\<close>: the median of the values that are not \<open>NaN\<close>, \<open>NaN\<close> when there
  are none.
\<close>

definition series_median :: "pyfloat list \<Rightarrow> pyfloat" where
  "series_median xs =
     (let ys = sort_key fkey (filter (\<lambda>x. x \<noteq> NaN) xs); n = length ys in
      if n = 0 then NaN
      else if odd n then ys ! (n div 2)
      else fscale (fadd (ys ! (n div 2 - 1)) (ys ! (n div 2))) (1/2))"

text \<open>\<open>Series.mean()\<close>: the mean of the values that are not \<open>NaN\<close>.\<close>

definition series_mean :: "pyfloat list \<Rightarrow> pyfloat" where
  "series_mean xs =
     (let ys = filter (\<lambda>x. x \<noteq> NaN) xs in
      if ys = [] then NaN else fscale (foldl fadd (Fin 0) ys) (1 / of_nat (length ys)))"

text \<open>\<open>np.mean\<close> and \<open>np.median\<close> of a Python list: a \<open>NaN\<close> anywhere gives \<open>NaN\<close>.\<close>

definition np_mean :: "pyfloat list \<Rightarrow> pyfloat" where
  "np_mean xs = (if NaN \<in> set xs then NaN else series_mean xs)"

definition np_median :: "pyfloat list \<Rightarrow> pyfloat" where
  "np_median xs = (if NaN \<in> set xs then NaN else series_median xs)"

section \<open>Lemmas\<close>

lemma fscale_Fin [simp]: "fscale (Fin a) k = Fin (a * k)"
  by (simp add: fscale_def)

text \<open>\<open>NaN\<close> absorbs every operation.\<close>

lemma fmul_NaN [simp]: "fmul x NaN = NaN" "fmul NaN x = NaN"
  by (cases x; simp)+

lemma fadd_NaN [simp]: "fadd x NaN = NaN"
  by (cases x) simp_all

lemma fdivf_NaN [simp]: "fdivf x NaN = NaN" "fdivf NaN x = NaN"
  by (cases x; simp)+

lemma fsub_NaN [simp]: "fsub x NaN = NaN" "fsub NaN x = NaN"
  by (simp_all add: fsub_def)

lemma fscale_NaN [simp]: "fscale NaN k = NaN"
  by (simp add: fscale_def)

lemma fabs_fscale: "0 < k \<Longrightarrow> fabs (fscale x k) = fscale (fabs x) k"
  by (cases x) (simp_all add: fscale_def abs_mult inf_of_sign_def)

text \<open>Dividing the magnitude by a non-negative value is taking the magnitude of the quotient.\<close>

lemma fdivf_fabs: "fge a 0 \<Longrightarrow> fdivf (fabs e) a = fabs (fdivf e a)"
  by (cases a; cases e) (auto simp: fdiv_def inf_of_sign_def abs_div)

lemma median_replicate: "0 < n \<Longrightarrow> median (replicate n c) = c"
  by (auto simp: median_def Let_def nth_replicate)

lemma sort_key_fkey_Fin: "sort_key fkey (map Fin xs) = map Fin (sort xs)"
proof (induction xs)
  case Nil
  then show ?case by simp
next
  case (Cons x xs)
  have "insort_key fkey (Fin x) (map Fin ys) = map Fin (insort x ys)" for ys
    by (induction ys) auto
  with Cons show ?case by simp
qed

text \<open>On finite values the pandas median is the median.\<close>

lemma series_median_Fin:
  assumes "xs \<noteq> []"
  shows "series_median (map Fin xs) = Fin (median xs)"
proof -
  define n where "n = length xs"
  have n: "0 < n" "length (sort xs) = n" using assms by (simp_all add: n_def)
  have "filter (\<lambda>x. x \<noteq> NaN) (map Fin xs) = map Fin xs" by (induction xs) auto
  then have ys: "sort_key fkey (filter (\<lambda>x. x \<noteq> NaN) (map Fin xs)) = map Fin (sort xs)"
    by (simp add: sort_key_fkey_Fin)
  have lt: "n div 2 < n" "n div 2 - 1 < n" using n by auto
  show ?thesis
    using n lt unfolding series_median_def median_def Let_def ys
    by (simp add: n_def [symmetric] field_simps)
qed

lemma series_median_replicate: "0 < n \<Longrightarrow> series_median (replicate n (Fin c)) = Fin c"
  using series_median_Fin [of "replicate n c"] by (simp add: median_replicate)

lemma series_median_all_NaN: "\<forall>x \<in> set xs. x = NaN \<Longrightarrow> series_median xs = NaN"
  by (simp add: series_median_def Let_def filter_empty_conv)

end
