(* ===== verification/Phases.thy ===== *)
theory Phases
  imports Floats
begin

text \<open>
  The processing-phase analysis of \<open>src/analyze_processing_phases.py\<close>: the phase
  durations computed from each row of the raw timing table
  (\<open>calculate_phase_durations\<close>), the statistics of each phase over the runs where it
  is positive (\<open>analyze_phase_statistics\<close>), and the selection of the phases that
  account for 90\% of the processing time (\<open>identify_major_phases\<close>).

  A row of the pandas table read from the CSV is a function from column names to
  \<open>rat option\<close>, \<open>None\<close> being a missing (\<open>NaN\<close>) cell. Python floats are exact
  rationals, except where a division by zero gives an infinity or \<open>NaN\<close>
  (\<open>pyfloat\<close> of theory \<open>Floats\<close>). The standard deviation is the square root of the sample variance;
  the model keeps the variance.
\<close>

section \<open>Phase durations of one run\<close>

type_synonym timing_csv_row = "string \<Rightarrow> rat option"

record durations =
  dur_test_run :: "rat option"
  dur_total :: rat
  dur_dedup :: rat
  dur_hash :: rat
  dur_ui :: rat
  dur_chunk1 :: rat
  dur_chunk2 :: rat
  dur_dom :: rat

text \<open>\<open>b - a\<close> when both cells are present, else the next alternative.\<close>

definition cell_span :: "timing_csv_row \<Rightarrow> string \<Rightarrow> string \<Rightarrow> rat option" where
  "cell_span row a b = (case (row a, row b) of (Some x, Some y) \<Rightarrow> Some (y - x) | _ \<Rightarrow> None)"

definition phase_durations :: "timing_csv_row \<Rightarrow> durations" where
  "phase_durations row =
     \<lparr>dur_test_run = row ''Test Run #'',
      dur_total = (case row ''ALL_FILES_DISPLAYED'' of Some v \<Rightarrow> v | None \<Rightarrow> 0),
      dur_dedup = (case cell_span row ''DEDUPLICATION_START'' ''DEDUP_LOGIC_COMPLETE'' of
                     Some d \<Rightarrow> d | None \<Rightarrow> 0),
      dur_hash = (case cell_span row ''SIZE_ANALYSIS_COMPLETE'' ''HASH_CALCULATION_COMPLETE'' of
                    Some d \<Rightarrow> d
                  | None \<Rightarrow> (case cell_span row ''DEDUPLICATION_START'' ''HASH_CALCULATION_COMPLETE'' of
                               Some d \<Rightarrow> d | None \<Rightarrow> 0)),
      dur_ui = (case cell_span row ''UI_UPDATE_START'' ''ALL_FILES_DISPLAYED'' of
                  Some d \<Rightarrow> d | None \<Rightarrow> 0),
      dur_chunk1 = (case cell_span row ''CHUNK1_START'' ''CHUNK1_COMPLETE'' of
                      Some d \<Rightarrow> d | None \<Rightarrow> 0),
      dur_chunk2 = (case cell_span row ''CHUNK2_START'' ''CHUNK2_COMPLETE'' of
                      Some d \<Rightarrow> d | None \<Rightarrow> 0),
      dur_dom = (case cell_span row ''CHUNK2_START'' ''DOM_RENDER_COMPLETE'' of
                   Some d \<Rightarrow> d
                 | None \<Rightarrow> (case cell_span row ''CHUNK1_COMPLETE'' ''DOM_RENDER_COMPLETE'' of
                              Some d \<Rightarrow> d | None \<Rightarrow> 0))\<rparr>"

definition calculate_phase_durations :: "timing_csv_row list \<Rightarrow> durations list" where
  "calculate_phase_durations rows = map phase_durations rows"

text \<open>
  The numeric columns of the durations table after \<open>Test Run\<close> is excluded, in the
  order of the dictionary that built each row.
\<close>

definition phase_columns :: "(string \<times> (durations \<Rightarrow> rat)) list" where
  "phase_columns =
     [(''Total Time'', dur_total), (''Deduplication Phase'', dur_dedup),
      (''Hash Calculation'', dur_hash), (''UI Update Phase'', dur_ui),
      (''Chunk1 Processing'', dur_chunk1), (''Chunk2 Processing'', dur_chunk2),
      (''DOM Render Time'', dur_dom)]"

section \<open>Statistics of a phase\<close>

record phase_stat =
  phase :: string
  cnt :: nat
  min_ms :: rat
  max_ms :: rat
  avg_ms :: rat
  median_ms :: rat
  var_ms :: "rat option"
  total_ms :: rat

text \<open>\<open>Series.std\<close> squared: the sample variance, \<open>NaN\<close> (\<open>None\<close>) for a single value.\<close>

definition sample_var :: "rat list \<Rightarrow> rat option" where
  "sample_var xs =
     (if length xs < 2 then None
      else Some (sum_list (map (\<lambda>x. (x - mean xs)\<^sup>2) xs) / of_nat (length xs - 1)))"

definition phase_statistics :: "durations list \<Rightarrow> string \<times> (durations \<Rightarrow> rat) \<Rightarrow> phase_stat" where
  "phase_statistics ds col =
     (case col of (name, get) \<Rightarrow>
        let vs = filter (\<lambda>v. 0 < v) (map get ds) in
        if vs \<noteq> [] then
          \<lparr>phase = name, cnt = length vs, min_ms = Min (set vs), max_ms = Max (set vs),
           avg_ms = mean vs, median_ms = median vs, var_ms = sample_var vs,
           total_ms = sum_list vs\<rparr>
        else
          \<lparr>phase = name, cnt = 0, min_ms = 0, max_ms = 0, avg_ms = 0, median_ms = 0,
           var_ms = Some 0, total_ms = 0\<rparr>)"

definition analyze_phase_statistics :: "durations list \<Rightarrow> phase_stat list" where
  "analyze_phase_statistics ds = map (phase_statistics ds) phase_columns"

section \<open>The phases that account for 90\% of the time\<close>

definition pct_of_total :: "rat \<Rightarrow> phase_stat \<Rightarrow> pyfloat" where
  "pct_of_total tt s = fscale (fdiv (total_ms s) tt) 100"

text \<open>
  \<open>sort_values(..., ascending=False)\<close>, by decreasing total contribution. pandas'
  default sort is not stable; the model keeps phases of equal contribution in table
  order, and no property below depends on the order of equal contributions.
\<close>

definition sort_by_contribution :: "phase_stat list \<Rightarrow> phase_stat list" where
  "sort_by_contribution ss = sort_key (\<lambda>s. - total_ms s) ss"

text \<open>The loop that accumulates percentages and stops once 90 is reached.\<close>

fun take_until_90 :: "rat \<Rightarrow> pyfloat \<Rightarrow> phase_stat list \<Rightarrow> string list" where
  "take_until_90 tt cum [] = []"
| "take_until_90 tt cum (s # ss) =
     (let cum' = fadd cum (pct_of_total tt s) in
      if fge cum' 90 then [phase s] else phase s # take_until_90 tt cum' ss)"

text \<open>The returned table carries the new column \<open>Percentage of Total\<close>.\<close>

definition identify_major_phases ::
  "phase_stat list \<Rightarrow> durations list \<Rightarrow> (phase_stat \<times> pyfloat) list \<times> string list" where
  "identify_major_phases stats ds =
     (let total_time = sum_list (map dur_total ds);
          sorted = sort_by_contribution stats in
      (map (\<lambda>s. (s, pct_of_total total_time s)) sorted, take_until_90 total_time (Fin 0) sorted))"

section \<open>The order of the events\<close>

text \<open>
  The list \<open>phases\<close> at the top of \<open>calculate_phase_durations\<close> names the events in
  the order the application emits them (the function does not use it otherwise). A row
  is in phase order when its present timestamps, read in that order, never decrease.
\<close>

definition phase_sequence :: "(string \<times> string) list" where
  "phase_sequence =
     [(''DEDUPLICATION_START'', ''Start of deduplication process''),
      (''WORKER_SEND'', ''Send files to Web Worker''),
      (''SIZE_ANALYSIS_COMPLETE'', ''File size analysis''),
      (''HASH_CALCULATION_COMPLETE'', ''SHA-256 hash generation''),
      (''DEDUP_LOGIC_START'', ''Start deduplication logic''),
      (''DEDUP_LOGIC_COMPLETE'', ''Deduplication logic''),
      (''WORKER_COMPLETE'', ''Web Worker processing''),
      (''RESULT_MAPPING_COMPLETE'', ''Result mapping''),
      (''UI_UPDATE_START'', ''UI update start''),
      (''CHUNK1_START'', ''First UI chunk start''),
      (''CHUNK1_COMPLETE'', ''First UI chunk''),
      (''CHUNK2_START'', ''Second UI chunk start''),
      (''DOM_RENDER_COMPLETE'', ''DOM rendering''),
      (''CHUNK2_COMPLETE'', ''Second UI chunk''),
      (''ALL_FILES_DISPLAYED'', ''Final completion'')]"

definition row_in_phase_order :: "timing_csv_row \<Rightarrow> bool" where
  "row_in_phase_order row \<longleftrightarrow> sorted (List.map_filter (\<lambda>(e, _). row e) phase_sequence)"

text \<open>
  The running percentage after the first \<open>k\<close> phases of the sorted table, starting
  from \<open>c\<close>.
\<close>

definition cum_pct :: "rat \<Rightarrow> pyfloat \<Rightarrow> phase_stat list \<Rightarrow> nat \<Rightarrow> pyfloat" where
  "cum_pct tt c ss k = foldl fadd c (map (pct_of_total tt) (take k ss))"

section \<open>Sample data\<close>

text \<open>One run with deduplication, UI update and completion timestamps.\<close>

definition demo_row :: timing_csv_row where
  "demo_row c =
     (if c = ''Test Run #'' then Some 1 else if c = ''DEDUPLICATION_START'' then Some 10
      else if c = ''DEDUP_LOGIC_COMPLETE'' then Some 400 else if c = ''UI_UPDATE_START'' then Some 500
      else if c = ''ALL_FILES_DISPLAYED'' then Some 1000 else None)"

section \<open>Lemmas\<close>

lemma mean_bounds:
  assumes "xs \<noteq> []"
  shows "Min (set xs) \<le> mean xs \<and> mean xs \<le> Max (set xs)"
proof -
  have n: "0 < (of_nat (length xs) :: rat)" using assms by simp
  have "sum_list (map (\<lambda>_. Min (set xs)) xs) \<le> sum_list (map id xs)"
    by (rule sum_list_mono) (simp add: assms)
  then have lo: "of_nat (length xs) * Min (set xs) \<le> sum_list xs"
    by (simp add: sum_list_triv)
  have "sum_list (map id xs) \<le> sum_list (map (\<lambda>_. Max (set xs)) xs)"
    by (rule sum_list_mono) (simp add: assms)
  then have hi: "sum_list xs \<le> of_nat (length xs) * Max (set xs)"
    by (simp add: sum_list_triv)
  show ?thesis
    using lo hi n by (simp add: mean_def pos_le_divide_eq pos_divide_le_eq mult.commute)
qed

lemma sorted_elem_bounds:
  assumes "i < length xs"
  shows "Min (set xs) \<le> sort xs ! i \<and> sort xs ! i \<le> Max (set xs)"
proof -
  have "sort xs ! i \<in> set xs"
    using assms by (metis length_sort nth_mem set_sort)
  then show ?thesis by simp
qed

lemma median_bounds:
  assumes "xs \<noteq> []"
  shows "Min (set xs) \<le> median xs \<and> median xs \<le> Max (set xs)"
proof (cases "odd (length xs)")
  case True
  have "length xs div 2 < length xs" using assms by simp
  with True show ?thesis by (simp add: median_def Let_def sorted_elem_bounds)
next
  case False
  moreover have "length xs \<noteq> 0" using assms by simp
  ultimately have "2 \<le> length xs" by presburger
  then have "length xs div 2 - 1 < length xs" "length xs div 2 < length xs" by auto
  from this [THEN sorted_elem_bounds] False show ?thesis
    by (simp add: median_def Let_def field_simps)
qed

lemma sorted_map_filter_nth:
  "sorted (List.map_filter f xs) \<Longrightarrow> i < j \<Longrightarrow> j < length xs \<Longrightarrow>
   f (xs ! i) = Some a \<Longrightarrow> f (xs ! j) = Some b \<Longrightarrow> a \<le> b"
proof (induction xs arbitrary: i j)
  case Nil
  then show ?case by simp
next
  case (Cons x xs)
  have tl: "sorted (List.map_filter f xs)"
    using Cons.prems(1) by (cases "f x") (auto simp: map_filter_simps)
  show ?case
  proof (cases i)
    case 0
    then have fx: "f x = Some a" using Cons.prems by simp
    obtain j' where j: "j = Suc j'" using Cons.prems(2) 0 by (cases j) auto
    have "b \<in> set (List.map_filter f xs)"
      using Cons.prems(3,5) j by (force simp: map_filter_def)
    then show ?thesis using Cons.prems(1) fx by (simp add: map_filter_simps)
  next
    case (Suc i')
    obtain j' where j: "j = Suc j'" using Cons.prems(2) Suc by (cases j) auto
    show ?thesis using Cons.IH [OF tl, of i' j'] Cons.prems Suc j by simp
  qed
qed

lemma span_nonneg:
  assumes "row_in_phase_order row" "i < j" "j < length phase_sequence"
    and "fst (phase_sequence ! i) = a" "fst (phase_sequence ! j) = b"
    and "cell_span row a b = Some d"
  shows "0 \<le> d"
proof -
  obtain x y where "row a = Some x" "row b = Some y" "d = y - x"
    using assms(6) by (auto simp: cell_span_def split: option.splits)
  moreover have "(\<lambda>(e, _). row e) (phase_sequence ! i) = row a"
    "(\<lambda>(e, _). row e) (phase_sequence ! j) = row b"
    using assms(4,5) by (auto split: prod.split)
  ultimately show ?thesis
    using sorted_map_filter_nth [OF assms(1) [unfolded row_in_phase_order_def] assms(2,3)] by simp
qed

lemma total_ms_phase_statistics:
  "total_ms (phase_statistics ds (name, get)) = sum_list (filter (\<lambda>v. 0 < v) (map get ds))"
  by (simp add: phase_statistics_def Let_def)

lemma phase_phase_statistics [simp]: "phase (phase_statistics ds (name, get)) = name"
  by (simp add: phase_statistics_def Let_def)

lemma sum_list_filter_pos:
  "\<forall>x \<in> set xs. (0::rat) \<le> x \<Longrightarrow> sum_list (filter (\<lambda>v. 0 < v) xs) = sum_list xs"
  by (induction xs) auto

lemma sort_key_strict_min:
  "\<forall>y \<in> set ys. f x < f y \<Longrightarrow> sort_key f (x # ys) = x # sort_key f ys"
  by (simp add: insort_is_Cons less_imp_le)

lemma cum_pct_Cons: "cum_pct tt c (s # ss) (Suc k) = cum_pct tt (fadd c (pct_of_total tt s)) ss k"
  by (simp add: cum_pct_def)

lemma demo_durations:
  "calculate_phase_durations [demo_row] =
     [\<lparr>dur_test_run = Some 1, dur_total = 1000, dur_dedup = 390, dur_hash = 0, dur_ui = 500,
       dur_chunk1 = 0, dur_chunk2 = 0, dur_dom = 0\<rparr>]"
  by (simp add: calculate_phase_durations_def phase_durations_def cell_span_def demo_row_def)

section \<open>Properties\<close>

text \<open>
  C14: every phase that was positive in some run has statistics with
  \<open>0 < min <= median <= max\<close>, \<open>min <= average <= max\<close>, and total
  contribution equal to average times count.
\<close>

theorem phase_statistics_bounds:
  assumes "s \<in> set (analyze_phase_statistics ds)" "0 < cnt s"
  shows "0 < min_ms s \<and> min_ms s \<le> median_ms s \<and> median_ms s \<le> max_ms s \<and>
    min_ms s \<le> avg_ms s \<and> avg_ms s \<le> max_ms s \<and> total_ms s = avg_ms s * of_nat (cnt s)"
proof -
  obtain name get where col: "(name, get) \<in> set phase_columns" and s: "s = phase_statistics ds (name, get)"
    using assms(1) by (auto simp: analyze_phase_statistics_def)
  define vs where "vs = filter (\<lambda>v. 0 < v) (map get ds)"
  have ne: "vs \<noteq> []" using assms(2) s by (auto simp: phase_statistics_def vs_def Let_def split: if_splits)
  then have st: "s = \<lparr>phase = name, cnt = length vs, min_ms = Min (set vs), max_ms = Max (set vs),
           avg_ms = mean vs, median_ms = median vs, var_ms = sample_var vs,
           total_ms = sum_list vs\<rparr>"
    using s by (simp add: phase_statistics_def vs_def Let_def)
  have pos: "0 < Min (set vs)"
    using ne by (subst Min_gr_iff) (auto simp: vs_def filter_empty_conv)
  show ?thesis
    using st pos mean_bounds [OF ne] median_bounds [OF ne] ne
    by (simp add: mean_def)
qed

text \<open>
  C15: when a row's timestamps follow the order of the \<open>phases\<close> list, none of the
  phase durations \<open>calculate_phase_durations\<close> computes (with its fallbacks) is negative.
\<close>

theorem phase_durations_nonneg:
  assumes "row_in_phase_order row"
  shows "0 \<le> dur_dedup (phase_durations row) \<and> 0 \<le> dur_hash (phase_durations row) \<and>
    0 \<le> dur_ui (phase_durations row) \<and> 0 \<le> dur_chunk1 (phase_durations row) \<and>
    0 \<le> dur_chunk2 (phase_durations row) \<and> 0 \<le> dur_dom (phase_durations row)"
proof -
  have ev: "map fst phase_sequence =
     [''DEDUPLICATION_START'', ''WORKER_SEND'', ''SIZE_ANALYSIS_COMPLETE'',
      ''HASH_CALCULATION_COMPLETE'', ''DEDUP_LOGIC_START'', ''DEDUP_LOGIC_COMPLETE'',
      ''WORKER_COMPLETE'', ''RESULT_MAPPING_COMPLETE'', ''UI_UPDATE_START'', ''CHUNK1_START'',
      ''CHUNK1_COMPLETE'', ''CHUNK2_START'', ''DOM_RENDER_COMPLETE'', ''CHUNK2_COMPLETE'',
      ''ALL_FILES_DISPLAYED'']"
    by (simp add: phase_sequence_def)
  have len: "length phase_sequence = 15" by (simp add: phase_sequence_def)
  have nn: "0 \<le> d" if "cell_span row (map fst phase_sequence ! i) (map fst phase_sequence ! j) = Some d"
    "i < j" "j < 15" for i j d
  proof -
    have "fst (phase_sequence ! i) = map fst phase_sequence ! i"
      "fst (phase_sequence ! j) = map fst phase_sequence ! j"
      using that(2,3) len by simp_all
    from span_nonneg [OF assms that(2) _ this that(1)] that(3) len show ?thesis by simp
  qed
  have case_nn: "0 \<le> (case x of Some d \<Rightarrow> d | None \<Rightarrow> e)" if "\<forall>d. x = Some d \<longrightarrow> 0 \<le> d" "0 \<le> e"
    for x :: "rat option" and e
    using that by (cases x) auto
  have s05: "\<forall>d. cell_span row ''DEDUPLICATION_START'' ''DEDUP_LOGIC_COMPLETE'' = Some d \<longrightarrow> 0 \<le> d"
    using nn [of 0 5] by (simp add: ev)
  have s23: "\<forall>d. cell_span row ''SIZE_ANALYSIS_COMPLETE'' ''HASH_CALCULATION_COMPLETE'' = Some d \<longrightarrow> 0 \<le> d"
    using nn [of 2 3] by (simp add: ev)
  have s03: "\<forall>d. cell_span row ''DEDUPLICATION_START'' ''HASH_CALCULATION_COMPLETE'' = Some d \<longrightarrow> 0 \<le> d"
    using nn [of 0 3] by (simp add: ev)
  have s814: "\<forall>d. cell_span row ''UI_UPDATE_START'' ''ALL_FILES_DISPLAYED'' = Some d \<longrightarrow> 0 \<le> d"
    using nn [of 8 14] by (simp add: ev)
  have s910: "\<forall>d. cell_span row ''CHUNK1_START'' ''CHUNK1_COMPLETE'' = Some d \<longrightarrow> 0 \<le> d"
    using nn [of 9 10] by (simp add: ev)
  have s1113: "\<forall>d. cell_span row ''CHUNK2_START'' ''CHUNK2_COMPLETE'' = Some d \<longrightarrow> 0 \<le> d"
    using nn [of 11 13] by (simp add: ev)
  have s1112: "\<forall>d. cell_span row ''CHUNK2_START'' ''DOM_RENDER_COMPLETE'' = Some d \<longrightarrow> 0 \<le> d"
    using nn [of 11 12] by (simp add: ev)
  have s1012: "\<forall>d. cell_span row ''CHUNK1_COMPLETE'' ''DOM_RENDER_COMPLETE'' = Some d \<longrightarrow> 0 \<le> d"
    using nn [of 10 12] by (simp add: ev)
  show ?thesis
    unfolding phase_durations_def durations.simps
    by (intro conjI case_nn s05 s23 s03 s814 s910 s1113 s1112 s1012 order_refl)
qed

text \<open>
  C16: the list of major phases is the shortest non-empty prefix of the phases sorted
  by contribution whose cumulative percentage reaches 90, or all phases when no prefix
  does.
\<close>

theorem take_until_90_shortest_prefix:
  "\<exists>n. take_until_90 tt c ss = map phase (take n ss) \<and> n \<le> length ss \<and>
     (ss \<noteq> [] \<longrightarrow> 1 \<le> n) \<and>
     (\<forall>k. 1 \<le> k \<and> k < n \<longrightarrow> \<not> fge (cum_pct tt c ss k) 90) \<and>
     (n < length ss \<longrightarrow> fge (cum_pct tt c ss n) 90)"
proof (induction ss arbitrary: c)
  case Nil
  then show ?case by simp
next
  case (Cons s ss)
  define c' where "c' = fadd c (pct_of_total tt s)"
  show ?case
  proof (cases "fge c' 90")
    case True
    then show ?thesis
      by (intro exI [of _ 1]) (simp add: c'_def cum_pct_def Let_def)
  next
    case False
    obtain n where n: "take_until_90 tt c' ss = map phase (take n ss)" "n \<le> length ss"
      "ss \<noteq> [] \<longrightarrow> 1 \<le> n" "\<forall>k. 1 \<le> k \<and> k < n \<longrightarrow> \<not> fge (cum_pct tt c' ss k) 90"
      "n < length ss \<longrightarrow> fge (cum_pct tt c' ss n) 90"
      using Cons.IH [of c'] by blast
    have below: "\<not> fge (cum_pct tt c (s # ss) k) 90" if "1 \<le> k" "k < Suc n" for k
    proof (cases k)
      case 0
      then show ?thesis using that by simp
    next
      case (Suc k')
      then show ?thesis
        using n(4) that False by (cases "k' = 0") (auto simp: cum_pct_Cons c'_def cum_pct_def)
    qed
    have reach: "fge (cum_pct tt c (s # ss) (Suc n)) 90" if "Suc n < length (s # ss)"
      using n(5) that by (simp add: cum_pct_Cons c'_def)
    show ?thesis
      using False n(1,2) below reach
      by (intro exI [of _ "Suc n"]) (simp add: c'_def Let_def)
  qed
qed

text \<open>
  C17: because \<open>Total Time\<close> is itself one of the numeric columns, whenever it
  contributes more than every real phase (as when completion timestamps are
  non-negative and dominate the phase spans), \<open>identify_major_phases\<close> reports
  \<open>Total Time\<close> alone as the phases accounting for 90\% of processing time.
\<close>

theorem total_time_sole_major_phase:
  assumes nonneg: "\<forall>d \<in> set ds. 0 \<le> dur_total d"
    and pos: "0 < sum_list (map dur_total ds)"
    and others: "\<forall>(name, get) \<in> set (tl phase_columns).
       sum_list (filter (\<lambda>v. 0 < v) (map get ds)) < sum_list (map dur_total ds)"
  shows "snd (identify_major_phases (analyze_phase_statistics ds) ds) = [''Total Time'']"
proof -
  define T where "T = sum_list (map dur_total ds)"
  define s0 where "s0 = phase_statistics ds (''Total Time'', dur_total)"
  define rest where "rest = map (phase_statistics ds) (tl phase_columns)"
  have stats: "analyze_phase_statistics ds = s0 # rest"
    by (simp add: analyze_phase_statistics_def phase_columns_def s0_def rest_def)
  have s0T: "total_ms s0 = T"
    using nonneg by (simp add: s0_def T_def total_ms_phase_statistics sum_list_filter_pos)
  have "\<forall>s \<in> set rest. total_ms s < T"
    using others by (auto simp: rest_def T_def total_ms_phase_statistics)
  then have "\<forall>s \<in> set rest. - total_ms s0 < - total_ms s"
    using s0T by auto
  then have sorted: "sort_by_contribution (s0 # rest) = s0 # sort_by_contribution rest"
    unfolding sort_by_contribution_def by (rule sort_key_strict_min)
  have "pct_of_total T s0 = Fin 100"
    using pos s0T by (simp add: pct_of_total_def fdiv_def T_def)
  moreover have "phase s0 = ''Total Time''" by (simp add: s0_def)
  ultimately show ?thesis
    by (simp add: identify_major_phases_def stats sorted Let_def T_def [symmetric])
qed

section \<open>Witnesses\<close>

theorem phase_durations_nonneg_witness:
  "row_in_phase_order demo_row \<and>
   0 \<le> dur_dedup (phase_durations demo_row) \<and> 0 \<le> dur_hash (phase_durations demo_row) \<and>
   0 \<le> dur_ui (phase_durations demo_row) \<and> 0 \<le> dur_chunk1 (phase_durations demo_row) \<and>
   0 \<le> dur_chunk2 (phase_durations demo_row) \<and> 0 \<le> dur_dom (phase_durations demo_row)"
proof -
  have h: "row_in_phase_order demo_row"
    by (simp add: row_in_phase_order_def phase_sequence_def demo_row_def map_filter_simps)
  show ?thesis using h phase_durations_nonneg [OF h] by simp
qed

theorem phase_statistics_bounds_witness:
  "let ds = calculate_phase_durations [demo_row]; s = phase_statistics ds (''Total Time'', dur_total) in
   s \<in> set (analyze_phase_statistics ds) \<and> 0 < cnt s \<and>
   0 < min_ms s \<and> min_ms s \<le> median_ms s \<and> median_ms s \<le> max_ms s \<and>
   min_ms s \<le> avg_ms s \<and> avg_ms s \<le> max_ms s \<and> total_ms s = avg_ms s * of_nat (cnt s)"
proof -
  define ds where "ds = calculate_phase_durations [demo_row]"
  define s where "s = phase_statistics ds (''Total Time'', dur_total)"
  have h1: "s \<in> set (analyze_phase_statistics ds)"
    by (simp add: s_def analyze_phase_statistics_def phase_columns_def)
  have h2: "0 < cnt s"
    by (simp add: s_def ds_def demo_durations phase_statistics_def Let_def)
  show ?thesis
    using h1 h2 phase_statistics_bounds [OF h1 h2] by (simp add: Let_def ds_def [symmetric] s_def [symmetric])
qed

theorem total_time_sole_major_phase_witness:
  "let ds = calculate_phase_durations [demo_row] in
   (\<forall>d \<in> set ds. 0 \<le> dur_total d) \<and> 0 < sum_list (map dur_total ds) \<and>
   (\<forall>(name, get) \<in> set (tl phase_columns).
       sum_list (filter (\<lambda>v. 0 < v) (map get ds)) < sum_list (map dur_total ds)) \<and>
   snd (identify_major_phases (analyze_phase_statistics ds) ds) = [''Total Time'']"
proof -
  define ds where "ds = calculate_phase_durations [demo_row]"
  have h1: "\<forall>d \<in> set ds. 0 \<le> dur_total d" by (simp add: ds_def demo_durations)
  have h2: "0 < sum_list (map dur_total ds)" by (simp add: ds_def demo_durations)
  have h3: "\<forall>(name, get) \<in> set (tl phase_columns).
       sum_list (filter (\<lambda>v. 0 < v) (map get ds)) < sum_list (map dur_total ds)"
    by (simp add: ds_def demo_durations phase_columns_def)
  show ?thesis
    using h1 h2 h3 total_time_sole_major_phase [OF h1 h2 h3] by (simp add: Let_def ds_def [symmetric])
qed

theorem take_until_90_shortest_prefix_witness:
  "let ss = analyze_phase_statistics (calculate_phase_durations [demo_row]) in
   \<exists>n. take_until_90 1000 (Fin 0) ss = map phase (take n ss) \<and> n \<le> length ss \<and>
     (ss \<noteq> [] \<longrightarrow> 1 \<le> n) \<and>
     (\<forall>k. 1 \<le> k \<and> k < n \<longrightarrow> \<not> fge (cum_pct 1000 (Fin 0) ss k) 90) \<and>
     (n < length ss \<longrightarrow> fge (cum_pct 1000 (Fin 0) ss n) 90)"
  unfolding Let_def by (rule take_until_90_shortest_prefix)

end
