(* ===== verification/Access.thy ===== *)
theory Access
  imports Text_Scan "HOL-Library.Word"
begin

text \<open>
  The file-accessibility counters of \<open>src/\<close>: \<open>count_browser_accessible_files.py\<close>
  (\<open>is_browser_accessible\<close>, \<open>analyze_browser_accessibility\<close>),
  \<open>count_browser_files_fast.py\<close> (\<open>is_browser_accessible_fast\<close>,
  \<open>count_browser_files_fast\<close>), \<open>count_files_with_access.py\<close>
  (\<open>check_file_accessibility\<close>) and \<open>count_hidden_files.py\<close>
  (\<open>count_files_in_directory\<close>).

  The file system is an input: the files \<open>os.walk\<close> yields, in its order, each with
  what \<open>os.stat\<close> returns or raises and what opening it and reading one byte raises.
  Windows file attributes are a \<open>32 word\<close> (\<open>st_file_attributes\<close>), absent on other
  platforms. Errors are values of \<open>os_error\<close>, carrying the text \<open>str(e)\<close>.
\<close>

unbundle bit_operations_syntax

section \<open>Files as the scripts see them\<close>

text \<open>The attribute bits of the \<open>stat\<close> module.\<close>

definition FILE_ATTRIBUTE_HIDDEN :: "32 word" where "FILE_ATTRIBUTE_HIDDEN = 0x2"
definition FILE_ATTRIBUTE_SYSTEM :: "32 word" where "FILE_ATTRIBUTE_SYSTEM = 0x4"
definition FILE_ATTRIBUTE_TEMPORARY :: "32 word" where "FILE_ATTRIBUTE_TEMPORARY = 0x100"
definition FILE_ATTRIBUTE_REPARSE_POINT :: "32 word" where "FILE_ATTRIBUTE_REPARSE_POINT = 0x400"
definition FILE_ATTRIBUTE_OFFLINE :: "32 word" where "FILE_ATTRIBUTE_OFFLINE = 0x1000"
definition FILE_ATTRIBUTE_RECALL_ON_DATA_ACCESS :: "32 word" where
  "FILE_ATTRIBUTE_RECALL_ON_DATA_ACCESS = 0x400000"

text \<open>
  \<open>hasattr(stat, 'FILE_ATTRIBUTE_RECALL_ON_DATA_ACCESS')\<close>: the \<open>stat\<close> module of the
  standard library defines no such constant, so the guarded checks never run.
\<close>

definition stat_has_recall :: bool where
  "stat_has_recall = False"

text \<open>\<open>attrs & bit\<close> used as a condition.\<close>

definition has_attr :: "32 word \<Rightarrow> 32 word \<Rightarrow> bool" where
  "has_attr attrs flag \<longleftrightarrow> attrs AND flag \<noteq> 0"

datatype os_error = PermissionError string | FileNotFoundError string | OtherOSError string

fun err_str :: "os_error \<Rightarrow> string" where
  "err_str (PermissionError m) = m"
| "err_str (FileNotFoundError m) = m"
| "err_str (OtherOSError m) = m"

record stat_result =
  st_file_attributes :: "32 word option"

text \<open>
  A file found by \<open>os.walk\<close>: its path \<open>os.path.join(root, file)\<close>, its name
  \<open>file\<close> (the \<open>os.path.basename\<close> of the path), the outcome of \<open>os.stat\<close>, and the
  error, if any, of \<open>open(filepath, 'rb')\<close> followed by \<open>f.read(1)\<close>.
\<close>

record file_entry =
  fpath :: string
  fname :: string
  fstat :: "os_error + stat_result"
  fread :: "os_error option"

text \<open>
  \<open>str.lower()\<close>, as far as it matters for comparing with ASCII text: ASCII capitals
  become small letters, and the Kelvin sign U+212A, the one non-ASCII code point that
  lowers to an ASCII letter, becomes \<open>k\<close>. Other code points keep their bytes; their
  lower-case forms contain no ASCII letter that could complete an ASCII word the
  scripts look for.
\<close>

fun py_lower :: "string \<Rightarrow> string" where
  "py_lower [] = []"
| "py_lower (c # cs) =
     (if c = CHR 0xE2 \<and> take 2 cs = [CHR 0x84, CHR 0xAA] then CHR ''k'' # py_lower (drop 2 cs)
      else (if 65 \<le> (of_char c :: nat) \<and> (of_char c :: nat) \<le> 90
            then char_of (of_char c + (32 :: nat)) else c) # py_lower cs)"

section \<open>The full check\<close>

definition attr_reason :: "32 word \<Rightarrow> string option" where
  "attr_reason attrs =
     (if has_attr attrs FILE_ATTRIBUTE_HIDDEN then Some ''Hidden file''
      else if has_attr attrs FILE_ATTRIBUTE_SYSTEM then Some ''System file''
      else if has_attr attrs FILE_ATTRIBUTE_TEMPORARY then Some ''Temporary file''
      else if has_attr attrs FILE_ATTRIBUTE_OFFLINE then Some ''Offline/cloud placeholder''
      else if stat_has_recall \<and> has_attr attrs FILE_ATTRIBUTE_RECALL_ON_DATA_ACCESS
      then Some ''Cloud recall file''
      else None)"

definition metadata_names :: "string list" where
  "metadata_names = [''thumbs.db'', ''desktop.ini'', ''.ds_store'']"

text \<open>
  \<open>is_browser_accessible\<close>: an error of \<open>os.stat\<close> reaches the outer
  \<open>except Exception\<close>; the attribute checks, the name checks and the read check
  follow in the order of the source.
\<close>

definition is_browser_accessible :: "file_entry \<Rightarrow> bool \<times> string" where
  "is_browser_accessible e =
     (case fstat e of
        Inl err \<Rightarrow> (False, ''Stat error: '' @ err_str err)
      | Inr st \<Rightarrow>
          (case (case st_file_attributes st of None \<Rightarrow> None | Some a \<Rightarrow> attr_reason a) of
             Some r \<Rightarrow> (False, r)
           | None \<Rightarrow>
               if starts_with (fname e) ''.'' then (False, ''Dot file (Unix hidden)'')
               else if starts_with (fname e) ''~'' \<and> ends_with (fname e) ''.tmp''
               then (False, ''Temp file'')
               else if py_lower (fname e) \<in> set metadata_names then (False, ''System metadata file'')
               else (case fread e of
                       None \<Rightarrow> (True, ''Accessible'')
                     | Some (PermissionError m) \<Rightarrow> (False, ''Permission denied'')
                     | Some err \<Rightarrow> (False, ''File access error: '' @ err_str err))))"

text \<open>The \<open>if/elif\<close> chain that files an exclusion under one counter.\<close>

datatype exclusion = ExHidden | ExSystem | ExPermission | ExCloud | ExTemp | ExOther

definition exclusion_category :: "string \<Rightarrow> exclusion" where
  "exclusion_category reason =
     (let r = py_lower reason in
      if str_contains ''hidden'' r then ExHidden
      else if str_contains ''system'' r then ExSystem
      else if str_contains ''permission'' r then ExPermission
      else if str_contains ''cloud'' r \<or> str_contains ''offline'' r then ExCloud
      else if str_contains ''temp'' r then ExTemp
      else ExOther)"

record access_counts =
  total_files :: nat
  browser_accessible :: nat
  hidden_files :: nat
  system_files :: nat
  permission_denied :: nat
  cloud_files :: nat
  temp_files :: nat
  other_excluded :: nat
  exclusion_reasons :: "(string \<times> nat) list"
  excluded_examples :: "(string \<times> string) list"

definition access_counts_init :: access_counts where
  "access_counts_init =
     \<lparr>total_files = 0, browser_accessible = 0, hidden_files = 0, system_files = 0,
      permission_denied = 0, cloud_files = 0, temp_files = 0, other_excluded = 0,
      exclusion_reasons = [], excluded_examples = []\<rparr>"

definition bump_category :: "exclusion \<Rightarrow> access_counts \<Rightarrow> access_counts" where
  "bump_category x c =
     (case x of
        ExHidden \<Rightarrow> c\<lparr>hidden_files := Suc (hidden_files c)\<rparr>
      | ExSystem \<Rightarrow> c\<lparr>system_files := Suc (system_files c)\<rparr>
      | ExPermission \<Rightarrow> c\<lparr>permission_denied := Suc (permission_denied c)\<rparr>
      | ExCloud \<Rightarrow> c\<lparr>cloud_files := Suc (cloud_files c)\<rparr>
      | ExTemp \<Rightarrow> c\<lparr>temp_files := Suc (temp_files c)\<rparr>
      | ExOther \<Rightarrow> c\<lparr>other_excluded := Suc (other_excluded c)\<rparr>)"

text \<open>\<open>d[k] = d.get(k, 0) + 1\<close>.\<close>

definition count_in :: "(string \<times> nat) list \<Rightarrow> string \<Rightarrow> (string \<times> nat) list" where
  "count_in d k = dset d k (py_get (dget d) k 0 + 1)"

definition access_step :: "access_counts \<Rightarrow> file_entry \<Rightarrow> access_counts" where
  "access_step c e =
     (let c1 = c\<lparr>total_files := Suc (total_files c)\<rparr> in
      case is_browser_accessible e of
        (True, _) \<Rightarrow> c1\<lparr>browser_accessible := Suc (browser_accessible c1)\<rparr>
      | (False, reason) \<Rightarrow>
          let c2 = bump_category (exclusion_category reason) c1;
              c3 = c2\<lparr>exclusion_reasons := count_in (exclusion_reasons c2) reason\<rparr> in
          if length (excluded_examples c3) < 20
          then c3\<lparr>excluded_examples := excluded_examples c3 @ [(fpath e, reason)]\<rparr>
          else c3)"

definition analyze_browser_accessibility :: "file_entry list \<Rightarrow> access_counts" where
  "analyze_browser_accessibility files = foldl access_step access_counts_init files"

section \<open>Exception handlers\<close>

text \<open>
  The exception classes the scripts name, and Python's choice of an \<open>except\<close> clause:
  the first clause whose tuple holds the raised class or one of its base classes.
  \<open>FileNotFoundError\<close> and \<open>PermissionError\<close> are subclasses of \<open>OSError\<close>.
\<close>

datatype exc_class = C_OSError | C_FileNotFoundError | C_PermissionError

fun exc_class_of :: "os_error \<Rightarrow> exc_class" where
  "exc_class_of (PermissionError m) = C_PermissionError"
| "exc_class_of (FileNotFoundError m) = C_FileNotFoundError"
| "exc_class_of (OtherOSError m) = C_OSError"

fun is_subclass :: "exc_class \<Rightarrow> exc_class \<Rightarrow> bool" where
  "is_subclass C_OSError b = (b = C_OSError)"
| "is_subclass a b = (b = a \<or> b = C_OSError)"

text \<open>\<open>None\<close>: no clause matches and the exception propagates.\<close>

fun handle :: "(exc_class list \<times> (os_error \<Rightarrow> 'a)) list \<Rightarrow> os_error \<Rightarrow> 'a option" where
  "handle [] err = None"
| "handle ((cls, h) # hs) err =
     (if list_ex (is_subclass (exc_class_of err)) cls then Some (h err) else handle hs err)"

section \<open>The fast check\<close>

definition attr_reason_fast :: "32 word \<Rightarrow> string option" where
  "attr_reason_fast attrs =
     (if has_attr attrs FILE_ATTRIBUTE_HIDDEN then Some ''Hidden file (Windows)''
      else if has_attr attrs FILE_ATTRIBUTE_SYSTEM then Some ''System file (Windows)''
      else if has_attr attrs FILE_ATTRIBUTE_TEMPORARY then Some ''Temporary file''
      else if has_attr attrs FILE_ATTRIBUTE_OFFLINE then Some ''Cloud file (offline)''
      else if stat_has_recall \<and> has_attr attrs FILE_ATTRIBUTE_RECALL_ON_DATA_ACCESS
      then Some ''Cloud placeholder''
      else if has_attr attrs FILE_ATTRIBUTE_REPARSE_POINT then Some ''Reparse point (likely cloud)''
      else None)"

text \<open>
  The two handlers around \<open>os.stat\<close> in \<open>is_browser_accessible_fast\<close>:
  \<open>except (FileNotFoundError, OSError)\<close>, which keeps the first 50 code points of the
  message, and then \<open>except PermissionError\<close>.
\<close>

definition fast_stat_handlers :: "(exc_class list \<times> (os_error \<Rightarrow> bool \<times> string)) list" where
  "fast_stat_handlers =
     [([C_FileNotFoundError, C_OSError], \<lambda>err. (False, ''File not accessible: '' @ utf8_take 50 (err_str err))),
      ([C_PermissionError], \<lambda>err. (False, ''Permission denied''))]"

text \<open>
  \<open>is_browser_accessible_fast\<close>: the name checks come first; an error of \<open>os.stat\<close>
  goes to the first matching handler, or else to the outer \<open>except Exception\<close>, which
  keeps 30 code points.
\<close>

definition is_browser_accessible_fast :: "file_entry \<Rightarrow> bool \<times> string" where
  "is_browser_accessible_fast e =
     (if starts_with (fname e) ''.'' then (False, ''Hidden (dot file)'')
      else if py_lower (fname e) \<in> set metadata_names then (False, ''System metadata'')
      else if starts_with (fname e) ''~'' \<or> ends_with (fname e) ''.tmp'' then (False, ''Temp file'')
      else (case fstat e of
              Inl err \<Rightarrow> (case handle fast_stat_handlers err of
                            Some r \<Rightarrow> r
                          | None \<Rightarrow> (False, ''Error: '' @ utf8_take 30 (err_str err)))
            | Inr st \<Rightarrow>
                (case (case st_file_attributes st of None \<Rightarrow> None | Some a \<Rightarrow> attr_reason_fast a) of
                   Some r \<Rightarrow> (False, r)
                 | None \<Rightarrow> (True, ''Accessible''))))"

record fast_counts =
  f_total_files :: nat
  f_browser_accessible :: nat
  f_exclusions :: "(string \<times> nat) list"
  f_examples :: "(string \<times> string) list"

definition fast_counts_init :: fast_counts where
  "fast_counts_init = \<lparr>f_total_files = 0, f_browser_accessible = 0, f_exclusions = [], f_examples = []\<rparr>"

definition fast_step :: "fast_counts \<Rightarrow> file_entry \<Rightarrow> fast_counts" where
  "fast_step c e =
     (let c1 = c\<lparr>f_total_files := Suc (f_total_files c)\<rparr> in
      case is_browser_accessible_fast e of
        (True, _) \<Rightarrow> c1\<lparr>f_browser_accessible := Suc (f_browser_accessible c1)\<rparr>
      | (False, reason) \<Rightarrow>
          let c2 = c1\<lparr>f_exclusions := count_in (f_exclusions c1) reason\<rparr> in
          if length (f_examples c2) < 15
          then c2\<lparr>f_examples := f_examples c2 @ [(fpath e, reason)]\<rparr>
          else c2)"

definition count_browser_files_fast :: "file_entry list \<Rightarrow> fast_counts" where
  "count_browser_files_fast files = foldl fast_step fast_counts_init files"

section \<open>Reading every file\<close>

text \<open>\<open>check_file_accessibility\<close>: a \<open>PermissionError\<close> of the read is a permission
  error, any other \<open>OSError\<close> marks the file cloud-only.\<close>

record read_counts =
  r_total_files :: nat
  r_accessible_files :: nat
  r_cloud_only_files :: nat
  r_permission_errors :: nat
  r_cloud_files :: "(string \<times> string) list"
  r_error_files :: "(string \<times> string) list"

definition read_counts_init :: read_counts where
  "read_counts_init =
     \<lparr>r_total_files = 0, r_accessible_files = 0, r_cloud_only_files = 0, r_permission_errors = 0,
      r_cloud_files = [], r_error_files = []\<rparr>"

definition read_step :: "read_counts \<Rightarrow> file_entry \<Rightarrow> read_counts" where
  "read_step c e =
     (let c1 = c\<lparr>r_total_files := Suc (r_total_files c)\<rparr> in
      case fread e of
        None \<Rightarrow> c1\<lparr>r_accessible_files := Suc (r_accessible_files c1)\<rparr>
      | Some (PermissionError m) \<Rightarrow>
          c1\<lparr>r_permission_errors := Suc (r_permission_errors c1),
             r_error_files := r_error_files c1 @ [(fpath e, ''Permission denied'')]\<rparr>
      | Some err \<Rightarrow>
          c1\<lparr>r_cloud_only_files := Suc (r_cloud_only_files c1),
             r_cloud_files := r_cloud_files c1 @ [(fpath e, err_str err)]\<rparr>)"

definition check_file_accessibility :: "file_entry list \<Rightarrow> read_counts" where
  "check_file_accessibility files = foldl read_step read_counts_init files"

section \<open>Hidden and system files\<close>

text \<open>
  The helpers of \<open>count_hidden_files.py\<close> return \<open>os_error + bool\<close>: what they raise
  or return. Each catches \<open>OSError\<close> and \<open>AttributeError\<close> itself and answers
  \<open>False\<close>.
\<close>

definition is_hidden_windows :: "file_entry \<Rightarrow> os_error + bool" where
  "is_hidden_windows e =
     (case fstat e of
        Inl err \<Rightarrow> Inr False
      | Inr st \<Rightarrow> (case st_file_attributes st of
                    None \<Rightarrow> Inr False
                  | Some a \<Rightarrow> Inr (has_attr a FILE_ATTRIBUTE_HIDDEN)))"

definition is_hidden_unix :: "file_entry \<Rightarrow> os_error + bool" where
  "is_hidden_unix e = Inr (starts_with (fname e) ''.'')"

definition is_system_file_windows :: "file_entry \<Rightarrow> os_error + bool" where
  "is_system_file_windows e =
     (case fstat e of
        Inl err \<Rightarrow> Inr False
      | Inr st \<Rightarrow> (case st_file_attributes st of
                    None \<Rightarrow> Inr False
                  | Some a \<Rightarrow> Inr (has_attr a FILE_ATTRIBUTE_SYSTEM)))"

record hidden_counts =
  h_total_files :: nat
  h_hidden_files :: nat
  h_system_files :: nat
  h_visible_files :: nat
  h_errors :: nat
  h_error_files :: "(string \<times> string) list"

definition hidden_counts_init :: hidden_counts where
  "hidden_counts_init =
     \<lparr>h_total_files = 0, h_hidden_files = 0, h_system_files = 0, h_visible_files = 0, h_errors = 0,
      h_error_files = []\<rparr>"

text \<open>The loop body: an error of either helper is counted and recorded.\<close>

definition hidden_step :: "bool \<Rightarrow> hidden_counts \<Rightarrow> file_entry \<Rightarrow> hidden_counts" where
  "hidden_step is_windows c e =
     (let c1 = c\<lparr>h_total_files := Suc (h_total_files c)\<rparr>;
          on_error = (\<lambda>err. c1\<lparr>h_errors := Suc (h_errors c1),
                                 h_error_files := h_error_files c1 @ [(fpath e, err_str err)]\<rparr>) in
      case (if is_windows then is_hidden_windows e else is_hidden_unix e) of
        Inl err \<Rightarrow> on_error err
      | Inr is_hidden \<Rightarrow>
          (case (if is_windows then is_system_file_windows e else Inr False) of
             Inl err \<Rightarrow> on_error err
           | Inr is_system \<Rightarrow>
               let c2 = (if is_hidden then c1\<lparr>h_hidden_files := Suc (h_hidden_files c1)\<rparr> else c1);
                   c3 = (if is_system then c2\<lparr>h_system_files := Suc (h_system_files c2)\<rparr> else c2) in
               if \<not> is_hidden \<and> \<not> is_system then c3\<lparr>h_visible_files := Suc (h_visible_files c3)\<rparr>
               else c3))"

text \<open>The directory argument: missing, not a directory, or the files of its tree.\<close>

datatype dir_status = Missing | NotDir | IsDir "file_entry list"

datatype dir_error = DirNotFound string | NotADirectory string

definition count_files_in_directory ::
  "bool \<Rightarrow> string \<Rightarrow> dir_status \<Rightarrow> dir_error + hidden_counts" where
  "count_files_in_directory is_windows path d =
     (case d of
        Missing \<Rightarrow> Inl (DirNotFound (''Directory not found: '' @ path))
      | NotDir \<Rightarrow> Inl (NotADirectory (''Path is not a directory: '' @ path))
      | IsDir files \<Rightarrow> Inr (foldl (hidden_step is_windows) hidden_counts_init files))"

section \<open>Specification helpers\<close>

text \<open>The number of exclusions filed under the six counters.\<close>

definition cat_sum :: "access_counts \<Rightarrow> nat" where
  "cat_sum c = hidden_files c + system_files c + permission_denied c + cloud_files c + temp_files c +
     other_excluded c"

text \<open>The excluded files of a walk with their reasons, in order.\<close>

definition exclusions :: "file_entry list \<Rightarrow> (string \<times> string) list" where
  "exclusions files = map (\<lambda>e. (fpath e, snd (is_browser_accessible e)))
     (filter (\<lambda>e. \<not> fst (is_browser_accessible e)) files)"

text \<open>A file \<open>count_hidden_files.py\<close> counts as hidden or as a system file.\<close>

definition flagged :: "bool \<Rightarrow> file_entry \<Rightarrow> bool" where
  "flagged is_windows e =
     (if is_windows then is_hidden_windows e = Inr True \<or> is_system_file_windows e = Inr True
      else starts_with (fname e) ''.'')"

text \<open>A file whose \<open>os.stat\<close> fails with the message Windows gives for a missing path.\<close>

definition winerror_entry :: file_entry where
  "winerror_entry =
     \<lparr>fpath = ''C:/x'', fname = ''x'',
      fstat = Inl (FileNotFoundError ''[WinError 2] The system cannot find the file specified''),
      fread = None\<rparr>"

section \<open>Lemmas\<close>

lemma count_in_get: "py_get (dget (count_in d k)) r 0 = (if r = k then Suc (py_get (dget d) r 0) else py_get (dget d) r 0)"
  by (simp add: count_in_def dget_dset py_get_def)

lemma cat_sum_upd [simp]:
  "cat_sum (c\<lparr>total_files := x\<rparr>) = cat_sum c"
  "cat_sum (c\<lparr>browser_accessible := x\<rparr>) = cat_sum c"
  "cat_sum (c\<lparr>exclusion_reasons := r\<rparr>) = cat_sum c"
  "cat_sum (c\<lparr>excluded_examples := l\<rparr>) = cat_sum c"
  by (simp_all add: cat_sum_def)

lemma bump_category_fields [simp]:
  "cat_sum (bump_category x c) = Suc (cat_sum c)"
  "total_files (bump_category x c) = total_files c"
  "browser_accessible (bump_category x c) = browser_accessible c"
  "exclusion_reasons (bump_category x c) = exclusion_reasons c"
  "excluded_examples (bump_category x c) = excluded_examples c"
  by (cases x; simp add: bump_category_def cat_sum_def)+

lemma access_step_counts:
  "total_files (access_step c e) = Suc (total_files c)"
  "browser_accessible (access_step c e) + cat_sum (access_step c e) =
     Suc (browser_accessible c + cat_sum c)"
  "browser_accessible (access_step c e) =
     (if fst (is_browser_accessible e) then Suc (browser_accessible c) else browser_accessible c)"
  "py_get (dget (exclusion_reasons (access_step c e))) r 0 =
     (if is_browser_accessible e = (False, r) then Suc (py_get (dget (exclusion_reasons c)) r 0)
      else py_get (dget (exclusion_reasons c)) r 0)"
  by (auto simp: access_step_def Let_def count_in_get split: prod.split bool.split)

lemma access_step_examples:
  "excluded_examples c = take 20 xs \<Longrightarrow>
   excluded_examples (access_step c e) = take 20 (xs @ exclusions [e])"
  by (auto simp: access_step_def Let_def exclusions_def take_append split: prod.split bool.split)

lemma analyze_total: "total_files (foldl access_step c fs) = total_files c + length fs"
  by (induction fs arbitrary: c) (simp_all add: access_step_counts(1))

lemma analyze_sum:
  "browser_accessible (foldl access_step c fs) + cat_sum (foldl access_step c fs) =
     browser_accessible c + cat_sum c + length fs"
  by (induction fs arbitrary: c) (simp_all add: access_step_counts(2))

lemma analyze_accessible:
  "browser_accessible (foldl access_step c fs) =
     browser_accessible c + length (filter (\<lambda>e. fst (is_browser_accessible e)) fs)"
  by (induction fs arbitrary: c) (simp_all add: access_step_counts(3))

lemma analyze_reasons:
  "py_get (dget (exclusion_reasons (foldl access_step c fs))) r 0 =
     py_get (dget (exclusion_reasons c)) r 0 + length (filter (\<lambda>e. is_browser_accessible e = (False, r)) fs)"
  by (induction fs arbitrary: c) (simp_all add: access_step_counts(4))

lemma analyze_examples:
  "excluded_examples c = take 20 xs \<Longrightarrow>
   excluded_examples (foldl access_step c fs) = take 20 (xs @ exclusions fs)"
proof (induction fs arbitrary: c xs)
  case Nil
  then show ?case by (simp add: exclusions_def)
next
  case (Cons e fs)
  have "excluded_examples (access_step c e) = take 20 (xs @ exclusions [e])"
    using Cons.prems by (rule access_step_examples)
  from Cons.IH [OF this]
  have "excluded_examples (foldl access_step c (e # fs)) = take 20 ((xs @ exclusions [e]) @ exclusions fs)"
    by simp
  moreover have "exclusions (e # fs) = exclusions [e] @ exclusions fs"
    by (simp add: exclusions_def)
  ultimately show ?case by simp
qed

lemma str_contains_sep:
  assumes "c \<notin> set p"
  shows "str_contains p (A @ c # B) \<longleftrightarrow> str_contains p A \<or> str_contains p B"
proof
  assume "str_contains p (A @ c # B)"
  then obtain u v where eq: "A @ c # B = u @ p @ v" by (auto simp: str_contains_iff)
  have tA: "take (length A) (u @ p @ v) = A"
    using arg_cong [OF eq, of "take (length A)"] by simp
  have dA: "drop (length A) (u @ p @ v) = c # B"
    using arg_cong [OF eq, of "drop (length A)"] by simp
  show "str_contains p A \<or> str_contains p B"
  proof (cases "length u + length p \<le> length A")
    case True
    have "A = u @ p @ take (length A - length u - length p) v"
      using True tA by (simp add: take_append)
    then show ?thesis by (auto simp: str_contains_iff)
  next
    case False
    show ?thesis
    proof (cases "length A < length u")
      case True
      have split: "drop (length A) u = u ! length A # drop (Suc (length A)) u"
        using True by (simp add: Cons_nth_drop_Suc)
      have "c # B = drop (length A) u @ p @ v" using dA True by simp
      then have "B = drop (Suc (length A)) u @ p @ v" by (simp add: split)
      then show ?thesis by (auto simp: str_contains_iff)
    next
      case False2: False
      have lt: "length A - length u < length p" "length u \<le> length A"
        using False False2 by linarith+
      have "c = (u @ p @ v) ! length A" using dA by (metis nth_via_drop)
      also have "\<dots> = p ! (length A - length u)"
        using lt by (simp add: nth_append)
      finally have "c \<in> set p" using lt by simp
      with assms show ?thesis by simp
    qed
  qed
next
  assume "str_contains p A \<or> str_contains p B"
  then show "str_contains p (A @ c # B)"
  proof
    assume "str_contains p A"
    then show ?thesis using str_contains_append [of p A "[]" "c # B"] by simp
  next
    assume "str_contains p B"
    then show ?thesis using str_contains_append [of p B "A @ [c]" "[]"] by simp
  qed
qed

lemma py_lower_Cons_ascii:
  assumes "(of_char c :: nat) < 128"
  shows "py_lower (c # cs) =
    (if 65 \<le> (of_char c :: nat) \<and> (of_char c :: nat) \<le> 90 then char_of (of_char c + (32 :: nat)) else c) #
    py_lower cs"
proof -
  have "c \<noteq> CHR 0xE2" using assms by auto
  then show ?thesis by simp
qed

lemma py_lower_ascii_prefix:
  "list_all (\<lambda>x. (of_char x :: nat) < 128) a \<Longrightarrow> py_lower (a @ b) = py_lower a @ py_lower b"
  by (induction a) (simp_all add: py_lower_Cons_ascii del: py_lower.simps(2))

lemma attr_reason_fast_not_permission: "attr_reason_fast a \<noteq> Some ''Permission denied''"
  by (simp add: attr_reason_fast_def)

lemma hidden_helpers_total:
  "\<exists>h. is_hidden_windows e = Inr h" "\<exists>s. is_system_file_windows e = Inr s"
  by (auto simp: is_hidden_windows_def is_system_file_windows_def split: sum.split option.split)

lemma hidden_step_counts:
  "h_total_files (hidden_step w c e) = Suc (h_total_files c)"
  "h_errors (hidden_step w c e) = h_errors c"
  "h_error_files (hidden_step w c e) = h_error_files c"
  "h_visible_files (hidden_step w c e) =
     (if flagged w e then h_visible_files c else Suc (h_visible_files c))"
proof -
  obtain h s where hs: "is_hidden_windows e = Inr h" "is_system_file_windows e = Inr s"
    using hidden_helpers_total by blast
  show "h_total_files (hidden_step w c e) = Suc (h_total_files c)"
    "h_errors (hidden_step w c e) = h_errors c"
    "h_error_files (hidden_step w c e) = h_error_files c"
    "h_visible_files (hidden_step w c e) =
     (if flagged w e then h_visible_files c else Suc (h_visible_files c))"
    using hs by (simp_all add: hidden_step_def Let_def flagged_def is_hidden_unix_def)
qed

lemma hidden_fold:
  "h_total_files (foldl (hidden_step w) c fs) = h_total_files c + length fs \<and>
   h_errors (foldl (hidden_step w) c fs) = h_errors c \<and>
   h_error_files (foldl (hidden_step w) c fs) = h_error_files c \<and>
   h_visible_files (foldl (hidden_step w) c fs) + length (filter (flagged w) fs) =
     h_visible_files c + length fs"
  by (induction fs arbitrary: c) (simp_all add: hidden_step_counts)

lemma read_step_counts:
  "r_total_files (read_step c e) = Suc (r_total_files c)"
  "r_accessible_files (read_step c e) =
     (if fread e = None then Suc (r_accessible_files c) else r_accessible_files c)"
  "r_error_files (read_step c e) = r_error_files c @
     (case fread e of Some (PermissionError m) \<Rightarrow> [(fpath e, ''Permission denied'')] | _ \<Rightarrow> [])"
  "r_cloud_files (read_step c e) = r_cloud_files c @
     (case fread e of Some (PermissionError m) \<Rightarrow> [] | Some err \<Rightarrow> [(fpath e, err_str err)] | None \<Rightarrow> [])"
  "r_permission_errors (read_step c e) = r_permission_errors c +
     length (case fread e of Some (PermissionError m) \<Rightarrow> [(fpath e, ''Permission denied'')] | _ \<Rightarrow> [])"
  "r_cloud_only_files (read_step c e) = r_cloud_only_files c +
     length (case fread e of Some (PermissionError m) \<Rightarrow> [] | Some err \<Rightarrow> [(fpath e, err_str err)] | None \<Rightarrow> [])"
  by (auto simp: read_step_def Let_def split: option.split os_error.split)

lemma read_fold:
  "r_total_files (foldl read_step c fs) = r_total_files c + length fs \<and>
   r_accessible_files (foldl read_step c fs) =
     r_accessible_files c + length (filter (\<lambda>e. fread e = None) fs) \<and>
   r_error_files (foldl read_step c fs) = r_error_files c @
     concat (map (\<lambda>e. case fread e of Some (PermissionError m) \<Rightarrow> [(fpath e, ''Permission denied'')] | _ \<Rightarrow> []) fs) \<and>
   r_cloud_files (foldl read_step c fs) = r_cloud_files c @
     concat (map (\<lambda>e. case fread e of Some (PermissionError m) \<Rightarrow> [] | Some err \<Rightarrow> [(fpath e, err_str err)]
                                    | None \<Rightarrow> []) fs) \<and>
   r_permission_errors (foldl read_step c fs) + length (r_error_files c) =
     r_permission_errors c + length (r_error_files (foldl read_step c fs)) \<and>
   r_cloud_only_files (foldl read_step c fs) + length (r_cloud_files c) =
     r_cloud_only_files c + length (r_cloud_files (foldl read_step c fs))"
proof (induction fs arbitrary: c)
  case Nil
  then show ?case by simp
next
  case (Cons e fs)
  show ?case
    using Cons.IH [of "read_step c e"] read_step_counts [of c e] by simp
qed

lemma read_step_partition:
  "r_accessible_files (read_step c e) + r_cloud_only_files (read_step c e) + r_permission_errors (read_step c e) =
   Suc (r_accessible_files c + r_cloud_only_files c + r_permission_errors c)"
  by (auto simp: read_step_def Let_def split: option.split os_error.split)

lemma read_fold_partition:
  "r_accessible_files (foldl read_step c fs) + r_cloud_only_files (foldl read_step c fs) +
     r_permission_errors (foldl read_step c fs) =
   r_accessible_files c + r_cloud_only_files c + r_permission_errors c + length fs"
  by (induction fs arbitrary: c) (simp_all add: read_step_partition)

section \<open>Properties\<close>

text \<open>
  C18: \<open>analyze_browser_accessibility\<close> counts every file once: the accessible files
  and the six exclusion counters add up to the total, \<open>exclusion_reasons\<close> holds for
  each reason the number of files excluded with it, and \<open>excluded_examples\<close> are the
  first 20 excluded files.
\<close>

theorem browser_counts_partition:
  "let c = analyze_browser_accessibility files in
   total_files c = length files \<and>
   total_files c = browser_accessible c + hidden_files c + system_files c + permission_denied c +
     cloud_files c + temp_files c + other_excluded c \<and>
   browser_accessible c = length (filter (\<lambda>e. fst (is_browser_accessible e)) files) \<and>
   (\<forall>r. py_get (dget (exclusion_reasons c)) r 0 =
        length (filter (\<lambda>e. is_browser_accessible e = (False, r)) files)) \<and>
   excluded_examples c = take 20 (exclusions files)"
proof -
  define c where "c = analyze_browser_accessibility files"
  have init: "total_files access_counts_init = 0" "browser_accessible access_counts_init = 0"
    "cat_sum access_counts_init = 0" "\<And>r. py_get (dget (exclusion_reasons access_counts_init)) r 0 = 0"
    "excluded_examples access_counts_init = take 20 []"
    by (simp_all add: access_counts_init_def cat_sum_def dget_def)
  have "total_files c = length files" "browser_accessible c + cat_sum c = length files"
    "browser_accessible c = length (filter (\<lambda>e. fst (is_browser_accessible e)) files)"
    "\<And>r. py_get (dget (exclusion_reasons c)) r 0 =
        length (filter (\<lambda>e. is_browser_accessible e = (False, r)) files)"
    using analyze_total [of access_counts_init files] analyze_sum [of access_counts_init files]
      analyze_accessible [of access_counts_init files] analyze_reasons [of access_counts_init files] init
    by (simp_all add: c_def analyze_browser_accessibility_def)
  moreover have "excluded_examples c = take 20 (exclusions files)"
    using analyze_examples [OF init(5), of files] by (simp add: c_def analyze_browser_accessibility_def)
  ultimately show ?thesis
    by (simp add: c_def [symmetric] cat_sum_def add.assoc)
qed

text \<open>
  C19: an exclusion is filed by the words in its reason text, including the text of an
  operating-system error: a file whose \<open>os.stat\<close> fails with a message mentioning
  \<open>system\<close> (as Windows' \<open>The system cannot find the file specified\<close> does) is
  counted as a system file.
\<close>

theorem stat_error_counted_as_system:
  assumes "fstat e = Inl err"
    and "str_contains ''system'' (py_lower (err_str err))"
    and "\<not> str_contains ''hidden'' (py_lower (err_str err))"
  shows "system_files (access_step c e) = Suc (system_files c)"
proof -
  have reason: "is_browser_accessible e = (False, ''Stat error:'' @ CHR '' '' # err_str err)"
    using assms(1) by (simp add: is_browser_accessible_def)
  have low: "py_lower (''Stat error:'' @ CHR '' '' # err_str err) =
      ''stat error:'' @ CHR '' '' # py_lower (err_str err)"
    using py_lower_ascii_prefix [of "''Stat error: ''" "err_str err"]
    by (simp add: String.char_of_def bit_simps)
  have "exclusion_category (''Stat error:'' @ CHR '' '' # err_str err) = ExSystem"
    using assms(2,3) unfolding exclusion_category_def Let_def low
    by (simp add: str_contains_sep)
  then show ?thesis
    using reason by (simp add: access_step_def Let_def bump_category_def)
qed

lemma fast_stat_handlers_first:
  "handle fast_stat_handlers err = Some (False, ''File not accessible: '' @ utf8_take 50 (err_str err))"
  by (cases err) (simp_all add: fast_stat_handlers_def)

text \<open>
  C20: \<open>is_browser_accessible_fast\<close> never reports \<open>Permission denied\<close>: a
  \<open>PermissionError\<close> of \<open>os.stat\<close> is an \<open>OSError\<close> and is caught by the earlier
  \<open>except (FileNotFoundError, OSError)\<close>, which reports it as not accessible with its
  message.
\<close>

theorem fast_permission_branch_dead:
  "snd (is_browser_accessible_fast e) \<noteq> ''Permission denied'' \<and>
   handle fast_stat_handlers (PermissionError m) =
     Some (False, ''File not accessible: '' @ utf8_take 50 m)"
  unfolding is_browser_accessible_fast_def
  using attr_reason_fast_not_permission fast_stat_handlers_first [of "PermissionError m"]
  by (auto simp: fast_stat_handlers_first split: sum.split option.split)

text \<open>
  C21: \<open>count_files_in_directory\<close> never records an access error (its helpers
  catch every \<open>OSError\<close>), counts every file, and the visible files are exactly the
  files that are neither hidden nor system files.
\<close>

theorem hidden_counts_no_errors:
  "case count_files_in_directory w path (IsDir files) of
     Inr c \<Rightarrow> h_errors c = 0 \<and> h_error_files c = [] \<and> h_total_files c = length files \<and>
              h_visible_files c + length (filter (flagged w) files) = h_total_files c
   | Inl err \<Rightarrow> False"
  using hidden_fold [of w hidden_counts_init files]
  by (simp add: count_files_in_directory_def hidden_counts_init_def)

text \<open>
  C22: \<open>check_file_accessibility\<close> files every file as accessible, cloud-only or
  permission error; \<open>error_files\<close> lists, in walk order, the path of every file whose
  read raised \<open>PermissionError\<close> with the text \<open>Permission denied\<close>, and
  \<open>cloud_files\<close> the path and \<open>str(e)\<close> of every file whose read raised another
  \<open>OSError\<close>; the two counters are the lengths of the two lists.
\<close>

theorem read_counts_partition:
  "let c = check_file_accessibility files in
   r_total_files c = length files \<and>
   r_total_files c = r_accessible_files c + r_cloud_only_files c + r_permission_errors c \<and>
   r_accessible_files c = length (filter (\<lambda>e. fread e = None) files) \<and>
   r_error_files c =
     concat (map (\<lambda>e. case fread e of Some (PermissionError m) \<Rightarrow> [(fpath e, ''Permission denied'')]
                                    | _ \<Rightarrow> []) files) \<and>
   r_cloud_files c =
     concat (map (\<lambda>e. case fread e of Some (PermissionError m) \<Rightarrow> []
                                    | Some err \<Rightarrow> [(fpath e, err_str err)] | None \<Rightarrow> []) files) \<and>
   r_permission_errors c = length (r_error_files c) \<and>
   r_cloud_only_files c = length (r_cloud_files c)"
  using read_fold [of read_counts_init files] read_fold_partition [of read_counts_init files]
  by (simp add: check_file_accessibility_def read_counts_init_def Let_def)

section \<open>Witnesses\<close>

theorem stat_error_counted_as_system_witness:
  "fstat winerror_entry = Inl (FileNotFoundError ''[WinError 2] The system cannot find the file specified'') \<and>
   str_contains ''system'' (py_lower (err_str (FileNotFoundError ''[WinError 2] The system cannot find the file specified''))) \<and>
   \<not> str_contains ''hidden'' (py_lower (err_str (FileNotFoundError ''[WinError 2] The system cannot find the file specified''))) \<and>
   system_files (access_step access_counts_init winerror_entry) = Suc (system_files access_counts_init)"
proof -
  have h1: "fstat winerror_entry = Inl (FileNotFoundError ''[WinError 2] The system cannot find the file specified'')"
    by (simp add: winerror_entry_def)
  have low: "py_lower ''[WinError 2] The system cannot find the file specified'' =
      ''[winerror 2] the system cannot find the file specified''"
    by (simp add: String.char_of_def bit_simps)
  have h2: "str_contains ''system'' (py_lower (err_str (FileNotFoundError ''[WinError 2] The system cannot find the file specified'')))"
    by (simp add: low)
  have h3: "\<not> str_contains ''hidden'' (py_lower (err_str (FileNotFoundError ''[WinError 2] The system cannot find the file specified'')))"
    by (simp add: low)
  show ?thesis using h1 h2 h3 stat_error_counted_as_system [OF h1 h2 h3] by simp
qed

end
