(* ===== verification/Calibration.thy ===== *)
theory Calibration
  imports Floats "HOL-Library.Monad_Syntax"
begin

text \<open>
  The median-based calibration of the three-phase time estimate and the scripts that
  test a formula against measured runs:
  \<^item> \<open>src/docs/plans/Bookkeeper/speed_tests/final_calibration.py\<close> (\<open>main\<close>),
  \<^item> \<open>src/docs/plans/Bookkeeper/speed_tests/simple_calibration.py\<close>
    (\<open>simple_calibration\<close>, \<open>test_simple_formula\<close>),
  \<^item> \<open>src/docs/speed_tests/robust_calibration.py\<close> (\<open>robust_analysis\<close>,
    \<open>test_robust_formula\<close>),
  \<^item> \<open>src/docs/speed_tests/validate_new_formula.py\<close> and
    \<open>src/docs/speed_tests/validate_estimation_formula.py\<close>
    (\<open>calculate_new_predictions\<close>, \<open>calculate_predictions\<close>, \<open>analyze_accuracy\<close>),
  \<^item> \<open>src/docs/plans/Bookkeeper/speed_tests/analyze_3stage_data.py\<close>
    (\<open>analyze_3stage_data\<close>).
  Each reads the table that merges the folder metrics with the timing rows; a row of it
  is a \<open>calib_row\<close>, its numeric cells \<open>pyfloat\<close>s (\<open>NaN\<close> for an empty cell).
\<close>

section \<open>The merged table\<close>

record calib_row =
  cal_run :: pyfloat
  cal_files :: pyfloat
  cal_dups :: pyfloat
  cal_dup_size_mb :: pyfloat
  cal_total_size_mb :: pyfloat
  cal_avg_depth :: pyfloat
  cal_unique_total :: pyfloat
  cal_phase1 :: pyfloat
  cal_phase2 :: pyfloat
  cal_phase3 :: pyfloat
  cal_total :: pyfloat
  cal_worker :: bool

text \<open>\<open>merged[merged['isWorkerMode'] == True]\<close>.\<close>

definition worker_rows :: "calib_row list \<Rightarrow> calib_row list" where
  "worker_rows df = filter cal_worker df"

section \<open>Median-based constants\<close>

text \<open>\<open>df[a] / df[b]\<close>, element-wise.\<close>

definition per_unit :: "(calib_row \<Rightarrow> pyfloat) \<Rightarrow> (calib_row \<Rightarrow> pyfloat) \<Rightarrow> calib_row list \<Rightarrow> pyfloat list" where
  "per_unit a b df = map (\<lambda>r. fdivf (a r) (b r)) df"

text \<open>\<open>df[df['duplicateCandidateCount'] > 0]\<close>.\<close>

definition with_candidates :: "calib_row list \<Rightarrow> calib_row list" where
  "with_candidates df = filter (\<lambda>r. fgt (cal_dups r) 0) df"

record constants =
  k_phase1 :: pyfloat
  k_phase2 :: pyfloat
  k_phase3 :: pyfloat

text \<open>
  \<open>final_calibration.py\<close>: the three medians, with no guard for a table without
  duplicate candidates.
\<close>

definition final_constants :: "calib_row list \<Rightarrow> constants" where
  "final_constants df =
     \<lparr>k_phase1 = series_median (per_unit cal_phase1 cal_files df),
      k_phase2 = series_median (per_unit cal_phase2 cal_dups (with_candidates df)),
      k_phase3 = series_median (per_unit cal_phase3 cal_files df)\<rparr>"

text \<open>\<open>simple_calibration\<close> and \<open>robust_analysis\<close>: the same medians, with a fallback
  (\<open>4.0\<close>, \<open>5.0\<close>) for the second when no run has duplicate candidates.\<close>

definition median_constants :: "rat \<Rightarrow> calib_row list \<Rightarrow> constants" where
  "median_constants fallback df =
     \<lparr>k_phase1 = series_median (per_unit cal_phase1 cal_files df),
      k_phase2 = (if length (with_candidates df) > 0
                  then series_median (per_unit cal_phase2 cal_dups (with_candidates df))
                  else Fin fallback),
      k_phase3 = series_median (per_unit cal_phase3 cal_files df)\<rparr>"

definition simple_calibration :: "calib_row list \<Rightarrow> constants" where
  "simple_calibration df = median_constants 4 df"

definition robust_analysis :: "calib_row list \<Rightarrow> constants" where
  "robust_analysis df = median_constants 5 df"

section \<open>Testing a formula\<close>

text \<open>\<open>files * k1 + candidates * k2 + files * k3\<close>.\<close>

definition predict_total :: "constants \<Rightarrow> calib_row \<Rightarrow> pyfloat" where
  "predict_total k r =
     fadd (fadd (fmul (cal_files r) (k_phase1 k)) (fmul (cal_dups r) (k_phase2 k)))
          (fmul (cal_files r) (k_phase3 k))"

text \<open>\<open>100 - (abs(error) / actual * 100)\<close>, from the error \<open>actual - predicted\<close>.\<close>

definition pct_accuracy :: "pyfloat \<Rightarrow> pyfloat \<Rightarrow> pyfloat" where
  "pct_accuracy actual err = fsub (Fin 100) (fscale (fdivf (fabs err) actual) 100)"

definition accuracy :: "pyfloat \<Rightarrow> pyfloat \<Rightarrow> pyfloat" where
  "accuracy actual predicted = pct_accuracy actual (fsub actual predicted)"

text \<open>\<open>100 - abs(error / actual) * 100\<close>, the form of \<open>test_simple_formula\<close>.\<close>

definition accuracy_rel :: "pyfloat \<Rightarrow> pyfloat \<Rightarrow> pyfloat" where
  "accuracy_rel actual predicted =
     fsub (Fin 100) (fscale (fabs (fdivf (fsub actual predicted) actual)) 100)"

record formula_test =
  ft_predicted :: pyfloat
  ft_error :: pyfloat
  ft_accuracy :: pyfloat

definition test_row :: "(pyfloat \<Rightarrow> pyfloat \<Rightarrow> pyfloat) \<Rightarrow> constants \<Rightarrow> calib_row \<Rightarrow> formula_test" where
  "test_row acc k r =
     (let p = predict_total k r in
      \<lparr>ft_predicted = p, ft_error = fsub (cal_total r) p, ft_accuracy = acc (cal_total r) p\<rparr>)"

text \<open>\<open>int(x)\<close> of a float: \<open>ValueError\<close> for \<open>NaN\<close>, \<open>OverflowError\<close> for an infinity.\<close>

fun int_ok :: "pyfloat \<Rightarrow> bool" where
  "int_ok (Fin a) = True"
| "int_ok x = False"

text \<open>The \<open>int(...)\<close> conversions of the run number, file count and candidate count
  when a row is printed.\<close>

definition row_printable :: "'a calib_row_scheme \<Rightarrow> bool" where
  "row_printable r = (int_ok (cal_run r) \<and> int_ok (cal_files r) \<and> int_ok (cal_dups r))"

text \<open>\<open>np.max\<close> and \<open>np.min\<close> of a list: \<open>ValueError\<close> on an empty list, \<open>NaN\<close> if
  a value is \<open>NaN\<close>.\<close>

definition np_max :: "pyfloat list \<Rightarrow> pyfloat option" where
  "np_max xs =
     (if xs = [] then None else if NaN \<in> set xs then Some NaN
      else Some (foldl (\<lambda>m x. if fkey m < fkey x then x else m) (hd xs) (tl xs)))"

definition np_min :: "pyfloat list \<Rightarrow> pyfloat option" where
  "np_min xs =
     (if xs = [] then None else if NaN \<in> set xs then Some NaN
      else Some (foldl (\<lambda>m x. if fkey x < fkey m then x else m) (hd xs) (tl xs)))"

record calibration_summary =
  sum_constants :: constants
  sum_tests :: "formula_test list"
  mean_accuracy :: pyfloat
  median_accuracy :: pyfloat
  best_accuracy :: pyfloat
  worst_accuracy :: pyfloat
  mean_abs_error :: pyfloat
  median_abs_error :: pyfloat

text \<open>
  \<open>main\<close> of \<open>final_calibration.py\<close> on the merged table: \<open>None\<close> where it raises,
  at the \<open>int(...)\<close> of a printed row or at \<open>np.max\<close> of an empty list.
\<close>

definition final_calibration :: "calib_row list \<Rightarrow> calibration_summary option" where
  "final_calibration merged =
     (let df = worker_rows merged; k = final_constants df;
          tests = map (test_row accuracy k) df;
          accs = map ft_accuracy tests; errs = map (\<lambda>t. fabs (ft_error t)) tests in
      if \<not> list_all row_printable df then None
      else do {
        best \<leftarrow> np_max accs;
        worst \<leftarrow> np_min accs;
        Some \<lparr>sum_constants = k, sum_tests = tests, mean_accuracy = np_mean accs,
              median_accuracy = np_median accs, best_accuracy = best, worst_accuracy = worst,
              mean_abs_error = np_mean errs, median_abs_error = np_median errs\<rparr>
      })"

record simple_result =
  sr_tests :: "formula_test list"
  sr_mean_accuracy :: pyfloat
  sr_median_accuracy :: pyfloat
  sr_mean_error :: pyfloat

text \<open>
  \<open>test_simple_formula\<close>: the statistics of the prediction frame; \<open>None\<close> for an
  empty table (the frame has no column \<open>accuracy\<close>) and where the detail loop's
  \<open>int(...)\<close> raises.
\<close>

definition test_simple_formula :: "calib_row list \<Rightarrow> constants \<Rightarrow> simple_result option" where
  "test_simple_formula df k =
     (let tests = map (test_row accuracy_rel k) df in
      if df = [] then None
      else if \<not> list_all (\<lambda>(r, t). row_printable r \<and> int_ok (cal_total r) \<and>
                                     int_ok (ft_predicted t) \<and> int_ok (ft_error t)) (zip df tests)
      then None
      else Some \<lparr>sr_tests = tests, sr_mean_accuracy = series_mean (map ft_accuracy tests),
                 sr_median_accuracy = series_median (map ft_accuracy tests),
                 sr_mean_error = series_mean (map (\<lambda>t. fabs (ft_error t)) tests)\<rparr>)"

subsection \<open>Index alignment in \<open>test_robust_formula\<close>\<close>

text \<open>
  The worker rows keep their labels in the merged table (\<open>merged[...].copy()\<close>), while
  the prediction frame built from a list is labelled \<open>0, 1, ...\<close>. A pandas
  operation between two Series aligns them on the sorted union of their labels and gives
  \<open>NaN\<close> at a label one of them lacks.
\<close>

definition labelled_workers :: "'a calib_row_scheme list \<Rightarrow> (nat \<times> 'a calib_row_scheme) list" where
  "labelled_workers merged = filter (\<lambda>(l, r). cal_worker r) (enumerate 0 merged)"

definition union_index :: "nat list \<Rightarrow> nat \<Rightarrow> nat list" where
  "union_index ls n = sort (remdups (ls @ [0..<n]))"

text \<open>\<open>df['totalDurationMs'] - pred_df['predicted_total']\<close>.\<close>

definition aligned_errors :: "(nat \<times> 'a calib_row_scheme) list \<Rightarrow> pyfloat list \<Rightarrow> (nat \<times> pyfloat) list" where
  "aligned_errors df preds =
     map (\<lambda>l. (l, case map_of df l of
                    Some r \<Rightarrow> if l < length preds then fsub (cal_total r) (preds ! l) else NaN
                  | None \<Rightarrow> NaN))
         (union_index (map fst df) (length preds))"

text \<open>\<open>100 - (absolute_errors / df['totalDurationMs']) * 100\<close>, aligned again.\<close>

definition aligned_accuracy :: "(nat \<times> 'a calib_row_scheme) list \<Rightarrow> (nat \<times> pyfloat) list \<Rightarrow> (nat \<times> pyfloat) list" where
  "aligned_accuracy df errs =
     map (\<lambda>(l, e). (l, case map_of df l of Some r \<Rightarrow> pct_accuracy (cal_total r) e | None \<Rightarrow> NaN)) errs"

record robust_result =
  rr_errors :: "(nat \<times> pyfloat) list"
  rr_accuracy :: "(nat \<times> pyfloat) list"
  rr_mean_accuracy :: pyfloat
  rr_median_accuracy :: pyfloat
  rr_mean_abs_error :: pyfloat
  rr_median_abs_error :: pyfloat

text \<open>
  \<open>test_robust_formula\<close> on the worker rows of the merged table: the detail loop reads
  the \<open>i\<close>-th worker row, the \<open>i\<close>-th prediction and the \<open>i\<close>-th aligned error and
  converts them with \<open>int(...)\<close>.
\<close>

definition test_robust_formula :: "calib_row list \<Rightarrow> constants \<Rightarrow> robust_result option" where
  "test_robust_formula merged k =
     (let df = labelled_workers merged; preds = map (\<lambda>(l, r). predict_total k r) df;
          errs = aligned_errors df preds; accs = aligned_accuracy df errs in
      if df = [] then None
      else if \<not> list_all (\<lambda>((l, r), p, e). row_printable r \<and> int_ok (cal_total r) \<and> int_ok p \<and> int_ok e)
                         (zip df (zip preds (map snd errs)))
      then None
      else Some \<lparr>rr_errors = errs, rr_accuracy = accs,
                 rr_mean_accuracy = series_mean (map snd accs),
                 rr_median_accuracy = series_median (map snd accs),
                 rr_mean_abs_error = series_mean (map (fabs \<circ> snd) errs),
                 rr_median_abs_error = series_median (map (fabs \<circ> snd) errs)\<rparr>)"

section \<open>Fixed formulas\<close>

text \<open>\<open>calculate_new_predictions\<close>: the constants \<open>0.010\<close>, \<open>4.843\<close>, \<open>4.186\<close>.\<close>

definition new_constants :: constants where
  "new_constants = \<lparr>k_phase1 = Fin (1/100), k_phase2 = Fin (4843/1000), k_phase3 = Fin (4186/1000)\<rparr>"

definition calculate_new_predictions :: "calib_row list \<Rightarrow> pyfloat list" where
  "calculate_new_predictions df = map (predict_total new_constants) df"

text \<open>
  \<open>calculate_predictions\<close> of \<open>validate_estimation_formula.py\<close>: the size-dependent
  hash rate and the directory-depth term of the earlier formula.
\<close>

record estimate =
  est_phase1 :: pyfloat
  est_phase2 :: pyfloat
  est_phase3 :: pyfloat
  est_total :: pyfloat
  est_hash_rate :: rat

definition estimate_row :: "calib_row \<Rightarrow> estimate" where
  "estimate_row r =
     (let hash_rate = (if fgt (cal_total_size_mb r) 200 then 10 else 18);
          p1 = fscale (cal_files r) (15/100);
          p2 = fadd (fscale (cal_dup_size_mb r) hash_rate) (fscale (cal_dups r) 2);
          p3 = fadd (fscale (cal_files r) (8/10)) (fscale (cal_avg_depth r) 25) in
      \<lparr>est_phase1 = p1, est_phase2 = p2, est_phase3 = p3, est_total = fadd (fadd p1 p2) p3,
       est_hash_rate = hash_rate\<rparr>)"

definition calculate_predictions :: "calib_row list \<Rightarrow> estimate list" where
  "calculate_predictions df = map estimate_row df"

text \<open>
  \<open>analyze_accuracy\<close> (both validation scripts): the error in ms, the error in percent
  of the actual total, and \<open>100 - abs(percent)\<close>.
\<close>

record accuracy_row =
  total_error_ms :: pyfloat
  total_error_percent :: pyfloat
  total_accuracy_percent :: pyfloat

definition analyze_accuracy_row :: "pyfloat \<Rightarrow> pyfloat \<Rightarrow> accuracy_row" where
  "analyze_accuracy_row actual predicted =
     (let e = fsub actual predicted; pct = fscale (fdivf e actual) 100 in
      \<lparr>total_error_ms = e, total_error_percent = pct,
       total_accuracy_percent = fsub (Fin 100) (fabs pct)\<rparr>)"

definition analyze_accuracy :: "calib_row list \<Rightarrow> pyfloat list \<Rightarrow> accuracy_row list" where
  "analyze_accuracy df preds = map2 (\<lambda>r p. analyze_accuracy_row (cal_total r) p) df preds"

section \<open>Phase shares and per-file coefficients\<close>

text \<open>\<open>(p / total * 100) if total > 0 else 0\<close>.\<close>

definition phase_pct :: "pyfloat \<Rightarrow> pyfloat \<Rightarrow> pyfloat" where
  "phase_pct p tt = (if fgt tt 0 then fscale (fdivf p tt) 100 else Fin 0)"

text \<open>\<open>Series.sum()\<close>: the sum of the values that are not \<open>NaN\<close>.\<close>

definition series_sum :: "pyfloat list \<Rightarrow> pyfloat" where
  "series_sum xs = foldl fadd (Fin 0) (filter (\<lambda>x. x \<noteq> NaN) xs)"

record stage_analysis =
  stage_shares :: "(pyfloat \<times> pyfloat \<times> pyfloat) list"
  stage_coefficients :: "(pyfloat \<times> pyfloat \<times> pyfloat) option"

text \<open>The outcome of \<open>analyze_3stage_data\<close>: the early \<open>return\<close> when no run is
  complete, the \<open>int(...)\<close> of a printed value raising, or the analysis.\<close>

datatype stage_outcome = No_complete_data | Stage_int_error | Stage_done stage_analysis

text \<open>
  \<open>analyze_3stage_data\<close>: the runs with all three phases (\<open>dropna\<close>), each phase's
  share of the total as printed with the run number, file count, total and phases
  converted by \<open>int(...)\<close>, and, from two complete runs on, the per-file coefficients.
\<close>

definition analyze_3stage_data :: "calib_row list \<Rightarrow> stage_outcome" where
  "analyze_3stage_data data =
     (let complete = filter (\<lambda>r. cal_phase1 r \<noteq> NaN \<and> cal_phase2 r \<noteq> NaN \<and> cal_phase3 r \<noteq> NaN) data in
      if length complete = 0 then No_complete_data
      else if \<not> list_all (\<lambda>r. int_ok (cal_run r) \<and> int_ok (cal_files r) \<and> int_ok (cal_total r) \<and>
                              int_ok (cal_phase1 r) \<and> int_ok (cal_phase2 r) \<and> int_ok (cal_phase3 r)) complete
      then Stage_int_error
      else Stage_done
        \<lparr>stage_shares = map (\<lambda>r. (phase_pct (cal_phase1 r) (cal_total r),
                                   phase_pct (cal_phase2 r) (cal_total r),
                                   phase_pct (cal_phase3 r) (cal_total r))) complete,
         stage_coefficients =
           (if 2 \<le> length complete
            then Some (fdivf (series_sum (map cal_phase1 complete)) (series_sum (map cal_files complete)),
                       fdivf (series_sum (map cal_phase2 complete)) (series_sum (map cal_unique_total complete)),
                       fdivf (series_sum (map cal_phase3 complete)) (series_sum (map cal_unique_total complete)))
            else None)\<rparr>)"

section \<open>A sample run\<close>

text \<open>A worker-mode run whose phases are exactly linear in its counts: \<open>0.1\<close> ms per
  file, \<open>5\<close> ms per duplicate candidate and \<open>4\<close> ms per file.\<close>

definition sample_run :: calib_row where
  "sample_run =
     \<lparr>cal_run = Fin 1, cal_files = Fin 10, cal_dups = Fin 2, cal_dup_size_mb = Fin 1,
      cal_total_size_mb = Fin 5, cal_avg_depth = Fin 1, cal_unique_total = Fin 8,
      cal_phase1 = Fin 1, cal_phase2 = Fin 10, cal_phase3 = Fin 40, cal_total = Fin 51,
      cal_worker = True\<rparr>"

section \<open>Lemmas\<close>

lemma predict_NaN: "k_phase2 k = NaN \<Longrightarrow> predict_total k r = NaN"
  by (simp only: predict_total_def fmul_NaN fadd_NaN fadd.simps(2))

lemma np_max_NaN: "NaN \<in> set xs \<Longrightarrow> np_max xs = Some NaN"
  by (auto simp: np_max_def)

lemma final_calibration_Some:
  assumes "final_calibration merged = Some s"
  obtains "worker_rows merged \<noteq> []"
    "sum_constants s = final_constants (worker_rows merged)"
    "sum_tests s = map (test_row accuracy (final_constants (worker_rows merged))) (worker_rows merged)"
    "mean_accuracy s = np_mean (map ft_accuracy (sum_tests s))"
    "np_max (map ft_accuracy (sum_tests s)) = Some (best_accuracy s)"
  using assms
  by (auto simp: final_calibration_def Let_def np_max_def split: if_splits Option.bind_splits)

text \<open>A column that is \<open>c\<close> times another, non-zero one has the per-unit ratio \<open>c\<close>
  in every row.\<close>

lemma per_unit_const:
  "\<forall>r\<in>set df. \<exists>x. b r = Fin x \<and> x \<noteq> 0 \<and> a r = Fin (c * x) \<Longrightarrow>
   per_unit a b df = replicate (length df) (Fin c)"
  by (induction df) (auto simp: per_unit_def fdiv_def)

lemma phase_pct_sum:
  assumes "0 < p1 + p2 + p3"
  shows "fadd (fadd (phase_pct (Fin p1) (Fin (p1 + p2 + p3))) (phase_pct (Fin p2) (Fin (p1 + p2 + p3))))
              (phase_pct (Fin p3) (Fin (p1 + p2 + p3))) = Fin 100"
proof -
  have "p1 * 100 / (p1 + p2 + p3) + p2 * 100 / (p1 + p2 + p3) + p3 * 100 / (p1 + p2 + p3)
        = (p1 * 100 + p2 * 100 + p3 * 100) / (p1 + p2 + p3)"
    by (simp only: add_divide_distrib)
  also have "\<dots> = (p1 + p2 + p3) * 100 / (p1 + p2 + p3)"
    by (simp only: distrib_right)
  also have "\<dots> = 100"
    using assms by (intro nonzero_mult_div_cancel_left) simp
  finally have "p1 * 100 / (p1 + p2 + p3) + p2 * 100 / (p1 + p2 + p3) + p3 * 100 / (p1 + p2 + p3) = 100" .
  then show ?thesis using assms by (simp add: phase_pct_def fdiv_def)
qed

subsection \<open>Labels\<close>

lemma enumerate_filter_sorted:
  "sorted_wrt (<) (map fst (filter P (enumerate k xs)))"
proof (induction xs arbitrary: k)
  case Nil
  then show ?case by simp
next
  case (Cons x xs)
  have "\<forall>p\<in>set (filter P (enumerate (Suc k) xs)). k < fst p"
    by (auto simp: in_set_enumerate_eq)
  with Cons show ?case by auto
qed

lemma labelled_workers_sorted: "sorted_wrt (<) (map fst (labelled_workers merged))"
  unfolding labelled_workers_def by (rule enumerate_filter_sorted)

text \<open>A strictly increasing list of naturals of length \<open>n\<close> that is not \<open>[0..<n]\<close>
  misses a label below \<open>n\<close>.\<close>

lemma strict_sorted_gap:
  assumes "sorted_wrt (<) L" "L \<noteq> [0..<length L]"
  shows "\<exists>j < length L. j \<notin> set L"
proof (rule ccontr)
  assume "\<not> ?thesis"
  then have sub: "{0..<length L} \<subseteq> set L" by auto
  have dist: "distinct L" and srt: "sorted L" using assms(1) by (simp_all add: strict_sorted_iff)
  have "card (set L) = length L" using dist by (simp add: distinct_card)
  then have "{0..<length L} = set L" using card_subset_eq [OF finite_set sub] by simp
  then have "sorted_list_of_set (set L) = [0..<length L]" by (metis sorted_list_of_set_range)
  moreover have "sorted_list_of_set (set L) = L"
    using dist srt by (simp add: sorted_list_of_set_sort_remdups distinct_remdups_id sorted_sort_id)
  ultimately show False using assms(2) by simp
qed

text \<open>In the sorted union of labels, a label sits at a position no larger than itself.\<close>

lemma union_index_pos:
  assumes "j \<in> set (union_index L n)"
  obtains i where "i < length (union_index L n)" "union_index L n ! i = j" "i \<le> j"
proof -
  have "sorted_wrt (<) (union_index L n)"
    by (simp add: union_index_def strict_sorted_iff)
  moreover obtain i where "i < length (union_index L n)" "union_index L n ! i = j"
    using assms by (auto simp: in_set_conv_nth)
  ultimately show ?thesis using sorted_wrt_less_idx that by blast
qed

section \<open>Properties\<close>

text \<open>
  C24: when no worker run has duplicate candidates, \<open>final_calibration.py\<close> reports the
  phase-2 constant as \<open>NaN\<close> (the median of an empty Series), and with it every
  prediction, every accuracy, the mean and the best accuracy are \<open>NaN\<close>.
\<close>

theorem final_calibration_no_candidates:
  assumes "final_calibration merged = Some s" "with_candidates (worker_rows merged) = []"
  shows "k_phase2 (sum_constants s) = NaN \<and>
   (\<forall>t\<in>set (sum_tests s). ft_predicted t = NaN \<and> ft_accuracy t = NaN) \<and>
   mean_accuracy s = NaN \<and> best_accuracy s = NaN"
proof -
  from assms(1) obtain ne: "worker_rows merged \<noteq> []"
    and k: "sum_constants s = final_constants (worker_rows merged)"
    and t: "sum_tests s = map (test_row accuracy (final_constants (worker_rows merged))) (worker_rows merged)"
    and m: "mean_accuracy s = np_mean (map ft_accuracy (sum_tests s))"
    and b: "np_max (map ft_accuracy (sum_tests s)) = Some (best_accuracy s)"
    by (rule final_calibration_Some)
  have k2: "k_phase2 (final_constants (worker_rows merged)) = NaN"
    using assms(2) by (simp add: final_constants_def series_median_def per_unit_def)
  have tests: "\<forall>t\<in>set (sum_tests s). ft_predicted t = NaN \<and> ft_accuracy t = NaN"
    using k2 by (auto simp: t test_row_def predict_NaN accuracy_def pct_accuracy_def)
  have nan: "NaN \<in> set (map ft_accuracy (sum_tests s))"
    using tests ne t by (cases "worker_rows merged") auto
  have "best_accuracy s = NaN"
    using b np_max_NaN [OF nan] by simp
  moreover have "mean_accuracy s = NaN"
    using m nan by (simp add: np_mean_def)
  ultimately show ?thesis
    using k k2 tests by simp
qed

theorem final_calibration_no_candidates_witness:
  "let m = [sample_run\<lparr>cal_dups := Fin 0\<rparr>]; s = the (final_calibration m) in
   final_calibration m = Some s \<and> with_candidates (worker_rows m) = [] \<and>
   k_phase2 (sum_constants s) = NaN \<and>
   list_all (\<lambda>t. ft_predicted t = NaN \<and> ft_accuracy t = NaN) (sum_tests s) \<and>
   mean_accuracy s = NaN \<and> best_accuracy s = NaN"
proof -
  define m where "m = [sample_run\<lparr>cal_dups := Fin 0\<rparr>]"
  have h1: "final_calibration m = Some (the (final_calibration m))"
    by (simp add: m_def sample_run_def final_calibration_def worker_rows_def row_printable_def
        np_max_def np_min_def Let_def)
  have h2: "with_candidates (worker_rows m) = []"
    by (simp add: m_def sample_run_def with_candidates_def worker_rows_def)
  show ?thesis
    using h1 h2 final_calibration_no_candidates [OF h1 h2] unfolding Let_def m_def list_all_iff by blast
qed

text \<open>
  C25: for a non-negative actual duration the three accuracy formulas of the scripts
  agree: \<open>100 - abs(error) / actual * 100\<close> (\<open>final_calibration.py\<close>,
  \<open>robust_calibration.py\<close>), \<open>100 - abs(error / actual) * 100\<close>
  (\<open>simple_calibration.py\<close>) and \<open>100 - abs(error / actual * 100)\<close>
  (\<open>analyze_accuracy\<close> of the validation scripts), including \<open>actual = 0\<close>, infinite
  and \<open>NaN\<close> values.
\<close>

theorem accuracy_forms_agree:
  "fge actual 0 \<Longrightarrow>
   accuracy actual p = accuracy_rel actual p \<and>
   total_accuracy_percent (analyze_accuracy_row actual p) = accuracy actual p"
  by (simp add: accuracy_def accuracy_rel_def pct_accuracy_def analyze_accuracy_row_def Let_def
      fdivf_fabs fabs_fscale)

theorem accuracy_forms_agree_witness:
  "fge (Fin 0) 0 \<and> accuracy (Fin 0) (Fin 5) = accuracy_rel (Fin 0) (Fin 5) \<and>
   total_accuracy_percent (analyze_accuracy_row (Fin 0) (Fin 5)) = accuracy (Fin 0) (Fin 5)"
  using accuracy_forms_agree [of "Fin 0" "Fin 5"] by simp

text \<open>
  C26: for a positive finite actual duration and a finite prediction, the accuracy is a
  finite value of at most 100, and it is 100 exactly when the prediction is exact.
\<close>

theorem accuracy_bounded:
  "0 < a \<Longrightarrow> \<exists>x. accuracy (Fin a) (Fin p) = Fin x \<and> x \<le> 100 \<and> (x = 100 \<longleftrightarrow> p = a)"
  by (auto simp: accuracy_def pct_accuracy_def fsub_def fdiv_def)

theorem accuracy_bounded_witness:
  "(0::rat) < 50 \<and> (\<exists>x. accuracy (Fin 50) (Fin 40) = Fin x \<and> x \<le> 100 \<and> (x = 100 \<longleftrightarrow> (40::rat) = 50))"
  using accuracy_bounded [of 50 40] by simp

text \<open>
  C27: on runs whose phase times are exactly linear in the file and candidate counts,
  with at least one run with candidates, \<open>final_calibration.py\<close> recovers the three
  per-unit constants.
\<close>

theorem calibration_recovers_exact:
  assumes lin: "\<forall>r\<in>set df. \<exists>f d. cal_files r = Fin f \<and> 0 < f \<and> cal_dups r = Fin d \<and>
      cal_phase1 r = Fin (c1 * f) \<and> cal_phase2 r = Fin (c2 * d) \<and> cal_phase3 r = Fin (c3 * f)"
    and cand: "with_candidates df \<noteq> []"
  shows "final_constants df = \<lparr>k_phase1 = Fin c1, k_phase2 = Fin c2, k_phase3 = Fin c3\<rparr>"
proof -
  have ne: "0 < length df" using cand by (cases df) (auto simp: with_candidates_def)
  have p1: "per_unit cal_phase1 cal_files df = replicate (length df) (Fin c1)"
    using lin by (intro per_unit_const) force
  have p3: "per_unit cal_phase3 cal_files df = replicate (length df) (Fin c3)"
    using lin by (intro per_unit_const) force
  have p2: "per_unit cal_phase2 cal_dups (with_candidates df) =
            replicate (length (with_candidates df)) (Fin c2)"
    using lin by (intro per_unit_const) (force simp: with_candidates_def)
  show ?thesis
    using ne cand by (simp add: final_constants_def p1 p2 p3 series_median_replicate)
qed

theorem calibration_recovers_exact_witness:
  "list_all (\<lambda>r. \<exists>f d. cal_files r = Fin f \<and> 0 < f \<and> cal_dups r = Fin d \<and>
      cal_phase1 r = Fin (1/10 * f) \<and> cal_phase2 r = Fin (5 * d) \<and> cal_phase3 r = Fin (4 * f))
     [sample_run] \<and>
   with_candidates [sample_run] \<noteq> [] \<and>
   final_constants [sample_run] = \<lparr>k_phase1 = Fin (1/10), k_phase2 = Fin 5, k_phase3 = Fin 4\<rparr>"
proof -
  have h1: "\<forall>r\<in>set [sample_run]. \<exists>f d. cal_files r = Fin f \<and> 0 < f \<and> cal_dups r = Fin d \<and>
      cal_phase1 r = Fin (1/10 * f) \<and> cal_phase2 r = Fin (5 * d) \<and> cal_phase3 r = Fin (4 * f)"
    by (simp add: sample_run_def)
  have h2: "with_candidates [sample_run] \<noteq> []"
    by (simp add: with_candidates_def sample_run_def)
  show ?thesis using h1 h2 calibration_recovers_exact [OF h1 h2] by (simp only: list_all_iff) blast
qed

text \<open>
  C28: \<open>test_robust_formula\<close> raises (\<open>int(NaN)\<close> in its detail loop) on every merged
  table whose worker runs are not exactly its first rows: the worker rows keep their
  labels, the predictions are labelled \<open>0, 1, ...\<close>, and the aligned error at a missing
  label is \<open>NaN\<close>.
\<close>

theorem robust_misaligned_crash:
  assumes "map fst (labelled_workers merged) \<noteq> [0..<length (labelled_workers merged)]"
  shows "test_robust_formula merged k = None"
proof -
  define df where "df = labelled_workers merged"
  define preds where "preds = map (\<lambda>(l, r). predict_total k r) df"
  define errs where "errs = aligned_errors df preds"
  obtain j where j: "j < length df" "j \<notin> set (map fst df)"
    using strict_sorted_gap [of "map fst df"] assms labelled_workers_sorted
    unfolding df_def by fastforce
  have "j \<in> set (union_index (map fst df) (length preds))"
    using j by (simp add: union_index_def preds_def)
  then obtain i where i: "i < length (union_index (map fst df) (length preds))"
      "union_index (map fst df) (length preds) ! i = j" "i \<le> j"
    by (rule union_index_pos)
  have none: "map_of df j = None"
    using j(2) by (simp add: map_of_eq_None_iff)
  have ei: "snd (errs ! i) = NaN"
    using i none by (simp add: errs_def aligned_errors_def)
  have "i < length (zip df (zip preds (map snd errs)))"
    using i j by (simp add: errs_def aligned_errors_def preds_def)
  then have "\<not> list_all (\<lambda>((l, r), p, e). row_printable r \<and> int_ok (cal_total r) \<and> int_ok p \<and> int_ok e)
                  (zip df (zip preds (map snd errs)))"
    using ei by (auto simp: list_all_length split: prod.splits)
  then show ?thesis
    unfolding test_robust_formula_def Let_def errs_def preds_def df_def by simp
qed

theorem robust_misaligned_crash_witness:
  "map fst (labelled_workers [sample_run\<lparr>cal_worker := False\<rparr>, sample_run]) \<noteq>
     [0..<length (labelled_workers [sample_run\<lparr>cal_worker := False\<rparr>, sample_run])] \<and>
   test_robust_formula [sample_run\<lparr>cal_worker := False\<rparr>, sample_run] (final_constants [sample_run]) = None"
proof -
  have h: "map fst (labelled_workers [sample_run\<lparr>cal_worker := False\<rparr>, sample_run]) \<noteq>
     [0..<length (labelled_workers [sample_run\<lparr>cal_worker := False\<rparr>, sample_run])]"
    by (simp add: labelled_workers_def sample_run_def)
  show ?thesis using h robust_misaligned_crash [OF h] by simp
qed

text \<open>
  C29: when the worker runs are the first rows of the merged table, the aligned accuracy
  Series of \<open>test_robust_formula\<close> is the row-by-row accuracy of the
  \<open>final_calibration.py\<close> loop.
\<close>

theorem robust_aligned_accuracy:
  assumes "map fst df = [0..<length df]"
  shows "map snd (aligned_accuracy df (aligned_errors df (map (\<lambda>(l, r). predict_total k r) df))) =
         map (\<lambda>(l, r). accuracy (cal_total r) (predict_total k r)) df"
proof -
  let ?n = "length df"
  have U: "union_index (map fst df) ?n = [0..<?n]"
    by (simp add: assms union_index_def sorted_list_of_set_sort_remdups [symmetric]
        sorted_list_of_set_range)
  have df: "df = zip [0..<?n] (map snd df)"
    using assms by (metis zip_map_fst_snd)
  have look: "map_of df l = Some (snd (df ! l))" if "l < ?n" for l
    using map_of_zip_nth [of "[0..<?n]" "map snd df" l] that df by simp
  show ?thesis
    by (rule nth_equalityI)
      (auto simp: aligned_accuracy_def aligned_errors_def U look accuracy_def split: prod.splits)
qed

theorem robust_aligned_accuracy_witness:
  "map fst (labelled_workers [sample_run]) = [0..<length (labelled_workers [sample_run])] \<and>
   map snd (aligned_accuracy (labelled_workers [sample_run])
     (aligned_errors (labelled_workers [sample_run])
        (map (\<lambda>(l, r). predict_total (final_constants [sample_run]) r) (labelled_workers [sample_run])))) =
   map (\<lambda>(l, r). accuracy (cal_total r) (predict_total (final_constants [sample_run]) r))
     (labelled_workers [sample_run])"
proof -
  have h: "map fst (labelled_workers [sample_run]) = [0..<length (labelled_workers [sample_run])]"
    by (simp add: labelled_workers_def sample_run_def)
  show ?thesis using h robust_aligned_accuracy [OF h] by simp
qed

text \<open>
  C30: \<open>analyze_3stage_data\<close> keeps every run with all three phases, and when a run's
  total is the positive sum of its phases (and its run number and file count are finite),
  it completes and the run's three percentage shares add up to 100.
\<close>

theorem stage_shares_sum_100:
  assumes "data \<noteq> []"
    and fin: "\<forall>r\<in>set data. \<exists>p1 p2 p3. cal_phase1 r = Fin p1 \<and> cal_phase2 r = Fin p2 \<and>
                cal_phase3 r = Fin p3 \<and> cal_total r = Fin (p1 + p2 + p3) \<and> 0 < p1 + p2 + p3 \<and>
                int_ok (cal_run r) \<and> int_ok (cal_files r)"
  shows "\<exists>res. analyze_3stage_data data = Stage_done res \<and> length (stage_shares res) = length data \<and>
           (\<forall>(a, b, c)\<in>set (stage_shares res). fadd (fadd a b) c = Fin 100)"
proof -
  have all: "filter (\<lambda>r. cal_phase1 r \<noteq> NaN \<and> cal_phase2 r \<noteq> NaN \<and> cal_phase3 r \<noteq> NaN) data = data"
    using fin by (auto simp: filter_id_conv)
  show ?thesis
    using assms(1) fin by (auto simp: analyze_3stage_data_def Let_def all phase_pct_sum list_all_iff)
qed

theorem stage_shares_sum_100_witness:
  "[sample_run] \<noteq> [] \<and>
   list_all (\<lambda>r. \<exists>p1 p2 p3. cal_phase1 r = Fin p1 \<and> cal_phase2 r = Fin p2 \<and>
      cal_phase3 r = Fin p3 \<and> cal_total r = Fin (p1 + p2 + p3) \<and> 0 < p1 + p2 + p3 \<and>
      int_ok (cal_run r) \<and> int_ok (cal_files r)) [sample_run] \<and>
   (\<exists>res. analyze_3stage_data [sample_run] = Stage_done res \<and> length (stage_shares res) = 1 \<and>
      list_all (\<lambda>(a, b, c). fadd (fadd a b) c = Fin 100) (stage_shares res))"
proof -
  have h1: "[sample_run] \<noteq> []" by simp
  have h2: "\<forall>r\<in>set [sample_run]. \<exists>p1 p2 p3. cal_phase1 r = Fin p1 \<and> cal_phase2 r = Fin p2 \<and>
      cal_phase3 r = Fin p3 \<and> cal_total r = Fin (p1 + p2 + p3) \<and> 0 < p1 + p2 + p3 \<and>
      int_ok (cal_run r) \<and> int_ok (cal_files r)"
    by (simp add: sample_run_def)
  show ?thesis using h1 h2 stage_shares_sum_100 [OF h1 h2] by (simp add: list_all_iff)
qed

end
