(* ===== verification/Least_Squares.thy ===== *)
theory Least_Squares
  imports Floats "HOL-Library.Monad_Syntax"
begin

text \<open>
  What the regression scripts call from \<open>sklearn\<close>: \<open>LinearRegression().fit\<close> with one
  or two features (centring, then the minimum-norm least-squares solution of
  \<open>scipy.linalg.lstsq\<close>, with the input validation that raises \<open>ValueError\<close> on an
  empty or non-finite column), \<open>predict\<close>, \<open>r2_score\<close> (with its \<open>force_finite\<close>
  convention), and Python's \<open>max(..., key=...)\<close>. Values are exact rationals. The lemmas
  show that the fits satisfy the normal equations and minimise the squared error, and
  that data on a line are fitted exactly.
\<close>

text \<open>Sum of centred products: \<open>Xc.T @ yc\<close> for two columns.\<close>

definition csum :: "('p \<Rightarrow> rat) \<Rightarrow> ('p \<Rightarrow> rat) \<Rightarrow> 'p list \<Rightarrow> rat" where
  "csum f g ps = (\<Sum>p\<leftarrow>ps. (f p - mean (map f ps)) * (g p - mean (map g ps)))"

definition ols1 :: "(rat \<times> rat) list \<Rightarrow> rat \<times> rat" where
  "ols1 ps =
     (let sxx = csum fst fst ps; sxy = csum fst snd ps;
          b = (if sxx = 0 then 0 else sxy / sxx) in
      (b, mean (map snd ps) - b * mean (map fst ps)))"

definition sse1 :: "(rat \<times> rat) list \<Rightarrow> rat \<times> rat \<Rightarrow> rat" where
  "sse1 ps m = (\<Sum>(x, y)\<leftarrow>ps. (y - (snd m + fst m * x))\<^sup>2)"

text \<open>The minimum-norm solution of the normal equations
  \<open>[[suu, suv], [suv, svv]] @ b = [tu, tv]\<close> that \<open>scipy.linalg.lstsq\<close> returns: the
  inverse when the Gram matrix is regular, its pseudo-inverse \<open>G / trace(G)^2\<close> when it
  has rank one, and zero when it vanishes.\<close>

definition lstsq2 :: "rat \<Rightarrow> rat \<Rightarrow> rat \<Rightarrow> rat \<Rightarrow> rat \<Rightarrow> rat \<times> rat" where
  "lstsq2 suu suv svv tu tv =
     (let d = suu * svv - suv * suv; tr = suu + svv in
      if d \<noteq> 0 then ((svv * tu - suv * tv) / d, (suu * tv - suv * tu) / d)
      else if tr \<noteq> 0 then ((suu * tu + suv * tv) / tr\<^sup>2, (suv * tu + svv * tv) / tr\<^sup>2)
      else (0, 0))"

definition ols2 :: "((rat \<times> rat) \<times> rat) list \<Rightarrow> (rat \<times> rat) \<times> rat" where
  "ols2 ps =
     (let u = fst \<circ> fst; v = snd \<circ> fst;
          (bu, bv) = lstsq2 (csum u u ps) (csum u v ps) (csum v v ps) (csum u snd ps) (csum v snd ps) in
      ((bu, bv), mean (map snd ps) - (bu * mean (map u ps) + bv * mean (map v ps))))"

definition sse2 :: "((rat \<times> rat) \<times> rat) list \<Rightarrow> (rat \<times> rat) \<times> rat \<Rightarrow> rat" where
  "sse2 ps m = (\<Sum>((x1, x2), y)\<leftarrow>ps. (y - (snd m + (fst (fst m) * x1 + snd (fst m) * x2)))\<^sup>2)"

section \<open>scikit-learn\<close>

text \<open>\<open>check_X_y\<close>: every cell finite (\<open>ValueError\<close> on \<open>NaN\<close> or an infinity).\<close>

fun fin_val :: "pyfloat \<Rightarrow> rat option" where
  "fin_val (Fin a) = Some a"
| "fin_val x = None"

text \<open>\<open>LinearRegression(fit_intercept=True).fit(X, y)\<close> with one column, as
  \<open>(coef_[0], intercept_)\<close>; \<open>None\<close> for the \<open>ValueError\<close> on a non-finite cell or
  on zero samples.\<close>

definition fit_line :: "pyfloat list \<Rightarrow> pyfloat list \<Rightarrow> (rat \<times> rat) option" where
  "fit_line xs ys =
     do { xs' \<leftarrow> those (map fin_val xs); ys' \<leftarrow> those (map fin_val ys);
          if xs' = [] then None else Some (ols1 (zip xs' ys')) }"

text \<open>The same with two columns, as \<open>((coef_[0], coef_[1]), intercept_)\<close>.\<close>

definition fit_plane :: "(pyfloat \<times> pyfloat) list \<Rightarrow> pyfloat list \<Rightarrow> ((rat \<times> rat) \<times> rat) option" where
  "fit_plane xs ys =
     do { us \<leftarrow> those (map (fin_val \<circ> fst) xs); vs \<leftarrow> those (map (fin_val \<circ> snd) xs);
          ys' \<leftarrow> those (map fin_val ys);
          if xs = [] then None else Some (ols2 (zip (zip us vs) ys')) }"

text \<open>\<open>model.predict(X)\<close>.\<close>

definition predict_line :: "rat \<times> rat \<Rightarrow> rat \<Rightarrow> rat" where
  "predict_line m x = snd m + fst m * x"

definition predict_plane :: "(rat \<times> rat) \<times> rat \<Rightarrow> rat \<times> rat \<Rightarrow> rat" where
  "predict_plane m x = snd m + (fst (fst m) * fst x + snd (fst m) * snd x)"

text \<open>\<open>r2_score(y, y_pred)\<close>: \<open>1 - SS_res / SS_tot\<close>; with a constant target, \<open>1.0\<close> for a
  perfect prediction and \<open>0.0\<close> otherwise (\<open>force_finite\<close>); \<open>nan\<close> with fewer than two
  samples.\<close>

definition r2_value :: "rat \<Rightarrow> rat \<Rightarrow> rat" where
  "r2_value num den = (if den = 0 then (if num = 0 then 1 else 0) else 1 - num / den)"

definition r2_score :: "rat list \<Rightarrow> rat list \<Rightarrow> pyfloat" where
  "r2_score ys preds =
     (if length ys < 2 then NaN
      else Fin (r2_value (\<Sum>(y, p)\<leftarrow>zip ys preds. (y - p)\<^sup>2) (\<Sum>y\<leftarrow>ys. (y - mean ys)\<^sup>2)))"

section \<open>Python's \<open>max(items, key=...)\<close>\<close>

text \<open>\<open>x < y\<close> on floats: false when either is \<open>NaN\<close>.\<close>

definition flt :: "pyfloat \<Rightarrow> pyfloat \<Rightarrow> bool" where
  "flt x y = (x \<noteq> NaN \<and> y \<noteq> NaN \<and> fkey x < fkey y)"

text \<open>The first item whose key no later item exceeds: an item replaces the running
  maximum only when its key is strictly greater. \<open>ValueError\<close> on an empty sequence.\<close>

definition py_max :: "('a \<Rightarrow> pyfloat) \<Rightarrow> 'a list \<Rightarrow> 'a option" where
  "py_max k xs =
     (case xs of [] \<Rightarrow> None | x # ys \<Rightarrow> Some (foldl (\<lambda>m y. if flt (k m) (k y) then y else m) x ys))"

section \<open>Least squares\<close>

lemma sum_sq_orth:
  fixes r d :: "'p \<Rightarrow> rat"
  assumes "(\<Sum>p\<leftarrow>ps. r p * d p) = 0"
  shows "(\<Sum>p\<leftarrow>ps. (r p)\<^sup>2) \<le> (\<Sum>p\<leftarrow>ps. (r p + d p)\<^sup>2)"
proof -
  have "(\<Sum>p\<leftarrow>ps. (r p + d p)\<^sup>2) =
          (\<Sum>p\<leftarrow>ps. (r p)\<^sup>2) + 2 * (\<Sum>p\<leftarrow>ps. r p * d p) + (\<Sum>p\<leftarrow>ps. (d p)\<^sup>2)"
    by (simp add: power2_sum sum_list_addf sum_list_const_mult mult.assoc)
  moreover have "0 \<le> (\<Sum>p\<leftarrow>ps. (d p)\<^sup>2)" by (rule sum_list_nonneg) auto
  ultimately show ?thesis using assms by simp
qed

text \<open>A residual orthogonal to the constant and to two features has the least sum of
  squares among all residuals of lines in those features.\<close>

lemma orth_optimal:
  fixes r fu fv :: "'p \<Rightarrow> rat"
  assumes "(\<Sum>p\<leftarrow>ps. r p) = 0" "(\<Sum>p\<leftarrow>ps. r p * fu p) = 0" "(\<Sum>p\<leftarrow>ps. r p * fv p) = 0"
  shows "(\<Sum>p\<leftarrow>ps. (r p)\<^sup>2) \<le> (\<Sum>p\<leftarrow>ps. (r p + (c + (cu * fu p + cv * fv p)))\<^sup>2)"
proof (rule sum_sq_orth)
  have "r p * (c + (cu * fu p + cv * fv p)) = c * r p + cu * (r p * fu p) + cv * (r p * fv p)" for p
    by (simp add: algebra_simps)
  then show "(\<Sum>p\<leftarrow>ps. r p * (c + (cu * fu p + cv * fv p))) = 0"
    using assms by (simp only: sum_list_addf sum_list_const_mult mult_zero_right add_0_right)
qed

lemma sum_centre: "(\<Sum>p\<leftarrow>ps. f p - mean (map f ps)) = 0"
  by (cases "ps = []") (simp_all add: sum_list_subtractf mean_def sum_list_triv)

lemma sum_sq_zero:
  fixes f :: "'p \<Rightarrow> rat"
  assumes "(\<Sum>p\<leftarrow>ps. f p * f p) = 0" "p \<in> set ps"
  shows "f p = 0"
proof -
  have "\<forall>x \<in> set (map (\<lambda>p. f p * f p) ps). x = 0"
    using assms(1) by (subst sum_list_nonneg_eq_0_iff [symmetric]) auto
  with assms(2) show ?thesis by auto
qed

lemma csum_self_nonneg: "0 \<le> csum f f ps"
  unfolding csum_def by (rule sum_list_nonneg) auto

lemma csum_self_zero:
  assumes "csum f f ps = 0" "p \<in> set ps"
  shows "f p = mean (map f ps)"
proof -
  have "f p - mean (map f ps) = 0"
    using sum_sq_zero [OF assms(1) [unfolded csum_def] assms(2)] .
  then show ?thesis by simp
qed

lemma csum_zero_left:
  assumes "csum f f ps = 0"
  shows "csum f g ps = 0"
proof -
  have "(\<Sum>p\<leftarrow>ps. (f p - mean (map f ps)) * (g p - mean (map g ps))) = (\<Sum>p\<leftarrow>ps. 0)"
  proof (rule arg_cong [where f = sum_list], rule map_cong [OF refl])
    fix p assume "p \<in> set ps"
    show "(f p - mean (map f ps)) * (g p - mean (map g ps)) = 0"
      by (simp only: csum_self_zero [OF assms \<open>p \<in> set ps\<close>] diff_self mult_zero_left)
  qed
  then show ?thesis by (simp add: csum_def)
qed

lemma csum_commute: "csum f g ps = csum g f ps"
  by (simp add: csum_def mult.commute)

text \<open>The residuals of the line through the means with slopes \<open>bu\<close>, \<open>bv\<close>.\<close>

lemma resid_sums:
  fixes fu fv g :: "'p \<Rightarrow> rat"
  assumes a: "a = mean (map g ps) - (bu * mean (map fu ps) + bv * mean (map fv ps))"
  shows "(\<Sum>p\<leftarrow>ps. g p - (a + (bu * fu p + bv * fv p))) = 0"
    and "(\<Sum>p\<leftarrow>ps. (g p - (a + (bu * fu p + bv * fv p))) * fu p) =
           csum fu g ps - bu * csum fu fu ps - bv * csum fu fv ps"
proof -
  define mu where "mu = mean (map fu ps)"
  define mv where "mv = mean (map fv ps)"
  define my where "my = mean (map g ps)"
  have r: "g p - (a + (bu * fu p + bv * fv p)) = (g p - my) - bu * (fu p - mu) - bv * (fv p - mv)" for p
    by (simp add: a mu_def mv_def my_def algebra_simps)
  have su: "(\<Sum>p\<leftarrow>ps. fu p - mu) = 0" and sv: "(\<Sum>p\<leftarrow>ps. fv p - mv) = 0"
    and w: "(\<Sum>p\<leftarrow>ps. g p - my) = 0"
    unfolding mu_def mv_def my_def by (rule sum_centre)+
  have "(\<Sum>p\<leftarrow>ps. g p - (a + (bu * fu p + bv * fv p))) =
          (\<Sum>p\<leftarrow>ps. g p - my) - bu * (\<Sum>p\<leftarrow>ps. fu p - mu) - bv * (\<Sum>p\<leftarrow>ps. fv p - mv)"
    by (simp only: r sum_list_subtractf sum_list_const_mult)
  then show r0: "(\<Sum>p\<leftarrow>ps. g p - (a + (bu * fu p + bv * fv p))) = 0"
    by (simp only: su sv w mult_zero_right diff_zero)
  have pt: "(g p - (a + (bu * fu p + bv * fv p))) * fu p =
              ((fu p - mu) * (g p - my) - bu * ((fu p - mu) * (fu p - mu)) -
                bv * ((fu p - mu) * (fv p - mv))) + mu * (g p - (a + (bu * fu p + bv * fv p)))" for p
    by (simp add: r algebra_simps)
  have "(\<Sum>p\<leftarrow>ps. (g p - (a + (bu * fu p + bv * fv p))) * fu p) =
          (\<Sum>p\<leftarrow>ps. (fu p - mu) * (g p - my)) - bu * (\<Sum>p\<leftarrow>ps. (fu p - mu) * (fu p - mu)) -
          bv * (\<Sum>p\<leftarrow>ps. (fu p - mu) * (fv p - mv)) +
          mu * (\<Sum>p\<leftarrow>ps. g p - (a + (bu * fu p + bv * fv p)))"
    unfolding pt sum_list_addf sum_list_subtractf sum_list_const_mult ..
  also have "\<dots> = csum fu g ps - bu * csum fu fu ps - bv * csum fu fv ps"
    unfolding r0 csum_def mu_def mv_def my_def by simp
  finally show "(\<Sum>p\<leftarrow>ps. (g p - (a + (bu * fu p + bv * fv p))) * fu p) =
           csum fu g ps - bu * csum fu fu ps - bv * csum fu fv ps" .
qed

lemma ols1_normal:
  assumes "ols1 ps = (b, a)"
  shows "(\<Sum>p\<leftarrow>ps. snd p - (a + (b * fst p + 0 * 0))) = 0"
    and "(\<Sum>p\<leftarrow>ps. (snd p - (a + (b * fst p + 0 * 0))) * fst p) = 0"
proof -
  have a: "a = mean (map snd ps) - (b * mean (map fst ps) + 0 * mean (map (\<lambda>p. 0) ps))"
    using assms by (auto simp: ols1_def Let_def)
  note rs = resid_sums [where g = snd and fu = fst and fv = "\<lambda>p. 0", OF a]
  show "(\<Sum>p\<leftarrow>ps. snd p - (a + (b * fst p + 0 * 0))) = 0" using rs(1) .
  have "csum fst snd ps - b * csum fst fst ps - 0 * csum fst (\<lambda>p. 0) ps = 0"
    using assms csum_zero_left [of fst ps snd] by (auto simp: ols1_def Let_def split: if_splits)
  then show "(\<Sum>p\<leftarrow>ps. (snd p - (a + (b * fst p + 0 * 0))) * fst p) = 0" using rs(2) by simp
qed

theorem ols1_least_squares: "sse1 ps (ols1 ps) \<le> sse1 ps m"
proof -
  obtain b a where ba: "ols1 ps = (b, a)" by (cases "ols1 ps")
  define r where "r p = snd p - (a + (b * fst p + 0 * 0))" for p :: "rat \<times> rat"
  have "(\<Sum>p\<leftarrow>ps. (r p)\<^sup>2) \<le>
          (\<Sum>p\<leftarrow>ps. (r p + ((a - snd m) + ((b - fst m) * fst p + 0 * 0)))\<^sup>2)"
    using ols1_normal [OF ba] unfolding r_def
    by (intro orth_optimal [where fv = "\<lambda>p. 0"]) simp_all
  also have "\<dots> = sse1 ps m"
    by (simp add: sse1_def r_def split_def algebra_simps)
  finally show ?thesis by (simp add: ba sse1_def r_def split_def)
qed

lemma mean_lin: "mean (map (\<lambda>p. A * f p - B * h p) ps) = A * mean (map f ps) - B * mean (map h ps)"
  by (simp add: mean_def sum_list_subtractf sum_list_const_mult diff_divide_distrib)

lemma csum_lin: "csum (\<lambda>p. A * f p - B * h p) g ps = A * csum f g ps - B * csum h g ps"
proof -
  have pt: "(A * f p - B * h p - mean (map (\<lambda>p. A * f p - B * h p) ps)) * (g p - mean (map g ps)) =
              A * ((f p - mean (map f ps)) * (g p - mean (map g ps))) -
              B * ((h p - mean (map h ps)) * (g p - mean (map g ps)))" for p
    by (simp add: mean_lin algebra_simps)
  show ?thesis unfolding csum_def pt sum_list_subtractf sum_list_const_mult ..
qed

lemma csum_gram:
  "csum (\<lambda>p. A * f p - B * h p) (\<lambda>p. A * f p - B * h p) ps =
     A * (A * csum f f ps - B * csum f h ps) - B * (A * csum f h ps - B * csum h h ps)"
proof -
  define k where "k = (\<lambda>p. A * f p - B * h p)"
  have kg: "csum k g ps = A * csum f g ps - B * csum h g ps" for g
    unfolding k_def by (rule csum_lin)
  have "csum k k ps = A * csum k f ps - B * csum k h ps"
    by (simp only: kg [of k] csum_commute [of f k] csum_commute [of h k])
  then show ?thesis by (simp only: kg k_def [symmetric] csum_commute [of h f])
qed

text \<open>Equality in the Cauchy-Schwarz inequality: two centred columns whose Gram
  determinant vanishes are proportional.\<close>

lemma csum_dependent:
  assumes "csum f f ps * csum h h ps = csum f h ps * csum f h ps"
  shows "csum h h ps * csum f g ps = csum f h ps * csum h g ps"
proof -
  have "csum (\<lambda>p. csum h h ps * f p - csum f h ps * h p)
              (\<lambda>p. csum h h ps * f p - csum f h ps * h p) ps = 0"
    unfolding csum_gram using assms by (simp add: algebra_simps)
  then have "csum (\<lambda>p. csum h h ps * f p - csum f h ps * h p) g ps = 0"
    by (rule csum_zero_left)
  then show ?thesis by (simp only: csum_lin right_minus_eq)
qed

lemma lstsq2_normal:
  assumes "lstsq2 suu suv svv tu tv = (bu, bv)" "0 \<le> suu" "0 \<le> svv"
    and "suu = 0 \<Longrightarrow> suv = 0 \<and> tu = 0" and "svv = 0 \<Longrightarrow> tv = 0"
    and "suu * svv = suv * suv \<Longrightarrow> svv * tu = suv * tv \<and> suu * tv = suv * tu"
  shows "bu * suu + bv * suv = tu \<and> bu * suv + bv * svv = tv"
proof (cases "suu * svv - suv * suv \<noteq> 0")
  case True
  define d where "d = suu * svv - suv * suv"
  have d: "d \<noteq> 0" using True by (simp add: d_def)
  have bu: "bu * d = svv * tu - suv * tv" and bv: "bv * d = suu * tv - suv * tu"
    using assms(1) d by (auto simp: lstsq2_def Let_def d_def [symmetric])
  have "(bu * suu + bv * suv) * d = suu * (bu * d) + suv * (bv * d)"
    by (simp add: algebra_simps)
  also have "\<dots> = tu * d" unfolding bu bv by (simp add: d_def algebra_simps)
  finally have 1: "bu * suu + bv * suv = tu" using d by simp
  have "(bu * suv + bv * svv) * d = suv * (bu * d) + svv * (bv * d)"
    by (simp add: algebra_simps)
  also have "\<dots> = tv * d" unfolding bu bv by (simp add: d_def algebra_simps)
  finally have 2: "bu * suv + bv * svv = tv" using d by simp
  from 1 2 show ?thesis ..
next
  case False
  then have dep: "svv * tu = suv * tv" "suu * tv = suv * tu" using assms(6) by auto
  show ?thesis
  proof (cases "suu + svv = 0")
    case True
    then have "suu = 0" "svv = 0" using assms(2,3) by auto
    then show ?thesis using assms(1,4,5) False by (auto simp: lstsq2_def Let_def)
  next
    case tr: False
    have "suu * tu + suv * tv = (suu + svv) * tu" "suv * tu + svv * tv = (suu + svv) * tv"
      using dep by (simp_all add: algebra_simps)
    then have "bu = tu / (suu + svv)" "bv = tv / (suu + svv)"
      using assms(1) False tr by (auto simp: lstsq2_def Let_def power2_eq_square)
    then have tu: "tu = bu * (suu + svv)" and tv: "tv = bv * (suu + svv)" using tr by simp_all
    have "(svv * bu) * (suu + svv) = (suv * bv) * (suu + svv)"
      using dep(1) unfolding tu tv by (simp only: mult.assoc)
    then have 1: "svv * bu = suv * bv" using tr by simp
    have "(suu * bv) * (suu + svv) = (suv * bu) * (suu + svv)"
      using dep(2) unfolding tu tv by (simp only: mult.assoc)
    then have 2: "suu * bv = suv * bu" using tr by simp
    show ?thesis unfolding tu tv using 1 2 by (simp add: algebra_simps)
  qed
qed

lemma ols2_normal:
  assumes "ols2 ps = ((bu, bv), a)"
  shows "(\<Sum>p\<leftarrow>ps. snd p - (a + (bu * fst (fst p) + bv * snd (fst p)))) = 0"
    and "(\<Sum>p\<leftarrow>ps. (snd p - (a + (bu * fst (fst p) + bv * snd (fst p)))) * fst (fst p)) = 0"
    and "(\<Sum>p\<leftarrow>ps. (snd p - (a + (bu * fst (fst p) + bv * snd (fst p)))) * snd (fst p)) = 0"
proof -
  define U where "U = (fst \<circ> fst :: (rat \<times> rat) \<times> rat \<Rightarrow> rat)"
  define V where "V = (snd \<circ> fst :: (rat \<times> rat) \<times> rat \<Rightarrow> rat)"
  have ls: "lstsq2 (csum U U ps) (csum U V ps) (csum V V ps) (csum U snd ps) (csum V snd ps) = (bu, bv)"
    and a: "a = mean (map snd ps) - (bu * mean (map U ps) + bv * mean (map V ps))"
    using assms by (auto simp: ols2_def Let_def U_def V_def split: prod.splits)
  have "bu * csum U U ps + bv * csum U V ps = csum U snd ps \<and>
        bu * csum U V ps + bv * csum V V ps = csum V snd ps"
  proof (rule lstsq2_normal [OF ls csum_self_nonneg csum_self_nonneg])
    show "csum U U ps = 0 \<Longrightarrow> csum U V ps = 0 \<and> csum U snd ps = 0"
      by (simp add: csum_zero_left)
    show "csum V V ps = 0 \<Longrightarrow> csum V snd ps = 0" by (rule csum_zero_left)
    assume d: "csum U U ps * csum V V ps = csum U V ps * csum U V ps"
    then have d': "csum V V ps * csum U U ps = csum V U ps * csum V U ps"
      by (simp add: csum_commute [of V U] mult.commute)
    show "csum V V ps * csum U snd ps = csum U V ps * csum V snd ps \<and>
          csum U U ps * csum V snd ps = csum U V ps * csum U snd ps"
      using csum_dependent [OF d] csum_dependent [OF d'] by (simp add: csum_commute [of V U])
  qed
  then have nu: "csum U snd ps - bu * csum U U ps - bv * csum U V ps = 0"
    and nv: "csum V snd ps - bv * csum V V ps - bu * csum V U ps = 0"
    by (simp_all add: csum_commute [of V U] algebra_simps)
  have a': "a = mean (map snd ps) - (bv * mean (map V ps) + bu * mean (map U ps))"
    using a by simp
  have swap: "snd p - (a + (bv * V p + bu * U p)) = snd p - (a + (bu * U p + bv * V p))" for p
    by simp
  note ru = resid_sums [where g = snd and fu = U and fv = V, OF a]
  note rv = resid_sums(2) [where g = snd and fu = V and fv = U, OF a', unfolded swap]
  show "(\<Sum>p\<leftarrow>ps. snd p - (a + (bu * fst (fst p) + bv * snd (fst p)))) = 0"
    using ru(1) by (simp add: U_def V_def)
  show "(\<Sum>p\<leftarrow>ps. (snd p - (a + (bu * fst (fst p) + bv * snd (fst p)))) * fst (fst p)) = 0"
    using ru(2) nu by (simp add: U_def V_def)
  show "(\<Sum>p\<leftarrow>ps. (snd p - (a + (bu * fst (fst p) + bv * snd (fst p)))) * snd (fst p)) = 0"
    using rv nv by (simp add: U_def V_def)
qed

theorem ols2_least_squares: "sse2 ps (ols2 ps) \<le> sse2 ps m"
proof -
  obtain bu bv a where ba: "ols2 ps = ((bu, bv), a)" by (metis prod.collapse)
  define r where "r p = snd p - (a + (bu * fst (fst p) + bv * snd (fst p)))" for p :: "(rat \<times> rat) \<times> rat"
  have "(\<Sum>p\<leftarrow>ps. (r p)\<^sup>2) \<le>
          (\<Sum>p\<leftarrow>ps. (r p + (a - snd m + ((bu - fst (fst m)) * fst (fst p) +
                                             (bv - snd (fst m)) * snd (fst p))))\<^sup>2)"
    using ols2_normal [OF ba] unfolding r_def by (intro orth_optimal) simp_all
  also have "\<dots> = sse2 ps m"
    by (simp add: sse2_def r_def split_def algebra_simps)
  finally show ?thesis by (simp add: ba sse2_def r_def split_def)
qed

section \<open>The fits as scikit-learn computes them\<close>

lemma those_map_Some [simp]: "those (map Some xs) = Some xs"
  by (induction xs) simp_all

lemma fin_val_comp_Fin [simp]: "fin_val \<circ> Fin = Some"
  by (rule ext) simp

lemma those_fin_val_Some: "those (map fin_val xs) = Some ys \<Longrightarrow> xs = map Fin ys"
proof (induction xs arbitrary: ys)
  case (Cons x xs)
  then show ?case by (cases x) (auto split: option.splits)
qed simp

lemma those_fin_val_NaN: "NaN \<in> set xs \<Longrightarrow> those (map fin_val xs) = None"
  by (induction xs) (auto split: option.splits)

lemma fit_line_Fin:
  "fit_line (map Fin xs) (map Fin ys) = (if xs = [] then None else Some (ols1 (zip xs ys)))"
  by (simp add: fit_line_def)

text \<open>A non-finite cell is a \<open>ValueError\<close>.\<close>

lemma fit_line_NaN: "NaN \<in> set xs \<or> NaN \<in> set ys \<Longrightarrow> fit_line xs ys = None"
  by (auto simp: fit_line_def those_fin_val_NaN split: option.splits)

lemma mean_affine: "ps \<noteq> [] \<Longrightarrow> mean (map (\<lambda>p. a + b * f p) ps) = a + b * mean (map f ps)"
  by (simp add: mean_def sum_list_addf sum_list_const_mult add_divide_distrib sum_list_triv)

lemma csum_cong:
  "(\<And>p. p \<in> set ps \<Longrightarrow> g p = g' p) \<Longrightarrow> csum f g ps = csum f g' ps"
  unfolding csum_def by (simp cong: map_cong)

lemma csum_affine: "csum f (\<lambda>p. a + b * h p) ps = b * csum f h ps"
proof (cases "ps = []")
  case False
  have pt: "(f p - mean (map f ps)) * (a + b * h p - mean (map (\<lambda>p. a + b * h p) ps)) =
          b * ((f p - mean (map f ps)) * (h p - mean (map h ps)))" for p
    by (simp add: mean_affine [OF False] algebra_simps)
  show ?thesis unfolding csum_def sum_list_const_mult [symmetric] pt ..
qed (simp add: csum_def)

text \<open>On points that lie on a line that is not vertical, the fit is that line.\<close>

theorem ols1_exact:
  assumes "\<And>p. p \<in> set ps \<Longrightarrow> snd p = a + b * fst p" "csum fst fst ps \<noteq> 0"
  shows "ols1 ps = (b, a)"
proof -
  have ne: "ps \<noteq> []" using assms(2) by (auto simp: csum_def)
  have "csum fst snd ps = b * csum fst fst ps"
    using csum_cong [of ps snd "\<lambda>p. a + b * fst p" fst] assms(1) csum_affine by simp
  moreover have "mean (map snd ps) = a + b * mean (map fst ps)"
    using mean_affine [OF ne, of a b fst] assms(1) by (simp cong: map_cong)
  ultimately show ?thesis using assms(2) by (simp add: ols1_def Let_def)
qed

lemma fit_plane_Fin:
  assumes "length us = length vs"
  shows "fit_plane (zip (map Fin us) (map Fin vs)) (map Fin ys) =
           (if us = [] then None else Some (ols2 (zip (zip us vs) ys)))"
proof -
  have "map (fin_val \<circ> fst) (zip (map Fin us) (map Fin vs)) = map Some us"
    "map (fin_val \<circ> snd) (zip (map Fin us) (map Fin vs)) = map Some vs"
    using assms by (simp_all only: map_map [symmetric] map_fst_zip map_snd_zip length_map)
      (simp_all add: map_map)
  moreover have "vs = [] \<longleftrightarrow> us = []" using assms by auto
  ultimately show ?thesis using assms by (simp add: fit_plane_def)
qed

section \<open>\<open>R^2\<close> and the squared error\<close>

lemma r2_score_sse2:
  assumes "2 \<le> length ps"
  shows "r2_score (map snd ps) (map (predict_plane m \<circ> fst) ps) =
           Fin (r2_value (sse2 ps m) (sse2 ps ((0, 0), mean (map snd ps))))"
proof -
  have "zip (map snd ps) (map (predict_plane m \<circ> fst) ps) = map (\<lambda>p. (snd p, predict_plane m (fst p))) ps"
    by (simp add: zip_map_map zip_same_conv_map)
  then show ?thesis using assms
    by (simp add: r2_score_def sse2_def predict_plane_def split_def comp_def algebra_simps)
qed

text \<open>A smaller \<open>R^2\<close> on the same target means a larger squared error.\<close>

lemma r2_value_mono:
  assumes "0 \<le> n1" "0 \<le> n2" "n2 \<le> den" "r2_value n2 den \<le> r2_value n1 den"
  shows "n1 \<le> n2"
proof (cases "den = 0")
  case True
  then show ?thesis using assms by (auto simp: r2_value_def split: if_splits)
next
  case False
  then have "0 < den" using assms(2,3) by simp
  moreover have "n1 / den \<le> n2 / den" using assms(4) False by (simp add: r2_value_def)
  ultimately show ?thesis by (simp add: divide_le_cancel)
qed

lemma sse2_nonneg: "0 \<le> sse2 ps m"
  unfolding sse2_def by (rule sum_list_nonneg) auto

section \<open>\<open>max\<close> with a key\<close>

lemma foldl_max:
  assumes "\<forall>x \<in> insert m (set ys). k x \<noteq> NaN" "\<forall>x \<in> S. \<not> flt (k m) (k x)"
  shows "foldl (\<lambda>m y. if flt (k m) (k y) then y else m) m ys \<in> insert m (set ys) \<and>
         (\<forall>x \<in> S \<union> insert m (set ys). \<not> flt (k (foldl (\<lambda>m y. if flt (k m) (k y) then y else m) m ys)) (k x))"
  using assms
proof (induction ys arbitrary: m S)
  case Nil
  then show ?case by (simp add: flt_def)
next
  case (Cons y ys)
  let ?m' = "if flt (k m) (k y) then y else m"
  have "\<forall>x \<in> S \<union> {m, y}. \<not> flt (k ?m') (k x)"
    using Cons.prems by (auto simp: flt_def)
  then have "foldl (\<lambda>m y. if flt (k m) (k y) then y else m) ?m' ys \<in> insert ?m' (set ys) \<and>
        (\<forall>x \<in> (S \<union> {m, y}) \<union> insert ?m' (set ys).
           \<not> flt (k (foldl (\<lambda>m y. if flt (k m) (k y) then y else m) ?m' ys)) (k x))"
    using Cons.prems by (intro Cons.IH) auto
  then show ?case by auto
qed

lemma py_max_Some:
  assumes "py_max k xs = Some m" "\<forall>x \<in> set xs. k x \<noteq> NaN"
  shows "m \<in> set xs" "\<forall>x \<in> set xs. \<not> flt (k m) (k x)"
proof -
  obtain x ys where xs: "xs = x # ys" and m: "m = foldl (\<lambda>m y. if flt (k m) (k y) then y else m) x ys"
    using assms(1) by (auto simp: py_max_def split: list.splits)
  have "m \<in> insert x (set ys) \<and> (\<forall>z \<in> {} \<union> insert x (set ys). \<not> flt (k m) (k z))"
    unfolding m using assms(2) xs by (intro foldl_max) auto
  then show "m \<in> set xs" "\<forall>x \<in> set xs. \<not> flt (k m) (k x)" using xs by auto
qed

end
