(* ===== verification/Recalibration.thy ===== *)
theory Recalibration
  imports Calibration Least_Squares
begin

text \<open>
  The regression-based calibration scripts, which fit the three phase times of the
  worker-mode runs with \<open>sklearn.linear_model.LinearRegression\<close>:
  \<^item> \<open>src/docs/speed_tests/recalibrate_constants.py\<close>: one line per phase
    (\<open>calibrate_phase1\<close>, \<open>calibrate_phase2\<close>, \<open>calibrate_phase3\<close>) and
    \<open>test_calibrated_formula\<close>;
  \<^item> \<open>src/docs/plans/Bookkeeper/speed_tests/verified_calibration.py\<close>: for phases 1
    and 3 the model with the highest \<open>R^2\<close> among the file count, the unique-file size
    and both (\<open>calibrate_with_verified_data\<close>, \<open>test_calibrated_models\<close>);
  \<^item> \<open>src/docs/speed_tests/size_aware_calibration.py\<close>: the same choice
    (\<open>calibrate_mixed_model\<close>, \<open>test_mixed_formula\<close>) after a listing that converts
    every run's counts with \<open>int(...)\<close> (\<open>analyze_size_relationships\<close>).
  The table is the merged table of \<open>Calibration\<close> with the column
  \<open>uniqueFilesSizeMB\<close>; its worker rows keep their labels, so the Series arithmetic
  between them and the prediction frame aligns as in \<open>test_robust_formula\<close>.
\<close>

section \<open>The merged table with file sizes\<close>

record size_row = calib_row +
  cal_unique_size :: pyfloat

text \<open>\<open>df[name].values\<close> of the labelled worker rows.\<close>

definition col :: "('r \<Rightarrow> pyfloat) \<Rightarrow> (nat \<times> 'r) list \<Rightarrow> pyfloat list" where
  "col f df = map (f \<circ> snd) df"

text \<open>\<open>df[df['duplicateCandidateCount'] > 0]\<close>.\<close>

definition candidate_rows :: "(nat \<times> 'a calib_row_scheme) list \<Rightarrow> (nat \<times> 'a calib_row_scheme) list" where
  "candidate_rows df = filter (\<lambda>(l, r). fgt (cal_dups r) 0) df"

text \<open>\<open>results[f'..._{col}'] = pred_df[col]\<close>: the column of the prediction frame
  (labels \<open>0, 1, ...\<close>) assigned to the worker rows by label.\<close>

definition aligned_column :: "(nat \<times> 'r) list \<Rightarrow> pyfloat list \<Rightarrow> pyfloat list" where
  "aligned_column df vs = map (\<lambda>(l, r). if l < length vs then vs ! l else NaN) df"

text \<open>\<open>100 - abs(total_errors / df['totalDurationMs']) * 100\<close>, aligned on labels.\<close>

definition aligned_rel_accuracy ::
  "(nat \<times> 'a calib_row_scheme) list \<Rightarrow> (nat \<times> pyfloat) list \<Rightarrow> (nat \<times> pyfloat) list" where
  "aligned_rel_accuracy df errs =
     map (\<lambda>(l, e). (l, case map_of df l of
                          Some r \<Rightarrow> fsub (Fin 100) (fscale (fabs (fdivf e (cal_total r))) 100)
                        | None \<Rightarrow> NaN)) errs"

record phase_prediction =
  pp_phase1 :: pyfloat
  pp_phase2 :: pyfloat
  pp_phase3 :: pyfloat

text \<open>\<open>phase1_pred + phase2_pred + phase3_pred\<close>.\<close>

definition pp_total :: "phase_prediction \<Rightarrow> pyfloat" where
  "pp_total p = fadd (fadd (pp_phase1 p) (pp_phase2 p)) (pp_phase3 p)"

record formula_report =
  fr_predictions :: "phase_prediction list"
  fr_errors :: "(nat \<times> pyfloat) list"
  fr_accuracy :: "(nat \<times> pyfloat) list"
  fr_mean_accuracy :: pyfloat
  fr_median_accuracy :: pyfloat
  fr_mean_abs_error :: pyfloat

text \<open>The statistics the test functions print, over the aligned Series.\<close>

definition formula_report :: "phase_prediction list \<Rightarrow> (nat \<times> pyfloat) list \<Rightarrow> (nat \<times> pyfloat) list \<Rightarrow> formula_report" where
  "formula_report preds errs accs =
     \<lparr>fr_predictions = preds, fr_errors = errs, fr_accuracy = accs,
      fr_mean_accuracy = series_mean (map snd accs),
      fr_median_accuracy = series_median (map snd accs),
      fr_mean_abs_error = series_mean (map (fabs \<circ> snd) errs)\<rparr>"

section \<open>\<open>recalibrate_constants.py\<close>\<close>

definition calibrate_phase1 :: "(nat \<times> size_row) list \<Rightarrow> (rat \<times> rat) option" where
  "calibrate_phase1 df = fit_line (col cal_files df) (col cal_phase1 df)"

text \<open>The fallback \<open>(4.0, 0.0)\<close> when no run has duplicate candidates.\<close>

definition calibrate_phase2 :: "(nat \<times> size_row) list \<Rightarrow> (rat \<times> rat) option" where
  "calibrate_phase2 df =
     (let valid_df = candidate_rows df in
      if length valid_df = 0 then Some (4, 0)
      else fit_line (col cal_dups valid_df) (col cal_phase2 valid_df))"

definition calibrate_phase3 :: "(nat \<times> size_row) list \<Rightarrow> (rat \<times> rat) option" where
  "calibrate_phase3 df = fit_line (col cal_files df) (col cal_phase3 df)"

record recal_constants =
  rc_phase1_file :: rat
  rc_phase1_base :: rat
  rc_phase2_candidate :: rat
  rc_phase2_base :: rat
  rc_phase3_file :: rat
  rc_phase3_base :: rat

text \<open>\<open>base + (row[...] * constant)\<close>.\<close>

definition affine :: "rat \<Rightarrow> pyfloat \<Rightarrow> rat \<Rightarrow> pyfloat" where
  "affine base x k = fadd (Fin base) (fmul x (Fin k))"

definition recal_prediction :: "recal_constants \<Rightarrow> size_row \<Rightarrow> phase_prediction" where
  "recal_prediction c r =
     \<lparr>pp_phase1 = affine (rc_phase1_base c) (cal_files r) (rc_phase1_file c),
      pp_phase2 = affine (rc_phase2_base c) (cal_dups r) (rc_phase2_candidate c),
      pp_phase3 = affine (rc_phase3_base c) (cal_files r) (rc_phase3_file c)\<rparr>"

text \<open>
  \<open>test_calibrated_formula\<close>: \<open>None\<close> for an empty table (the prediction frame has no
  column \<open>predicted_total\<close>) and where the detail loop's \<open>int(...)\<close> of the actual
  duration, the prediction or the run number raises.
\<close>

definition test_calibrated_formula :: "(nat \<times> size_row) list \<Rightarrow> recal_constants \<Rightarrow> formula_report option" where
  "test_calibrated_formula df c =
     (let preds = map (recal_prediction c \<circ> snd) df;
          errs = aligned_errors df (map pp_total preds);
          accs = aligned_rel_accuracy df errs in
      if df = [] then None
      else if \<not> list_all (\<lambda>((l, r), p). int_ok (cal_total r) \<and> int_ok (pp_total p) \<and> int_ok (cal_run r))
                         (zip df preds)
      then None
      else Some (formula_report preds errs accs))"

text \<open>\<open>main\<close>: the constants, the test and the saved column \<open>calibrated_predicted_total\<close>.\<close>

definition recalibrate :: "size_row list \<Rightarrow> (recal_constants \<times> formula_report \<times> pyfloat list) option" where
  "recalibrate merged =
     (let df = labelled_workers merged in
      do {
        (p1f, p1b) \<leftarrow> calibrate_phase1 df;
        (p2c, p2b) \<leftarrow> calibrate_phase2 df;
        (p3f, p3b) \<leftarrow> calibrate_phase3 df;
        let c = \<lparr>rc_phase1_file = p1f, rc_phase1_base = p1b, rc_phase2_candidate = p2c,
                 rc_phase2_base = p2b, rc_phase3_file = p3f, rc_phase3_base = p3b\<rparr>;
        rep \<leftarrow> test_calibrated_formula df c;
        Some (c, rep, aligned_column df (map pp_total (fr_predictions rep)))
      })"

section \<open>Model choice by \<open>R^2\<close>\<close>

datatype fitted = Count "rat \<times> rat" | Size "rat \<times> rat" | Combined "(rat \<times> rat) \<times> rat"

text \<open>\<open>model.intercept_ + model.coef_[0] * row[...] (+ model.coef_[1] * row[...])\<close>.\<close>

fun fitted_predict :: "fitted \<Rightarrow> size_row \<Rightarrow> pyfloat" where
  "fitted_predict (Count (b, a)) r = fadd (Fin a) (fmul (Fin b) (cal_files r))"
| "fitted_predict (Size (b, a)) r = fadd (Fin a) (fmul (Fin b) (cal_unique_size r))"
| "fitted_predict (Combined ((b1, b2), a)) r =
     fadd (fadd (Fin a) (fmul (Fin b1) (cal_files r))) (fmul (Fin b2) (cal_unique_size r))"

text \<open>The three fits of one phase, in the order the scripts list them, each with its
  \<open>r2_score(y, model.predict(X))\<close>; \<open>None\<close> where a fit raises.\<close>

definition phase_fits :: "(nat \<times> size_row) list \<Rightarrow> (size_row \<Rightarrow> pyfloat) \<Rightarrow> (fitted \<times> pyfloat) list option" where
  "phase_fits df y =
     do {
       mc \<leftarrow> fit_line (col cal_files df) (col y df);
       ms \<leftarrow> fit_line (col cal_unique_size df) (col y df);
       mb \<leftarrow> fit_plane (zip (col cal_files df) (col cal_unique_size df)) (col y df);
       fs \<leftarrow> those (map fin_val (col cal_files df));
       ss \<leftarrow> those (map fin_val (col cal_unique_size df));
       ys \<leftarrow> those (map fin_val (col y df));
       Some [(Count mc, r2_score ys (map (predict_line mc) fs)),
             (Size ms, r2_score ys (map (predict_line ms) ss)),
             (Combined mb, r2_score ys (map (predict_plane mb) (zip fs ss)))]
     }"

text \<open>The phase-2 fit on the runs with duplicate candidates, or none.\<close>

definition phase2_fit :: "(nat \<times> size_row) list \<Rightarrow> ((rat \<times> rat) \<times> pyfloat) option option" where
  "phase2_fit df =
     (let valid_df = candidate_rows df in
      if 0 < length valid_df then
        do {
          m \<leftarrow> fit_line (col cal_dups valid_df) (col cal_phase2 valid_df);
          ds \<leftarrow> those (map fin_val (col cal_dups valid_df));
          ys \<leftarrow> those (map fin_val (col cal_phase2 valid_df));
          Some (Some (m, r2_score ys (map (predict_line m) ds)))
        }
      else Some None)"

record chosen_models =
  cm_phase1 :: "fitted \<times> pyfloat"
  cm_phase2 :: "((rat \<times> rat) \<times> pyfloat) option"
  cm_phase3 :: "fitted \<times> pyfloat"

text \<open>\<open>calibrate_with_verified_data\<close> and \<open>calibrate_mixed_model\<close>: \<open>max(..., key=r2)\<close>
  over the three fits of phases 1 and 3.\<close>

definition choose_models :: "(nat \<times> size_row) list \<Rightarrow> chosen_models option" where
  "choose_models df =
     do {
       fits1 \<leftarrow> phase_fits df cal_phase1;
       best1 \<leftarrow> py_max snd fits1;
       m2 \<leftarrow> phase2_fit df;
       fits3 \<leftarrow> phase_fits df cal_phase3;
       best3 \<leftarrow> py_max snd fits3;
       Some \<lparr>cm_phase1 = best1, cm_phase2 = m2, cm_phase3 = best3\<rparr>
     }"

text \<open>The predictions of the chosen models, with \<open>row['duplicateCandidateCount'] * fallback\<close>
  for phase 2 when it has no model.\<close>

definition chosen_prediction :: "rat \<Rightarrow> chosen_models \<Rightarrow> size_row \<Rightarrow> phase_prediction" where
  "chosen_prediction fallback m r =
     \<lparr>pp_phase1 = fitted_predict (fst (cm_phase1 m)) r,
      pp_phase2 = (case cm_phase2 m of
                     Some ((b, a), _) \<Rightarrow> fadd (Fin a) (fmul (Fin b) (cal_dups r))
                   | None \<Rightarrow> fmul (cal_dups r) (Fin fallback)),
      pp_phase3 = fitted_predict (fst (cm_phase3 m)) r\<rparr>"

text \<open>The plane \<open>intercept + b1 * files + b2 * size\<close> a fitted model predicts with.\<close>

fun fitted_plane :: "fitted \<Rightarrow> (rat \<times> rat) \<times> rat" where
  "fitted_plane (Count (b, a)) = ((b, 0), a)"
| "fitted_plane (Size (b, a)) = ((0, b), a)"
| "fitted_plane (Combined m) = m"

section \<open>\<open>verified_calibration.py\<close>\<close>

text \<open>
  \<open>test_calibrated_models\<close>: fallback \<open>5.0\<close>, accuracy \<open>100 - abs(error) / actual * 100\<close>;
  the detail loop converts the run number, the counts, the actual duration, the
  prediction and the \<open>i\<close>-th aligned error with \<open>int(...)\<close>.
\<close>

definition test_calibrated_models :: "(nat \<times> size_row) list \<Rightarrow> chosen_models \<Rightarrow> formula_report option" where
  "test_calibrated_models df m =
     (let preds = map (chosen_prediction 5 m \<circ> snd) df;
          errs = aligned_errors df (map pp_total preds);
          accs = aligned_accuracy df errs in
      if df = [] then None
      else if \<not> list_all (\<lambda>((l, r), p, e). row_printable r \<and> int_ok (cal_total r) \<and>
                                          int_ok (pp_total p) \<and> int_ok e)
                         (zip df (zip preds (map snd errs)))
      then None
      else Some (formula_report preds errs accs))"

definition verified_calibration :: "size_row list \<Rightarrow> (chosen_models \<times> formula_report \<times> pyfloat list) option" where
  "verified_calibration merged =
     (let df = labelled_workers merged in
      do {
        models \<leftarrow> choose_models df;
        rep \<leftarrow> test_calibrated_models df models;
        Some (models, rep, aligned_column df (map pp_total (fr_predictions rep)))
      })"

section \<open>\<open>size_aware_calibration.py\<close>\<close>

text \<open>\<open>analyze_size_relationships\<close> lists every run with \<open>int(...)\<close> of its run number,
  counts and duration.\<close>

definition size_listing_ok :: "(nat \<times> size_row) list \<Rightarrow> bool" where
  "size_listing_ok df = list_all (\<lambda>(l, r). row_printable r \<and> int_ok (cal_total r)) df"

text \<open>\<open>test_mixed_formula\<close>: fallback \<open>4.843\<close>, accuracy \<open>100 - abs(error / actual) * 100\<close>;
  the detail loop converts the actual duration, the prediction and the run number.\<close>

definition test_mixed_formula :: "(nat \<times> size_row) list \<Rightarrow> chosen_models \<Rightarrow> formula_report option" where
  "test_mixed_formula df m =
     (let preds = map (chosen_prediction (4843 / 1000) m \<circ> snd) df;
          errs = aligned_errors df (map pp_total preds);
          accs = aligned_rel_accuracy df errs in
      if df = [] then None
      else if \<not> list_all (\<lambda>((l, r), p). int_ok (cal_total r) \<and> int_ok (pp_total p) \<and> int_ok (cal_run r))
                         (zip df preds)
      then None
      else Some (formula_report preds errs accs))"

definition size_aware_calibration :: "size_row list \<Rightarrow> (chosen_models \<times> formula_report \<times> pyfloat list) option" where
  "size_aware_calibration merged =
     (let df = labelled_workers merged in
      if \<not> size_listing_ok df then None
      else do {
        models \<leftarrow> choose_models df;
        rep \<leftarrow> test_mixed_formula df models;
        Some (models, rep, aligned_column df (map pp_total (fr_predictions rep)))
      })"

text \<open>A worker run whose phase times follow the constants \<open>c\<close> exactly, whose
  total is the sum of its phases and not zero, and whose printed cells are finite.\<close>

definition linear_run :: "recal_constants \<Rightarrow> size_row \<Rightarrow> bool" where
  "linear_run c r =
     (case (cal_files r, cal_dups r, cal_run r, cal_phase1 r, cal_phase2 r, cal_phase3 r, cal_total r) of
        (Fin f, Fin n, Fin _, Fin p1, Fin p2, Fin p3, Fin t) \<Rightarrow>
          p1 = rc_phase1_base c + f * rc_phase1_file c \<and>
          p2 = rc_phase2_base c + n * rc_phase2_candidate c \<and>
          p3 = rc_phase3_base c + f * rc_phase3_file c \<and> t = p1 + p2 + p3 \<and> t \<noteq> 0
      | _ \<Rightarrow> False)"

text \<open>Sample worker runs with file sizes, and constants they follow.\<close>

definition sample_sizes :: "size_row list" where
  "sample_sizes =
     [\<lparr>cal_run = Fin 1, cal_files = Fin 1, cal_dups = Fin 1, cal_dup_size_mb = Fin 1,
       cal_total_size_mb = Fin 2, cal_avg_depth = Fin 1, cal_unique_total = Fin 1,
       cal_phase1 = Fin 12, cal_phase2 = Fin 8, cal_phase3 = Fin 2, cal_total = Fin 22,
       cal_worker = True, cal_unique_size = Fin 1\<rparr>,
      \<lparr>cal_run = Fin 2, cal_files = Fin 2, cal_dups = Fin 2, cal_dup_size_mb = Fin 1,
       cal_total_size_mb = Fin 3, cal_avg_depth = Fin 1, cal_unique_total = Fin 2,
       cal_phase1 = Fin 14, cal_phase2 = Fin 11, cal_phase3 = Fin 3, cal_total = Fin 28,
       cal_worker = True, cal_unique_size = Fin 2\<rparr>,
      \<lparr>cal_run = Fin 3, cal_files = Fin 4, cal_dups = Fin 0, cal_dup_size_mb = Fin 0,
       cal_total_size_mb = Fin 4, cal_avg_depth = Fin 2, cal_unique_total = Fin 4,
       cal_phase1 = Fin 18, cal_phase2 = Fin 5, cal_phase3 = Fin 5, cal_total = Fin 28,
       cal_worker = True, cal_unique_size = Fin 5\<rparr>]"

definition sample_constants :: recal_constants where
  "sample_constants =
     \<lparr>rc_phase1_file = 2, rc_phase1_base = 10, rc_phase2_candidate = 3, rc_phase2_base = 5,
      rc_phase3_file = 1, rc_phase3_base = 1\<rparr>"

section \<open>Lemmas\<close>

lemma labelled_workers_snd: "map snd (labelled_workers merged) = filter cal_worker merged"
proof -
  have "map snd (filter (\<lambda>(l, r). P r) (enumerate k xs)) = filter P xs" for P k and xs :: "'b list"
    by (induction xs arbitrary: k) auto
  then show ?thesis by (simp add: labelled_workers_def)
qed

lemma candidate_rows_snd: "map snd (candidate_rows df) = filter (\<lambda>r. fgt (cal_dups r) 0) (map snd df)"
  by (induction df) (auto simp: candidate_rows_def)

lemma col_snd: "col f df = map f (map snd df)"
  by (simp add: col_def)

text \<open>A line through points whose abscissae are not all equal is fitted exactly.\<close>

lemma fit_line_exact:
  assumes "\<forall>r \<in> set rs. fx r = Fin (X r) \<and> fy r = Fin (b + X r * k)"
    and "\<not> list_all (\<lambda>r. fx r = fx (hd rs)) rs"
  shows "fit_line (map fx rs) (map fy rs) = Some (k, b)"
proof -
  have ne: "rs \<noteq> []" using assms(2) by auto
  have mx: "map fx rs = map Fin (map X rs)" and my: "map fy rs = map Fin (map (\<lambda>r. b + X r * k) rs)"
    using assms(1) by simp_all
  let ?ps = "zip (map X rs) (map (\<lambda>r. b + X r * k) rs)"
  have zm: "?ps = map (\<lambda>r. (X r, b + X r * k)) rs" by (simp add: zip_map_map zip_same_conv_map)
  have "csum fst fst ?ps \<noteq> 0"
  proof
    assume z: "csum fst fst ?ps = 0"
    have "X r = X (hd rs)" if "r \<in> set rs" for r
    proof -
      have "(X r, b + X r * k) \<in> set ?ps" "(X (hd rs), b + X (hd rs) * k) \<in> set ?ps"
        using that ne unfolding zm by auto
      from csum_self_zero [OF z this(1)] csum_self_zero [OF z this(2)] show ?thesis
        unfolding fst_conv by (rule trans [OF _ sym])
    qed
    then have "list_all (\<lambda>r. fx r = fx (hd rs)) rs"
      unfolding list_all_iff using assms(1) hd_in_set [OF ne] by metis
    then show False using assms(2) by (rule notE [rotated])
  qed
  moreover have "snd p = b + k * fst p" if p: "p \<in> set ?ps" for p
  proof -
    obtain r where "p = (X r, b + X r * k)" using p unfolding zm by auto
    then show ?thesis by (simp add: mult.commute)
  qed
  ultimately have "ols1 ?ps = (k, b)" using ols1_exact by blast
  then show ?thesis unfolding mx my fit_line_Fin using ne by simp
qed

lemma length_col [simp]: "length (col f df) = length df"
  by (simp add: col_def)

text \<open>The three fits of a phase on finite columns, and their \<open>R^2\<close> as a function of
  their squared errors.\<close>

lemma phase_fits_Fin:
  assumes "col cal_files df = map Fin fs" "col cal_unique_size df = map Fin ss" "col y df = map Fin ys"
    and "df \<noteq> []"
  shows "phase_fits df y =
           Some [(Count (ols1 (zip fs ys)), r2_score ys (map (predict_line (ols1 (zip fs ys))) fs)),
                 (Size (ols1 (zip ss ys)), r2_score ys (map (predict_line (ols1 (zip ss ys))) ss)),
                 (Combined (ols2 (zip (zip fs ss) ys)),
                    r2_score ys (map (predict_plane (ols2 (zip (zip fs ss) ys))) (zip fs ss)))]"
proof -
  have len: "length fs = length df" "length ss = length df" "length ys = length df"
    using arg_cong [OF assms(1), of length] arg_cong [OF assms(2), of length]
      arg_cong [OF assms(3), of length] by simp_all
  then have "fs \<noteq> []" "ss \<noteq> []" using assms(4) by auto
  then show ?thesis
    using len by (simp add: phase_fits_def assms(1-3) fit_line_Fin fit_plane_Fin)
qed

lemma fitted_plane_line [simp]:
  "fitted_plane (Count m) = ((fst m, 0), snd m)" "fitted_plane (Size m) = ((0, fst m), snd m)"
  by (cases m; simp)+

lemma map_predict_line:
  assumes "length fs = length ss"
  shows "map (predict_line m) fs = map (predict_plane ((fst m, 0), snd m)) (zip fs ss)"
    and "map (predict_line m) ss = map (predict_plane ((0, fst m), snd m)) (zip fs ss)"
  using assms by (induction fs ss rule: list_induct2) (simp_all add: predict_line_def predict_plane_def)

lemma r2_fitted:
  assumes "length fs = length ys" "length ss = length ys" "2 \<le> length ys"
    and "F \<in> {Count (ols1 (zip fs ys)), Size (ols1 (zip ss ys)), Combined (ols2 (zip (zip fs ss) ys))}"
  shows "r2_score ys (case F of Count m \<Rightarrow> map (predict_line m) fs | Size m \<Rightarrow> map (predict_line m) ss
                      | Combined m \<Rightarrow> map (predict_plane m) (zip fs ss)) =
         Fin (r2_value (sse2 (zip (zip fs ss) ys) (fitted_plane F))
                       (sse2 (zip (zip fs ss) ys) ((0, 0), mean ys)))"
proof -
  define ps where "ps = zip (zip fs ss) ys"
  have ys: "map snd ps = ys" and xs: "map fst ps = zip fs ss"
    using assms(1,2) by (simp_all add: ps_def)
  have "(case F of Count m \<Rightarrow> map (predict_line m) fs | Size m \<Rightarrow> map (predict_line m) ss
                | Combined m \<Rightarrow> map (predict_plane m) (zip fs ss)) =
        map (predict_plane (fitted_plane F) \<circ> fst) ps"
    using assms(1,2,4) map_predict_line [of fs ss "ols1 (zip fs ys)"]
      map_predict_line [of fs ss "ols1 (zip ss ys)"] by (auto simp: ps_def simp flip: map_map)
  then show ?thesis
    using r2_score_sse2 [of ps "fitted_plane F"] assms(1-3) ys by (simp add: ps_def)
qed

lemma linear_run_cells:
  "linear_run c r =
     (\<exists>f n u t. cal_files r = Fin f \<and> cal_dups r = Fin n \<and> cal_run r = Fin u \<and>
        cal_phase1 r = Fin (rc_phase1_base c + f * rc_phase1_file c) \<and>
        cal_phase2 r = Fin (rc_phase2_base c + n * rc_phase2_candidate c) \<and>
        cal_phase3 r = Fin (rc_phase3_base c + f * rc_phase3_file c) \<and>
        cal_total r = Fin t \<and> t \<noteq> 0 \<and>
        t = (rc_phase1_base c + f * rc_phase1_file c) + (rc_phase2_base c + n * rc_phase2_candidate c)
            + (rc_phase3_base c + f * rc_phase3_file c))"
  by (auto simp: linear_run_def split: pyfloat.split)

lemma linear_run_prediction:
  assumes "linear_run c r"
  shows "pp_total (recal_prediction c r) = cal_total r"
  using assms by (auto simp: linear_run_cells recal_prediction_def pp_total_def affine_def mult.commute)

lemma labelled_workers_all: "list_all cal_worker rs \<Longrightarrow> labelled_workers rs = enumerate 0 rs"
  by (auto simp: labelled_workers_def list_all_iff in_set_enumerate_eq intro!: filter_True)

lemma col_enumerate [simp]: "col f (enumerate k rs) = map f rs"
  by (simp add: col_def flip: map_map)

lemma map_of_enumerate:
  "map_of (enumerate k xs) l = (if k \<le> l \<and> l < k + length xs then Some (xs ! (l - k)) else None)"
  by (induction xs arbitrary: k) (auto simp: nth_Cons')

lemma union_index_upt [simp]: "union_index [0..<n] n = [0..<n]"
  by (simp add: union_index_def remdups_append)

lemma aligned_errors_enumerate:
  assumes "length vs = length rs"
  shows "aligned_errors (enumerate 0 rs) vs = map (\<lambda>i. (i, fsub (cal_total (rs ! i)) (vs ! i))) [0..<length rs]"
  using assms by (simp add: aligned_errors_def map_of_enumerate)

lemma aligned_column_enumerate:
  assumes "length vs = length rs"
  shows "aligned_column (enumerate 0 rs) vs = vs"
  using assms by (auto simp: aligned_column_def enumerate_eq_zip intro!: nth_equalityI)

lemma linear_run_phase_fits:
  assumes "list_all (linear_run c) rs"
  shows "\<forall>r \<in> set rs. cal_files r = Fin (the (fin_val (cal_files r))) \<and>
           cal_phase1 r = Fin (rc_phase1_base c + the (fin_val (cal_files r)) * rc_phase1_file c)"
    and "\<forall>r \<in> set rs. cal_files r = Fin (the (fin_val (cal_files r))) \<and>
           cal_phase3 r = Fin (rc_phase3_base c + the (fin_val (cal_files r)) * rc_phase3_file c)"
    and "\<forall>r \<in> set rs. cal_dups r = Fin (the (fin_val (cal_dups r))) \<and>
           cal_phase2 r = Fin (rc_phase2_base c + the (fin_val (cal_dups r)) * rc_phase2_candidate c)"
  using assms by (auto simp: list_all_iff linear_run_cells)

text \<open>
  C23: the phase-1 model that \<open>verified_calibration.py\<close> and
  \<open>size_aware_calibration.py\<close> keep, the first of the count, size and combined fits with
  the highest \<open>R^2\<close>, has a squared error on the worker runs no larger than that of any
  line \<open>a + b1 * totalFiles + b2 * uniqueFilesSizeMB\<close>: choosing by \<open>R^2\<close> on the
  fitted data is choosing the least-squares plane.
\<close>

theorem chosen_phase1_least_squares:
  assumes "choose_models df = Some m" "2 \<le> length df"
    and "col cal_files df = map Fin fs" "col cal_unique_size df = map Fin ss"
    and "col cal_phase1 df = map Fin ys"
  shows "sse2 (zip (zip fs ss) ys) (fitted_plane (fst (cm_phase1 m))) \<le> sse2 (zip (zip fs ss) ys) q"
proof -
  define ps where "ps = zip (zip fs ss) ys"
  define den where "den = sse2 ps ((0, 0), mean ys)"
  have len: "length fs = length ys" "length ss = length ys" "length ys = length df"
    using arg_cong [OF assms(3), of length] arg_cong [OF assms(4), of length]
      arg_cong [OF assms(5), of length] by simp_all
  have ne: "df \<noteq> []" using assms(2) by auto
  let ?r2 = "\<lambda>F. Fin (r2_value (sse2 ps (fitted_plane F)) den)"
  have fits: "phase_fits df cal_phase1 =
      Some [(Count (ols1 (zip fs ys)), ?r2 (Count (ols1 (zip fs ys)))),
            (Size (ols1 (zip ss ys)), ?r2 (Size (ols1 (zip ss ys)))),
            (Combined (ols2 ps), ?r2 (Combined (ols2 ps)))]"
    using phase_fits_Fin [OF assms(3-5) ne] assms(2) len
      r2_fitted [of fs ys ss "Count (ols1 (zip fs ys))"] r2_fitted [of fs ys ss "Size (ols1 (zip ss ys))"]
      r2_fitted [of fs ys ss "Combined (ols2 (zip (zip fs ss) ys))"]
    by (simp add: ps_def den_def)
  then obtain best where best: "py_max snd [(Count (ols1 (zip fs ys)), ?r2 (Count (ols1 (zip fs ys)))),
            (Size (ols1 (zip ss ys)), ?r2 (Size (ols1 (zip ss ys)))),
            (Combined (ols2 ps), ?r2 (Combined (ols2 ps)))] = Some best" "cm_phase1 m = best"
    using assms(1) by (auto simp: choose_models_def split: Option.bind_splits)
  note mx = py_max_Some [OF best(1)]
  obtain F where F: "best = (F, ?r2 F)" "sse2 ps (fitted_plane F) \<ge> 0"
    using mx(1) by (auto simp: sse2_nonneg)
  have "\<not> flt (?r2 F) (?r2 (Combined (ols2 ps)))"
    using mx(2) F(1) by auto
  then have r: "r2_value (sse2 ps (ols2 ps)) den \<le> r2_value (sse2 ps (fitted_plane F)) den"
    by (simp add: flt_def)
  have d: "sse2 ps (ols2 ps) \<le> den" unfolding den_def by (rule ols2_least_squares)
  have "sse2 ps (fitted_plane F) \<le> sse2 ps (ols2 ps)"
    by (rule r2_value_mono [OF F(2) sse2_nonneg d r])
  also have "\<dots> \<le> sse2 ps q" by (rule ols2_least_squares)
  finally show ?thesis using best(2) F(1) by (simp add: ps_def)
qed

theorem chosen_phase1_least_squares_witness:
  "\<exists>m. choose_models (enumerate 0 sample_sizes) = Some m \<and>
     sse2 (zip (zip [1, 2, 4] [1, 2, 5]) [12, 14, 18]) (fitted_plane (fst (cm_phase1 m)))
       \<le> sse2 (zip (zip [1, 2, 4] [1, 2, 5]) [12, 14, 18]) ((2, 0), 11)"
proof -
  obtain m where m: "choose_models (enumerate 0 sample_sizes) = Some m"
    by (simp add: sample_sizes_def choose_models_def phase_fits_def phase2_fit_def fit_line_def
        fit_plane_def candidate_rows_def col_def py_max_def)
  then show ?thesis
    using chosen_phase1_least_squares [OF m, of "[1, 2, 4]" "[1, 2, 5]" "[12, 14, 18]" "((2, 0), 11)"]
    by (simp add: sample_sizes_def col_def)
qed

text \<open>
  C31: \<open>recalibrate_constants.py\<close> recovers the constants of data that follow them.
  When every merged run is a worker run whose three phase times are exactly the lines
  of \<open>c\<close> (and whose total is their sum), the file counts are not all equal and the
  candidate counts of the runs with candidates are not all equal, \<open>main\<close> derives the
  constants \<open>c\<close>, every aligned error is \<open>0\<close>, every accuracy is \<open>100\<close>, and the saved
  column of predicted totals is the column of actual totals.
\<close>

theorem recalibrate_exact:
  assumes "list_all cal_worker merged" "list_all (linear_run c) merged"
    and "\<not> list_all (\<lambda>r. cal_files r = cal_files (hd merged)) merged"
    and "\<not> list_all (\<lambda>r. cal_dups r = cal_dups (hd (filter (\<lambda>r. fgt (cal_dups r) 0) merged)))
                    (filter (\<lambda>r. fgt (cal_dups r) 0) merged)"
  shows "\<exists>rep. recalibrate merged = Some (c, rep, map cal_total merged) \<and>
           fr_errors rep = map (\<lambda>i. (i, Fin 0)) [0..<length merged] \<and>
           fr_accuracy rep = map (\<lambda>i. (i, Fin 100)) [0..<length merged]"
proof -
  define df where "df = enumerate 0 merged"
  define cs where "cs = filter (\<lambda>r. fgt (cal_dups r) 0) merged"
  have lw: "labelled_workers merged = df" using assms(1) by (simp add: df_def labelled_workers_all)
  have c1: "calibrate_phase1 df = Some (rc_phase1_file c, rc_phase1_base c)"
    using fit_line_exact [OF linear_run_phase_fits(1) [OF assms(2)] assms(3)]
    by (simp add: calibrate_phase1_def df_def)
  have c3: "calibrate_phase3 df = Some (rc_phase3_file c, rc_phase3_base c)"
    using fit_line_exact [OF linear_run_phase_fits(2) [OF assms(2)] assms(3)]
    by (simp add: calibrate_phase3_def df_def)
  have cand: "col f (candidate_rows df) = map f cs" for f
    by (simp add: col_snd candidate_rows_snd cs_def df_def)
  have "list_all (linear_run c) cs" using assms(2) by (simp add: cs_def list_all_iff)
  note fit2 = fit_line_exact [OF linear_run_phase_fits(3) [OF this] assms(4) [folded cs_def]]
  have "cs \<noteq> []" using assms(4) by (auto simp: cs_def)
  then have "length (candidate_rows df) \<noteq> 0"
    using arg_cong [OF cand [of cal_dups], of length] by auto
  then have c2: "calibrate_phase2 df = Some (rc_phase2_candidate c, rc_phase2_base c)"
    using fit2 by (simp add: calibrate_phase2_def cand Let_def)
  have row: "linear_run c (merged ! i)" if "i < length merged" for i
    using assms(2) that by (simp add: list_all_length)
  define preds where "preds = map (recal_prediction c) merged"
  have tot: "map pp_total preds = map cal_total merged"
    using assms(2) by (simp add: preds_def list_all_iff linear_run_prediction)
  have errs: "aligned_errors df (map pp_total preds) = map (\<lambda>i. (i, Fin 0)) [0..<length merged]"
  proof -
    have "fsub (cal_total (merged ! i)) (cal_total (merged ! i)) = Fin 0" if "i < length merged" for i
      using row [OF that] by (auto simp: linear_run_cells fsub_def)
    then show ?thesis by (simp add: df_def tot aligned_errors_enumerate)
  qed
  have accs: "aligned_rel_accuracy df (map (\<lambda>i. (i, Fin 0)) [0..<length merged]) =
              map (\<lambda>i. (i, Fin 100)) [0..<length merged]"
  proof -
    have "fsub (Fin 100) (fscale (fabs (fdivf (Fin 0) (cal_total (merged ! i)))) 100) = Fin 100"
      if "i < length merged" for i
      using row [OF that] by (auto simp: linear_run_cells fsub_def fdiv_def)
    then show ?thesis by (simp add: df_def aligned_rel_accuracy_def map_of_enumerate)
  qed
  have ok: "list_all (\<lambda>((l, r), p). int_ok (cal_total r) \<and> int_ok (pp_total p) \<and> int_ok (cal_run r))
              (zip df (map (recal_prediction c \<circ> snd) df))"
  proof -
    have "int_ok (cal_total (merged ! i)) \<and> int_ok (pp_total (recal_prediction c (merged ! i))) \<and>
          int_ok (cal_run (merged ! i))" if i: "i < length merged" for i
      using row [OF i] linear_run_prediction [OF row [OF i]] by (auto simp: linear_run_cells)
    then show ?thesis by (simp add: list_all_length df_def nth_enumerate_eq)
  qed
  have "merged \<noteq> []" using assms(3) by auto
  then have t: "test_calibrated_formula df c = Some (formula_report preds (map (\<lambda>i. (i, Fin 0)) [0..<length merged])
                                                      (map (\<lambda>i. (i, Fin 100)) [0..<length merged]))"
  proof -
    have pm: "map (recal_prediction c \<circ> snd) df = preds"
      by (simp add: df_def preds_def flip: map_map)
    have "df \<noteq> []" using \<open>merged \<noteq> []\<close> by (simp add: df_def enumerate_eq_zip)
    then show ?thesis
      using ok errs accs unfolding test_calibrated_formula_def pm Let_def by simp
  qed
  have col: "aligned_column df (map pp_total preds) = map cal_total merged"
    by (simp add: df_def tot aligned_column_enumerate)
  show ?thesis
    using c1 c2 c3 t col by (cases c) (simp add: recalibrate_def lw formula_report_def)
qed

theorem recalibrate_exact_witness:
  "list_all cal_worker sample_sizes \<and> list_all (linear_run sample_constants) sample_sizes \<and>
   \<not> list_all (\<lambda>r. cal_files r = cal_files (hd sample_sizes)) sample_sizes \<and>
   \<not> list_all (\<lambda>r. cal_dups r = cal_dups (hd (filter (\<lambda>r. fgt (cal_dups r) 0) sample_sizes)))
                (filter (\<lambda>r. fgt (cal_dups r) 0) sample_sizes) \<and>
   (\<exists>rep. recalibrate sample_sizes = Some (sample_constants, rep, [Fin 22, Fin 28, Fin 28]) \<and>
      fr_errors rep = map (\<lambda>i. (i, Fin 0)) [0..<3] \<and>
      fr_accuracy rep = map (\<lambda>i. (i, Fin 100)) [0..<3])"
proof -
  have h: "list_all cal_worker sample_sizes" "list_all (linear_run sample_constants) sample_sizes"
    "\<not> list_all (\<lambda>r. cal_files r = cal_files (hd sample_sizes)) sample_sizes"
    "\<not> list_all (\<lambda>r. cal_dups r = cal_dups (hd (filter (\<lambda>r. fgt (cal_dups r) 0) sample_sizes)))
                (filter (\<lambda>r. fgt (cal_dups r) 0) sample_sizes)"
    by (simp_all add: sample_sizes_def sample_constants_def linear_run_def)
  have l: "length sample_sizes = 3" "map cal_total sample_sizes = [Fin 22, Fin 28, Fin 28]"
    by (simp_all add: sample_sizes_def)
  show ?thesis
    using h recalibrate_exact [OF h] unfolding l by blast
qed

end
