(* ===== verification/Json.thy ===== *)
theory Json
  imports Text_Scan Floats
begin

text \<open>
  \<open>json.loads\<close> of the Python standard library (its C scanner, the default), as the
  JSON-format console-log parsers call it on each captured \<open>{...}\<close> block: a
  tokenizer that reads the text from left to right and a shift-reduce parser over
  the tokens. They accept the texts the recursive-descent scanner accepts and give
  the same values: insignificant whitespace is \<open>[ \t\n\r]\<close>, strings reject raw
  control characters, \<open>\uXXXX\<close> escapes take four hexadecimal digits and join
  surrogate pairs, numbers follow \<open>-?(0|[1-9]\d*)(\.\d+)?([eE][-+]?\d+)?\<close> and are
  \<open>int\<close> without fraction and exponent, \<open>float\<close> otherwise, and \<open>NaN\<close>,
  \<open>Infinity\<close>, \<open>-Infinity\<close> are accepted; an \<open>int\<close> literal of more than
  \<open>max_str_digits\<close> (4300) digits raises \<open>ValueError\<close>, as CPython 3.11 and later do
  by default. Text is UTF-8 bytes, as everywhere in
  the development; an escaped lone surrogate is kept as its three-byte pattern.
\<close>

section \<open>Values\<close>

datatype json =
  JNull | JBool bool | JInt int | JFloat pyfloat | JStr string
| JArr "json list" | JObj "(string \<times> json) list"

section \<open>Strings\<close>

definition is_json_ws :: "char \<Rightarrow> bool" where
  "is_json_ws c \<longleftrightarrow> c = CHR '' '' \<or> c = CHR 0x09 \<or> c = CHR 0x0A \<or> c = CHR 0x0D"

definition hex_val :: "char \<Rightarrow> nat option" where
  "hex_val c =
     (let n = (of_char c :: nat) in
      if 48 \<le> n \<and> n \<le> 57 then Some (n - 48)
      else if 65 \<le> n \<and> n \<le> 70 then Some (n - 55)
      else if 97 \<le> n \<and> n \<le> 102 then Some (n - 87) else None)"

text \<open>The four hexadecimal digits of a \<open>\uXXXX\<close> escape.\<close>

fun hex4 :: "string \<Rightarrow> nat option" where
  "hex4 (a # b # c # d # _) =
     (case (hex_val a, hex_val b, hex_val c, hex_val d) of
        (Some w, Some x, Some y, Some z) \<Rightarrow> Some (((w * 16 + x) * 16 + y) * 16 + z)
      | _ \<Rightarrow> None)"
| "hex4 _ = None"

text \<open>The UTF-8 bytes of a code point.\<close>

definition utf8_encode :: "nat \<Rightarrow> string" where
  "utf8_encode n =
     (if n < 0x80 then [char_of n]
      else if n < 0x800 then [char_of (0xC0 + n div 64), char_of (0x80 + n mod 64)]
      else if n < 0x10000 then
        [char_of (0xE0 + n div 4096), char_of (0x80 + n div 64 mod 64), char_of (0x80 + n mod 64)]
      else [char_of (0xF0 + n div 262144), char_of (0x80 + n div 4096 mod 64),
            char_of (0x80 + n div 64 mod 64), char_of (0x80 + n mod 64)])"

text \<open>The one-character escapes \<open>\" \\ \/ \b \f \n \r \t\<close>.\<close>

definition simple_escape :: "char \<Rightarrow> char option" where
  "simple_escape e =
     (if e = CHR 0x22 \<or> e = CHR 0x5C \<or> e = CHR ''/'' then Some e
      else if e = CHR ''b'' then Some (CHR 0x08) else if e = CHR ''f'' then Some (CHR 0x0C)
      else if e = CHR ''n'' then Some (CHR 0x0A) else if e = CHR ''r'' then Some (CHR 0x0D)
      else if e = CHR ''t'' then Some (CHR 0x09) else None)"

definition is_high_surrogate :: "nat \<Rightarrow> bool" where
  "is_high_surrogate u \<longleftrightarrow> 0xD800 \<le> u \<and> u \<le> 0xDBFF"

definition is_low_surrogate :: "nat \<Rightarrow> bool" where
  "is_low_surrogate u \<longleftrightarrow> 0xDC00 \<le> u \<and> u \<le> 0xDFFF"

text \<open>An escape after its backslash: the decoded bytes and the rest of the text. A
  high surrogate followed by \<open>\u\<close> and a low surrogate is one code point; followed by
  anything else it stands alone.\<close>

definition jescape :: "string \<Rightarrow> (string \<times> string) option" where
  "jescape s =
     (case s of
        [] \<Rightarrow> None
      | e # r \<Rightarrow>
          if e = CHR ''u'' then
            (case hex4 r of
               None \<Rightarrow> None
             | Some u \<Rightarrow>
                 if is_high_surrogate u \<and> take 2 (drop 4 r) = [CHR 0x5C, CHR ''u''] then
                   (case hex4 (drop 6 r) of
                      None \<Rightarrow> None
                    | Some u2 \<Rightarrow>
                        if is_low_surrogate u2
                        then Some (utf8_encode (0x10000 + (u - 0xD800) * 1024 + (u2 - 0xDC00)), drop 10 r)
                        else Some (utf8_encode u, drop 4 r))
                 else Some (utf8_encode u, drop 4 r))
          else map_option (\<lambda>x. ([x], r)) (simple_escape e))"

lemma jescape_shorter: "jescape s = Some (bs, r) \<Longrightarrow> length r < length s"
  by (auto simp: jescape_def split: list.splits option.splits if_splits)

text \<open>
  \<open>scanstring\<close>: the body of a string after its opening quote, up to the closing
  quote; \<open>acc\<close> holds the decoded bytes in reverse. A raw control character is an
  error (the scanner is strict).
\<close>

function jstring :: "string \<Rightarrow> string \<Rightarrow> (string \<times> string) option" where
  "jstring acc [] = None"
| "jstring acc (c # r) =
     (if c = CHR 0x22 then Some (rev acc, r)
      else if c = CHR 0x5C then
        (case jescape r of None \<Rightarrow> None | Some (bs, r') \<Rightarrow> jstring (rev bs @ acc) r')
      else if (of_char c :: nat) < 32 then None
      else jstring (c # acc) r)"
  by pat_completeness auto
termination
  by (relation "measure (\<lambda>(acc, s). length s)") (auto dest: jescape_shorter)

lemma jstring_shorter: "jstring acc s = Some (x, rest) \<Longrightarrow> length rest < length s"
proof (induction acc s rule: jstring.induct)
  case (1 acc)
  then show ?case by simp
next
  case (2 acc c r)
  then show ?case
    by (fastforce split: if_splits option.splits dest!: jescape_shorter)
qed

section \<open>Numbers\<close>

text \<open>
  \<open>float(...)\<close> of a decimal: the exact value, or an infinity from
  \<open>2^1024 - 2^970\<close> on, where rounding to nearest reaches \<open>2^1024\<close>. Rounding of
  finite values is not modelled, as elsewhere in the development.
\<close>

definition to_float :: "rat \<Rightarrow> pyfloat" where
  "to_float q =
     (if 2 ^ 1024 - 2 ^ 970 \<le> q then PInf else if q \<le> - (2 ^ 1024 - 2 ^ 970) then NInf else Fin q)"

text \<open>\<open>(\.\d+)?\<close>: the fraction digits, when a dot is followed by a digit.\<close>

definition json_frac :: "string \<Rightarrow> string option \<times> string" where
  "json_frac s =
     (case s of
        c # d # _ \<Rightarrow> if c = CHR ''.'' \<and> is_digit d
                       then (Some (takeWhile is_digit (tl s)), dropWhile is_digit (tl s))
                       else (None, s)
      | _ \<Rightarrow> (None, s))"

text \<open>\<open>([eE][-+]?\d+)?\<close>: the signed exponent.\<close>

definition json_exp :: "string \<Rightarrow> int option \<times> string" where
  "json_exp s =
     (case s of
        e # r \<Rightarrow>
          if e = CHR ''e'' \<or> e = CHR ''E'' then
            (let (neg, r1) = (case r of
                                c # r' \<Rightarrow> if c = CHR ''-'' then (True, r')
                                           else if c = CHR ''+'' then (False, r') else (False, r)
                              | [] \<Rightarrow> (False, r)) in
             if r1 \<noteq> [] \<and> is_digit (hd r1)
             then (Some ((if neg then -1 else 1) * int (digits_val (takeWhile is_digit r1))),
                   dropWhile is_digit r1)
             else (None, s))
          else (None, s)
      | [] \<Rightarrow> (None, s))"

definition scale10 :: "rat \<Rightarrow> int \<Rightarrow> rat" where
  "scale10 q e = (if 0 \<le> e then q * 10 ^ nat e else q / 10 ^ nat (- e))"

text \<open>\<open>-?(0|[1-9]\d*)\<close> after the sign: a lone \<open>0\<close> or digits not starting with \<open>0\<close>.\<close>

definition json_digits :: "string \<Rightarrow> (string \<times> string) option" where
  "json_digits s =
     (case s of
        [] \<Rightarrow> None
      | c # r \<Rightarrow>
          if \<not> is_digit c then None
          else if c = CHR ''0'' then Some ([c], r)
          else Some (c # takeWhile is_digit r, dropWhile is_digit r))"

text \<open>The number at the start of a text: \<open>int(integer)\<close> or \<open>float(integer + frac + exp)\<close>.\<close>

text \<open>\<open>sys.int_info.default_max_str_digits\<close>: \<open>int()\<close> of a longer decimal string raises
  \<open>ValueError\<close>, and so does \<open>json.loads\<close> on a longer integer literal.\<close>

text \<open>The tokens of the scanner: punctuation, a value, an integer literal over the
  digit limit (\<open>TBigInt\<close>, which raises \<open>ValueError\<close> when it is read as a value), and
  text that starts no token (\<open>TBad\<close>).\<close>

datatype jtok = TOpenA | TCloseA | TOpenO | TCloseO | TComma | TColon | TVal json | TBigInt | TBad

definition max_str_digits :: nat where
  "max_str_digits = 4300"

definition json_number :: "string \<Rightarrow> (jtok \<times> string) option" where
  "json_number s =
     (let neg = (s \<noteq> [] \<and> hd s = CHR ''-''); sgn = (if neg then -1 else 1) in
      case json_digits (if neg then tl s else s) of
        None \<Rightarrow> None
      | Some (ip, r1) \<Rightarrow>
          (case json_frac r1 of
             (fr, r2) \<Rightarrow>
               (case json_exp r2 of
                  (ex, r3) \<Rightarrow>
                    if fr = None \<and> ex = None then
                      (if max_str_digits < length ip then Some (TBigInt, r3)
                       else Some (TVal (JInt (sgn * int (digits_val ip))), r3))
                    else
                      let fd = (case fr of Some f \<Rightarrow> f | None \<Rightarrow> []);
                          q = of_int sgn * (of_nat (digits_val ip) + of_nat (digits_val fd) / 10 ^ length fd)
                      in Some (TVal (JFloat (to_float (scale10 q (case ex of Some x \<Rightarrow> x | None \<Rightarrow> 0)))), r3))))"

section \<open>Tokens\<close>

text \<open>The literals, in the order the scanner tries them (the number comes between
  \<open>false\<close> and \<open>NaN\<close>).\<close>

definition json_literals :: "(string \<times> json) list" where
  "json_literals = [(''null'', JNull), (''true'', JBool True), (''false'', JBool False)]"

definition float_literals :: "(string \<times> json) list" where
  "float_literals = [(''NaN'', JFloat NaN), (''Infinity'', JFloat PInf), (''-Infinity'', JFloat NInf)]"

definition literal :: "(string \<times> json) list \<Rightarrow> string \<Rightarrow> (json \<times> string) option" where
  "literal ls s =
     map_option (\<lambda>(w, v). (v, drop (length w) s)) (find (\<lambda>(w, v). starts_with s w) ls)"

definition next_token :: "string \<Rightarrow> (jtok \<times> string) option" where
  "next_token s =
     (case s of
        [] \<Rightarrow> None
      | c # r \<Rightarrow>
          if c = CHR ''['' then Some (TOpenA, r) else if c = CHR '']'' then Some (TCloseA, r)
          else if c = CHR ''{'' then Some (TOpenO, r) else if c = CHR ''}'' then Some (TCloseO, r)
          else if c = CHR '','' then Some (TComma, r) else if c = CHR '':'' then Some (TColon, r)
          else if c = CHR 0x22 then map_option (\<lambda>(x, r'). (TVal (JStr x), r')) (jstring [] r)
          else
            (case literal json_literals s of
               Some (v, r') \<Rightarrow> Some (TVal v, r')
             | None \<Rightarrow>
                 (case json_number s of
                    Some (t, r') \<Rightarrow> Some (t, r')
                  | None \<Rightarrow> map_option (\<lambda>(v, r'). (TVal v, r')) (literal float_literals s))))"

lemma json_frac_shorter: "json_frac s = (f, r) \<Longrightarrow> length r \<le> length s"
  unfolding json_frac_def
  by (cases s rule: remdups_adj.cases)
     (auto split: if_splits intro: le_trans [OF length_dropWhile_le])
lemma json_exp_shorter: "json_exp s = (e, r) \<Longrightarrow> length r \<le> length s"
  unfolding json_exp_def
  by (cases s rule: remdups_adj.cases)
     (auto simp: Let_def split: if_splits list.splits intro: le_trans [OF length_dropWhile_le])
lemma json_digits_shorter: "json_digits s = Some (ip, r) \<Longrightarrow> length r < length s"
  by (auto simp: json_digits_def less_Suc_eq_le length_dropWhile_le split: list.splits if_splits)

lemma json_number_shorter:
  assumes "json_number s = Some (v, rest)"
  shows "length rest < length s"
proof -
  define s1 where "s1 = (if s \<noteq> [] \<and> hd s = CHR ''-'' then tl s else s)"
  have l1: "length s1 \<le> length s" by (simp add: s1_def)
  obtain ip r1 where d: "json_digits s1 = Some (ip, r1)"
    using assms by (auto simp: json_number_def s1_def Let_def split: option.splits)
  obtain fr r2 where f: "json_frac r1 = (fr, r2)" by fastforce
  obtain ex r3 where e: "json_exp r2 = (ex, r3)" by fastforce
  have "rest = r3"
    using assms d f e by (auto simp: json_number_def Let_def s1_def [symmetric] split: if_splits)
  moreover have "length r3 \<le> length r1"
    using json_frac_shorter [OF f] json_exp_shorter [OF e] by simp
  ultimately show ?thesis using l1 json_digits_shorter [OF d] by simp
qed

lemma literal_shorter:
  assumes "\<forall>(w, v)\<in>set ls. w \<noteq> []" "literal ls s = Some (v, rest)"
  shows "length rest < length s"
proof -
  obtain w where "(w, v) \<in> set ls" "starts_with s w" "rest = drop (length w) s"
    using assms(2) by (auto simp: literal_def find_Some_iff dest!: nth_mem)
  moreover then have "w \<noteq> []" "length w \<le> length s"
    using assms(1) by (auto simp: starts_with_iff)
  ultimately show ?thesis by (cases w) auto
qed

lemma next_token_shorter:
  assumes "next_token s = Some (t, rest)"
  shows "length rest < length s"
proof (cases s)
  case Nil
  then show ?thesis using assms by (simp add: next_token_def)
next
  case (Cons c r)
  have lits: "\<forall>(w, v)\<in>set json_literals. w \<noteq> []" "\<forall>(w, v)\<in>set float_literals. w \<noteq> []"
    by (simp_all add: json_literals_def float_literals_def)
  show ?thesis
    using assms Cons
    by (auto simp: next_token_def split: if_splits option.splits
        dest!: jstring_shorter json_number_shorter literal_shorter [OF lits(1)] literal_shorter [OF lits(2)])
qed

text \<open>The token stream of a text, whitespace between tokens skipped, ending in
  \<open>TBad\<close> at the first text that starts no token. The parser reads it from the left,
  so the first token it cannot use decides the error, as in the scanner of
  \<open>json.loads\<close>, which reads a token only when the parser asks for one.\<close>

function jtokens :: "string \<Rightarrow> jtok list" where
  "jtokens s =
     (let s' = dropWhile is_json_ws s in
      if s' = [] then []
      else (case next_token s' of
              None \<Rightarrow> [TBad]
            | Some (t, r) \<Rightarrow> t # jtokens r))"
  by pat_completeness auto
termination
  by (relation "measure length") (auto dest!: next_token_shorter intro: less_le_trans length_dropWhile_le)

declare jtokens.simps [simp del]

section \<open>Parsing the tokens\<close>

text \<open>
  The parser's stack: an array with its elements so far (in reverse), an object with
  its members so far (in reverse), the key of the member whose value is being read.
  The mode says what the next token may be: a value (\<open>MValue True\<close> also accepts the
  \<open>]\<close> of an empty array), a key (\<open>MKey True\<close> also accepts the \<open>}\<close> of an empty
  object), the colon after a key, or what follows a complete value.
\<close>

datatype frame = FArr "json list" | FObj "(string \<times> json) list" | FKey string

datatype pmode = MValue bool | MKey bool | MColon string | MAfter json

text \<open>The two exceptions of \<open>json.loads\<close>: \<open>JSONDecodeError\<close> and the \<open>ValueError\<close>
  of an integer literal over the digit limit (\<open>JSONDecodeError\<close> is a subclass of
  \<open>ValueError\<close>, not the other way round).\<close>

datatype json_error = JSONDecodeError | IntDigitsError

fun jparse :: "pmode \<Rightarrow> frame list \<Rightarrow> jtok list \<Rightarrow> json_error + json" where
  "jparse m st [] = (case (m, st) of (MAfter v, []) \<Rightarrow> Inr v | _ \<Rightarrow> Inl JSONDecodeError)"
| "jparse m st (t # ts) =
     (case m of
        MAfter v \<Rightarrow>
          (case st of
             FArr xs # st' \<Rightarrow>
               (case t of
                  TComma \<Rightarrow> jparse (MValue False) (FArr (v # xs) # st') ts
                | TCloseA \<Rightarrow> jparse (MAfter (JArr (rev (v # xs)))) st' ts
                | _ \<Rightarrow> Inl JSONDecodeError)
           | FKey k # FObj ps # st' \<Rightarrow>
               (case t of
                  TComma \<Rightarrow> jparse (MKey False) (FObj ((k, v) # ps) # st') ts
                | TCloseO \<Rightarrow> jparse (MAfter (JObj (rev ((k, v) # ps)))) st' ts
                | _ \<Rightarrow> Inl JSONDecodeError)
           | _ \<Rightarrow> Inl JSONDecodeError)
      | MValue b \<Rightarrow>
          (case t of
             TVal v \<Rightarrow> jparse (MAfter v) st ts
           | TBigInt \<Rightarrow> Inl IntDigitsError
           | TOpenA \<Rightarrow> jparse (MValue True) (FArr [] # st) ts
           | TOpenO \<Rightarrow> jparse (MKey True) (FObj [] # st) ts
           | TCloseA \<Rightarrow>
               (case st of
                  FArr [] # st' \<Rightarrow> if b then jparse (MAfter (JArr [])) st' ts else Inl JSONDecodeError
                | _ \<Rightarrow> Inl JSONDecodeError)
           | _ \<Rightarrow> Inl JSONDecodeError)
      | MKey b \<Rightarrow>
          (case t of
             TVal (JStr k) \<Rightarrow> jparse (MColon k) st ts
           | TCloseO \<Rightarrow>
               (case st of
                  FObj [] # st' \<Rightarrow> if b then jparse (MAfter (JObj [])) st' ts else Inl JSONDecodeError
                | _ \<Rightarrow> Inl JSONDecodeError)
           | _ \<Rightarrow> Inl JSONDecodeError)
      | MColon k \<Rightarrow>
          (case t of TColon \<Rightarrow> jparse (MValue False) (FKey k # st) ts | _ \<Rightarrow> Inl JSONDecodeError))"

text \<open>\<open>json.loads(s)\<close>: one value, with nothing but whitespace around it.\<close>

definition json_loads :: "string \<Rightarrow> json_error + json" where
  "json_loads s = jparse (MValue False) [] (jtokens s)"

text \<open>A \<open>dict\<close> built from an object's members: a repeated key keeps its first
  position and its last value.\<close>

definition json_dict :: "(string \<times> json) list \<Rightarrow> json pydict" where
  "json_dict ps = foldl (\<lambda>d (k, v). dset d k v) [] ps"


section \<open>A printer\<close>

text \<open>
  A JSON printer in the style of \<open>json.dumps(..., ensure_ascii=False)\<close>, as the
  JavaScript side writes the logged objects: \<open>", "\<close> and \<open>": "\<close> separators, a
  quote and a backslash escaped, control characters as \<open>\u00XX\<close>, other bytes as they
  are, integral floats as \<open>n.0\<close>. It is the reference the parser is checked against.
\<close>

text \<open>\<open>sep.join(parts)\<close> on lists.\<close>

fun join_with :: "'a list \<Rightarrow> 'a list list \<Rightarrow> 'a list" where
  "join_with sep [] = []"
| "join_with sep [x] = x"
| "join_with sep (x # xs) = x @ sep @ join_with sep xs"

definition show_int :: "int \<Rightarrow> string" where
  "show_int i = (if i < 0 then CHR ''-'' # show_nat (nat (- i)) else show_nat (nat i))"

definition hex_digit :: "nat \<Rightarrow> char" where
  "hex_digit n = char_of (if n < 10 then 48 + n else 87 + n)"

definition esc_char :: "char \<Rightarrow> string" where
  "esc_char c =
     (if c = CHR 0x22 \<or> c = CHR 0x5C then [CHR 0x5C, c]
      else if (of_char c :: nat) < 32
      then [CHR 0x5C, CHR ''u'', CHR ''0'', CHR ''0'', hex_digit (of_char c div 16), hex_digit (of_char c mod 16)]
      else [c])"

definition quote_str :: "string \<Rightarrow> string" where
  "quote_str x = CHR 0x22 # concat (map esc_char x) @ [CHR 0x22]"

fun jdump :: "json \<Rightarrow> string" where
  "jdump JNull = ''null''"
| "jdump (JBool b) = (if b then ''true'' else ''false'')"
| "jdump (JInt i) = show_int i"
| "jdump (JFloat x) =
     (case x of Fin q \<Rightarrow> show_int \<lfloor>q\<rfloor> @ ''.0'' | PInf \<Rightarrow> ''Infinity'' | NInf \<Rightarrow> ''-Infinity''
              | NaN \<Rightarrow> ''NaN'')"
| "jdump (JStr x) = quote_str x"
| "jdump (JArr xs) = ''['' @ join_with '', '' (map jdump xs) @ '']''"
| "jdump (JObj ps) =
     ''{'' @ join_with '', '' (map (\<lambda>(k, v). quote_str k @ '': '' @ jdump v) ps) @ ''}''"

text \<open>The values the printer writes exactly: every finite float is integral and below
  the overflow bound.\<close>

fun printable :: "json \<Rightarrow> bool" where
  "printable (JInt i) = (\<bar>i\<bar> < 10 ^ max_str_digits)"
| "printable (JFloat (Fin q)) = (of_int \<lfloor>q\<rfloor> = q \<and> \<bar>q\<bar> < 2 ^ 1024 - 2 ^ 970)"
| "printable (JArr xs) = list_all printable xs"
| "printable (JObj ps) = list_all (\<lambda>(k, v). printable v) ps"
| "printable v = True"

text \<open>The tokens of a value.\<close>

fun jtoks :: "json \<Rightarrow> jtok list" where
  "jtoks (JArr xs) = TOpenA # join_with [TComma] (map jtoks xs) @ [TCloseA]"
| "jtoks (JObj ps) =
     TOpenO # join_with [TComma] (map (\<lambda>(k, v). TVal (JStr k) # TColon # jtoks v) ps) @ [TCloseO]"
| "jtoks v = [TVal v]"

text \<open>What may follow a printed value: nothing, or a separator.\<close>

definition tok_sep :: "string \<Rightarrow> bool" where
  "tok_sep s \<longleftrightarrow> s = [] \<or> hd s \<in> {CHR '','', CHR '']'', CHR ''}''}"

section \<open>The printer and the parser agree\<close>


lemma tok_sep_frac: "tok_sep s \<Longrightarrow> json_frac s = (None, s)"
  by (cases s rule: remdups_adj.cases) (auto simp: tok_sep_def json_frac_def)

lemma tok_sep_exp: "tok_sep s \<Longrightarrow> json_exp s = (None, s)"
  by (cases s) (auto simp: tok_sep_def json_exp_def)

lemma tok_sep_not_digit: "tok_sep s \<Longrightarrow> takeWhile is_digit s = [] \<and> dropWhile is_digit s = s"
  by (cases s) (auto simp: tok_sep_def is_digit_def)

lemma show_nat_hd_zero: "show_nat n = CHR ''0'' # cs \<Longrightarrow> n = 0 \<and> cs = []"
proof (induction n arbitrary: cs rule: show_nat.induct)
  case (1 n)
  show ?case
  proof (cases "n < 10")
    case True
    then have c: "char_of (48 + n) = CHR ''0''" and cs: "cs = []"
      using "1.prems" by (simp_all add: show_nat.simps [of n])
    have "(of_char (char_of (48 + n) :: char) :: nat) = 48"
      by (simp only: c) simp
    then show ?thesis using True cs by (simp add: of_char_of)
  next
    case False
    then obtain ds where "show_nat (n div 10) = CHR ''0'' # ds"
      using "1.prems" show_nat_digits [of "n div 10"]
      by (cases "show_nat (n div 10)") (auto simp: show_nat.simps [of n])
    then show ?thesis using "1.IH" False by auto
  qed
qed

lemma json_digits_show_nat:
  assumes "tok_sep s \<or> (s \<noteq> [] \<and> hd s = CHR ''.'')"
  shows "json_digits (show_nat n @ s) = Some (show_nat n, s)"
proof -
  obtain c cs where sn: "show_nat n = c # cs" and dig: "is_digit c" "list_all is_digit cs"
    using show_nat_digits [of n] by (cases "show_nat n") auto
  have s: "takeWhile is_digit s = [] \<and> dropWhile is_digit s = s"
    using assms tok_sep_not_digit [of s] by (cases s) (auto simp: is_digit_def)
  have tw: "takeWhile is_digit (cs @ s) = cs" "dropWhile is_digit (cs @ s) = s"
    using dig(2) s by (simp_all add: takeWhile_append2 dropWhile_append2 list_all_iff)
  show ?thesis
  proof (cases "c = CHR ''0''")
    case True
    then show ?thesis using sn show_nat_hd_zero [of n cs] by (simp add: json_digits_def is_digit_def)
  next
    case False
    then show ?thesis using sn dig tw by (simp add: json_digits_def)
  qed
qed

lemma show_nat_hd: "show_nat n @ s \<noteq> [] \<and> hd (show_nat n @ s) \<noteq> CHR ''-''"
  using show_nat_digits [of n] by (cases "show_nat n") (auto simp: is_digit_def)

lemma length_show_nat: "n < 10 ^ k \<Longrightarrow> 0 < k \<Longrightarrow> length (show_nat n) \<le> k"
proof (induction n arbitrary: k rule: show_nat.induct)
  case (1 n)
  show ?case
  proof (cases "n < 10")
    case True
    then show ?thesis using "1.prems" by (simp add: show_nat.simps [of n])
  next
    case False
    then obtain j where k: "k = Suc j" using "1.prems" by (cases k) simp_all
    have "n div 10 < 10 ^ j" using "1.prems" k by simp
    moreover have "0 < j" using False "1.prems" k by (cases j) simp_all
    ultimately have "length (show_nat (n div 10)) \<le> j" using "1.IH" False by simp
    then show ?thesis using False k by (simp add: show_nat.simps [of n])
  qed
qed

lemma below_max_str_digits [simp]: "(i::int) < 1000000 \<Longrightarrow> i < 10 ^ max_str_digits"
proof -
  assume "i < 1000000"
  moreover have "(10::int) ^ 6 \<le> 10 ^ max_str_digits"
    by (rule power_increasing) (simp_all add: max_str_digits_def)
  ultimately show ?thesis by simp
qed

text \<open>An integer literal within the limit of \<open>int()\<close> on a string.\<close>

lemma json_number_show_int:
  assumes "tok_sep s" "\<bar>i\<bar> < 10 ^ max_str_digits"
  shows "json_number (show_int i @ s) = Some (TVal (JInt i), s)"
proof (cases "i < 0")
  case True
  have "nat (- i) < 10 ^ max_str_digits" using assms(2) True by (simp add: nat_less_iff)
  then have "length (show_nat (nat (- i))) \<le> max_str_digits"
    by (rule length_show_nat) (simp add: max_str_digits_def)
  then show ?thesis
    using True assms(1) json_digits_show_nat [of s "nat (- i)"]
    by (simp add: json_number_def show_int_def tok_sep_frac tok_sep_exp digits_val_show_nat)
next
  case False
  have "nat i < 10 ^ max_str_digits" using assms(2) False by (simp add: nat_less_iff)
  then have "length (show_nat (nat i)) \<le> max_str_digits"
    by (rule length_show_nat) (simp add: max_str_digits_def)
  then show ?thesis
    using False assms(1) json_digits_show_nat [of s "nat i"] show_nat_hd [of "nat i" s]
    by (simp add: json_number_def show_int_def tok_sep_frac tok_sep_exp digits_val_show_nat)
qed

lemma json_frac_point_zero: "tok_sep s \<Longrightarrow> json_frac (''.0'' @ s) = (Some ''0'', s)"
  using tok_sep_not_digit [of s] by (simp add: json_frac_def is_digit_def)

lemma to_float_Fin: "\<bar>q\<bar> < 2 ^ 1024 - 2 ^ 970 \<Longrightarrow> to_float q = Fin q"
  by (auto simp: to_float_def abs_less_iff)

lemma json_number_show_float:
  assumes "tok_sep s" "of_int \<lfloor>q\<rfloor> = q" "\<bar>q\<bar> < 2 ^ 1024 - 2 ^ 970"
  shows "json_number (show_int \<lfloor>q\<rfloor> @ ''.0'' @ s) = Some (TVal (JFloat (Fin q)), s)"
proof -
  define k where "k = \<lfloor>q\<rfloor>"
  have q: "q = of_int k" using assms(2) unfolding k_def by (rule sym)
  have tf: "to_float (of_int k) = Fin (of_int k)" using assms(3) q to_float_Fin by simp
  have d: "json_digits (show_nat n @ ''.0'' @ s) = Some (show_nat n, ''.0'' @ s)" for n
    using json_digits_show_nat [of "''.0'' @ s" n] by simp
  have e: "json_exp s = (None, s)" using assms(1) by (rule tok_sep_exp)
  have z: "digits_val ''0'' = 0" by (simp add: digits_val_def digit_val_def)
  have f: "json_frac (''.0'' @ s) = (Some ''0'', s)" using assms(1) by (rule json_frac_point_zero)
  have "json_number (show_int k @ ''.0'' @ s) = Some (TVal (JFloat (Fin (of_int k))), s)"
  proof (cases "k < 0")
    case True
    then have "(of_nat (nat (- k)) :: rat) = - of_int k" by (simp add: of_nat_nat)
    then show ?thesis
      using True d e z f tf by (simp add: json_number_def show_int_def digits_val_show_nat scale10_def)
  next
    case False
    then have "(of_nat (nat k) :: rat) = of_int k" by (simp add: of_nat_nat)
    then show ?thesis
      using False d e z f tf show_nat_hd [of "nat k" "''.0'' @ s"]
      by (simp add: json_number_def show_int_def digits_val_show_nat scale10_def)
  qed
  then show ?thesis by (simp add: k_def [symmetric] q [symmetric])
qed

lemma hex_val_hex_digit: "n < 16 \<Longrightarrow> hex_val (hex_digit n) = Some n"
  by (auto simp: hex_val_def hex_digit_def of_char_of Let_def)

lemma jescape_esc_char:
  assumes "(of_char c :: nat) < 32"
  shows "jescape (tl (esc_char c) @ rest) = Some ([c], rest)"
proof -
  let ?n = "of_char c :: nat"
  have z: "hex_val (CHR ''0'') = Some 0" by (simp add: hex_val_def)
  have lt: "?n div 16 < 16" "?n mod 16 < 16" using assms by simp_all
  have "hex4 (CHR ''0'' # CHR ''0'' # hex_digit (?n div 16) # hex_digit (?n mod 16) # rest) =
        Some (?n div 16 * 16 + ?n mod 16)"
    by (simp add: z hex_val_hex_digit [OF lt(1)] hex_val_hex_digit [OF lt(2)])
  then have h: "hex4 (CHR ''0'' # CHR ''0'' # hex_digit (?n div 16) # hex_digit (?n mod 16) # rest) = Some ?n"
    by simp
  have nq: "c \<noteq> CHR 0x22 \<and> c \<noteq> CHR 0x5C" using assms by auto
  have t: "tl (esc_char c) @ rest =
           CHR ''u'' # CHR ''0'' # CHR ''0'' # hex_digit (?n div 16) # hex_digit (?n mod 16) # rest"
    using assms nq by (simp add: esc_char_def)
  have "\<not> is_high_surrogate ?n" using assms by (simp add: is_high_surrogate_def)
  moreover have "utf8_encode ?n = [c]" using assms by (simp add: utf8_encode_def)
  ultimately show ?thesis
    unfolding t jescape_def using h by simp
qed

lemma jstring_escape_step:
  "jescape r = Some (bs, r') \<Longrightarrow> jstring acc (CHR 0x5C # r) = jstring (rev bs @ acc) r'"
  by simp

lemma jstring_quote_str:
  "jstring acc (concat (map esc_char x) @ CHR 0x22 # rest) = Some (rev acc @ x, rest)"
proof (induction x arbitrary: acc)
  case Nil
  then show ?case by simp
next
  case (Cons c x)
  define tl_x where "tl_x = concat (map esc_char x) @ CHR 0x22 # rest"
  have "jstring acc (esc_char c @ tl_x) = jstring (c # acc) tl_x"
  proof (cases "c = CHR 0x22 \<or> c = CHR 0x5C")
    case True
    then have "esc_char c = CHR 0x5C # [c]" by (simp add: esc_char_def)
    moreover have "jescape (c # tl_x) = Some ([c], tl_x)"
      using True by (auto simp: jescape_def simple_escape_def)
    ultimately show ?thesis by simp
  next
    case False
    show ?thesis
    proof (cases "(of_char c :: nat) < 32")
      case True
      then have "esc_char c = CHR 0x5C # tl (esc_char c)" using False by (simp add: esc_char_def)
      moreover have "jescape (tl (esc_char c) @ tl_x) = Some ([c], tl_x)"
        using True by (rule jescape_esc_char)
      ultimately show ?thesis by (metis append_Cons jstring_escape_step rev_singleton_conv append_Cons
          append.left_neutral)
    next
      case False': False
      then have "esc_char c = [c]" using False by (simp add: esc_char_def)
      then show ?thesis using False False' by simp
    qed
  qed
  then show ?case using Cons.IH [of "c # acc"] by (simp add: tl_x_def)
qed

lemma literal_none:
  "hd w \<noteq> c \<and> w \<noteq> [] \<Longrightarrow> \<not> starts_with (c # r) w"
  by (cases w) auto

lemma first_char_show_int: "\<exists>c cs. show_int i = c # cs \<and> (is_digit c \<or> c = CHR ''-'')"
  using show_nat_digits [of "nat i"] show_nat_digits [of "nat (- i)"]
  by (cases "show_nat (nat i)") (auto simp: show_int_def)

lemma next_token_number:
  assumes "show_int i = c # cs" "is_digit c \<or> c = CHR ''-''" "json_number (c # r) = Some (t, r')"
  shows "next_token (c # r) = Some (t, r')"
proof -
  have "c \<noteq> CHR ''['' \<and> c \<noteq> CHR '']'' \<and> c \<noteq> CHR ''{'' \<and> c \<noteq> CHR ''}'' \<and> c \<noteq> CHR '','' \<and>
        c \<noteq> CHR '':'' \<and> c \<noteq> CHR 0x22 \<and> c \<noteq> CHR ''n'' \<and> c \<noteq> CHR ''t'' \<and> c \<noteq> CHR ''f''"
    using assms(2) by (auto simp: is_digit_def)
  then have "literal json_literals (c # r) = None"
    by (simp add: literal_def json_literals_def)
  then show ?thesis using assms(3) \<open>c \<noteq> CHR ''['' \<and> _\<close> by (simp add: next_token_def)
qed

lemma next_token_scalar:
  assumes "tok_sep s" "printable v" "\<forall>xs. v \<noteq> JArr xs" "\<forall>ps. v \<noteq> JObj ps"
  shows "next_token (jdump v @ s) = Some (TVal v, s)"
proof (cases v)
  case (JInt i)
  obtain c cs where c: "show_int i = c # cs" "is_digit c \<or> c = CHR ''-''"
    using first_char_show_int by blast
  show ?thesis
    using next_token_number [OF c, of "cs @ s"] json_number_show_int [OF assms(1), of i] JInt c(1)
      assms(2) by simp
next
  case (JFloat x)
  show ?thesis
  proof (cases x)
    case (Fin q)
    obtain c cs where c: "show_int \<lfloor>q\<rfloor> = c # cs" "is_digit c \<or> c = CHR ''-''"
      using first_char_show_int by blast
    show ?thesis
      using next_token_number [OF c, of "cs @ ''.0'' @ s"] json_number_show_float [OF assms(1), of q]
        assms(2) JFloat Fin c(1)
      by simp
  next
    case NInf
    have "json_number (''-Infinity'' @ s) = None" by (simp add: json_number_def json_digits_def is_digit_def)
    then show ?thesis using JFloat NInf
      by (simp add: next_token_def literal_def json_literals_def float_literals_def)
  qed (simp_all add: JFloat next_token_def literal_def json_literals_def float_literals_def
         json_number_def json_digits_def is_digit_def)
next
  case (JStr x)
  then show ?thesis
    using jstring_quote_str [of "[]" x s] by (simp add: next_token_def quote_str_def)
qed (use assms in \<open>simp_all add: next_token_def literal_def json_literals_def\<close>)

lemma jtokens_ws: "is_json_ws c \<Longrightarrow> jtokens (c # r) = jtokens r"
  by (simp add: jtokens.simps [of "c # r"] jtokens.simps [of r])

lemma jtokens_next:
  "\<not> is_json_ws c \<Longrightarrow> next_token (c # r) = Some (t, r') \<Longrightarrow> jtokens (c # r) = t # jtokens r'"
  by (simp add: jtokens.simps [of "c # r"])

lemma jtokens_punct:
  "c \<in> {CHR ''['', CHR '']'', CHR ''{'', CHR ''}'', CHR '','', CHR '':''} \<Longrightarrow>
   jtokens (c # r) = (if c = CHR ''['' then TOpenA else if c = CHR '']'' then TCloseA
       else if c = CHR ''{'' then TOpenO else if c = CHR ''}'' then TCloseO
       else if c = CHR '','' then TComma else TColon) # jtokens r"
  by (rule jtokens_next) (auto simp: is_json_ws_def next_token_def)

lemma number_start_not_ws: "is_digit c \<or> c = CHR ''-'' \<Longrightarrow> \<not> is_json_ws c"
  by (auto simp: is_digit_def is_json_ws_def)

lemma jtokens_scalar:
  assumes "tok_sep s" "printable v" "\<forall>xs. v \<noteq> JArr xs" "\<forall>ps. v \<noteq> JObj ps"
  shows "jtokens (jdump v @ s) = jtoks v @ jtokens s"
proof -
  obtain c r where cr: "jdump v @ s = c # r" "\<not> is_json_ws c"
  proof (cases v)
    case (JInt i)
    then show ?thesis using first_char_show_int [of i] that number_start_not_ws by auto
  next
    case (JFloat x)
    show ?thesis
    proof (cases x)
      case (Fin q)
      obtain c cs where "show_int \<lfloor>q\<rfloor> = c # cs" "is_digit c \<or> c = CHR ''-''"
        using first_char_show_int by blast
      then show ?thesis using that number_start_not_ws JFloat Fin by auto
    qed (use JFloat that in \<open>auto simp: is_json_ws_def\<close>)
  next
    case (JBool b)
    then show ?thesis using that by (cases b) (auto simp: is_json_ws_def)
  qed (use assms that in \<open>auto simp: is_json_ws_def quote_str_def\<close>)
  have "jtokens (c # r) = TVal v # jtokens s"
    using next_token_scalar [OF assms] cr by (intro jtokens_next) simp_all
  moreover have "jtoks v = [TVal v]" using assms(3,4) by (cases v) simp_all
  ultimately show ?thesis using cr by simp
qed

lemma jtokens_comma: "jtokens ('', '' @ r) = TComma # jtokens r"
proof -
  have "jtokens ('', '' @ r) = TComma # jtokens ('' '' @ r)"
    using jtokens_punct [of "CHR '',''" "'' '' @ r"] by simp
  also have "jtokens ('' '' @ r) = jtokens r" by (simp add: jtokens_ws is_json_ws_def)
  finally show ?thesis .
qed

lemma jtokens_join:
  assumes "\<And>y s. y \<in> set ys \<Longrightarrow> tok_sep s \<Longrightarrow> jtokens (f y @ s) = g y @ jtokens s"
    and "tok_sep s"
  shows "jtokens (join_with '', '' (map f ys) @ s) = join_with [TComma] (map g ys) @ jtokens s"
  using assms
proof (induction ys arbitrary: s rule: induct_list012)
  case 1
  then show ?case by simp
next
  case (2 x)
  then show ?case by simp
next
  case (3 x y zs)
  let ?rest = "join_with '', '' (map f (y # zs)) @ s"
  have "jtokens (f x @ '', '' @ ?rest) = g x @ jtokens ('', '' @ ?rest)"
    using "3.prems"(1) [of x "'', '' @ ?rest"] by (simp add: tok_sep_def)
  also have "\<dots> = g x @ TComma # jtokens ?rest"
    by (simp only: jtokens_comma)
  also have "jtokens ?rest = join_with [TComma] (map g (y # zs)) @ jtokens s"
    by (rule "3.IH"(2)) (simp_all add: "3.prems")
  finally show ?case by simp
qed

lemma jtokens_member:
  assumes "tok_sep s"
    and ih: "\<And>s'. tok_sep s' \<Longrightarrow> jtokens (jdump v @ s') = jtoks v @ jtokens s'"
  shows "jtokens (quote_str k @ '': '' @ jdump v @ s) = (TVal (JStr k) # TColon # jtoks v) @ jtokens s"
proof -
  have q: "next_token (quote_str k @ '': '' @ jdump v @ s) = Some (TVal (JStr k), '': '' @ jdump v @ s)"
    using jstring_quote_str [of "[]" k "'': '' @ jdump v @ s"] by (simp add: next_token_def quote_str_def)
  have "jtokens (quote_str k @ '': '' @ jdump v @ s) = TVal (JStr k) # jtokens ('': '' @ jdump v @ s)"
    using q by (simp add: quote_str_def jtokens_next is_json_ws_def)
  also have "jtokens ('': '' @ jdump v @ s) = TColon # jtokens ('' '' @ jdump v @ s)"
    using jtokens_punct [of "CHR '':''" "'' '' @ jdump v @ s"] by simp
  also have "jtokens ('' '' @ jdump v @ s) = jtokens (jdump v @ s)"
    by (simp add: jtokens_ws is_json_ws_def)
  finally show ?thesis using ih [OF assms(1)] by simp
qed

lemma jtokens_jdump:
  "printable v \<Longrightarrow> tok_sep s \<Longrightarrow> jtokens (jdump v @ s) = jtoks v @ jtokens s"
proof (induction v arbitrary: s)
  case (JArr xs)
  have "jtokens (join_with '', '' (map jdump xs) @ '']'' @ s) =
        join_with [TComma] (map jtoks xs) @ jtokens ('']'' @ s)"
    using JArr by (intro jtokens_join) (auto simp: tok_sep_def list_all_iff)
  moreover have "jtokens ('']'' @ s) = TCloseA # jtokens s"
    using jtokens_punct [of "CHR '']''" s] by simp
  moreover have "jtokens (''['' @ join_with '', '' (map jdump xs) @ '']'' @ s) =
        TOpenA # jtokens (join_with '', '' (map jdump xs) @ '']'' @ s)"
    using jtokens_punct [of "CHR ''[''"] by simp
  ultimately show ?case by simp
next
  case (JObj ps)
  have "jtokens (join_with '', '' (map (\<lambda>(k, v). quote_str k @ '': '' @ jdump v) ps) @ ''}'' @ s) =
        join_with [TComma] (map (\<lambda>(k, v). TVal (JStr k) # TColon # jtoks v) ps) @ jtokens (''}'' @ s)"
  proof (rule jtokens_join)
    fix y s'
    assume y: "y \<in> set ps" and ts: "tok_sep s'"
    obtain k v where yk: "y = (k, v)" by fastforce
    have pv: "printable v" using JObj.prems(1) y yk by (auto simp: list_all_iff)
    have ih: "jtokens (jdump v @ r) = jtoks v @ jtokens r" if "tok_sep r" for r
      using JObj.IH [of y v r] y yk pv that by simp
    show "jtokens ((case y of (k, v) \<Rightarrow> quote_str k @ '': '' @ jdump v) @ s') =
        (case y of (k, v) \<Rightarrow> TVal (JStr k) # TColon # jtoks v) @ jtokens s'"
      using jtokens_member [OF ts ih] yk by simp
  qed (simp add: tok_sep_def)
  moreover have "jtokens (''}'' @ s) = TCloseO # jtokens s"
    using jtokens_punct [of "CHR ''}''" s] by simp
  moreover have "jtokens (''{'' @ r) = TOpenO # jtokens r" for r
    using jtokens_punct [of "CHR ''{''"] by simp
  ultimately show ?case by simp
qed (rule jtokens_scalar; simp)+

lemma jparse_items:
  assumes "\<And>y b st ts. y \<in> set (x # xs) \<Longrightarrow> jparse (MValue b) st (jtoks y @ ts) = jparse (MAfter y) st ts"
  shows "jparse (MValue b) (FArr acc # st) (join_with [TComma] (map jtoks (x # xs)) @ TCloseA # ts) =
         jparse (MAfter (JArr (rev acc @ x # xs))) st ts"
  using assms
proof (induction xs arbitrary: x acc b)
  case Nil
  then show ?case by simp
next
  case (Cons y ys)
  have "jparse (MValue b) (FArr acc # st) (jtoks x @ TComma # join_with [TComma] (map jtoks (y # ys)) @ TCloseA # ts) =
        jparse (MValue False) (FArr (x # acc) # st) (join_with [TComma] (map jtoks (y # ys)) @ TCloseA # ts)"
    using Cons.prems [of x] by simp
  also have "\<dots> = jparse (MAfter (JArr (rev (x # acc) @ y # ys))) st ts"
    by (rule Cons.IH) (rule Cons.prems, auto)
  finally show ?case by simp
qed

lemma jparse_members:
  assumes "\<And>k v b st ts. (k, v) \<in> set (p # ps) \<Longrightarrow> jparse (MValue b) st (jtoks v @ ts) = jparse (MAfter v) st ts"
  shows "jparse (MKey b) (FObj acc # st)
           (join_with [TComma] (map (\<lambda>(k, v). TVal (JStr k) # TColon # jtoks v) (p # ps)) @ TCloseO # ts) =
         jparse (MAfter (JObj (rev acc @ p # ps))) st ts"
  using assms
proof (induction ps arbitrary: p acc b)
  case Nil
  obtain k v where p: "p = (k, v)" by fastforce
  then show ?case using Nil.prems [of k v] by simp
next
  case (Cons q qs)
  obtain k v where p: "p = (k, v)" by fastforce
  have "jparse (MKey b) (FObj acc # st)
          ((TVal (JStr k) # TColon # jtoks v) @ TComma #
           join_with [TComma] (map (\<lambda>(k, v). TVal (JStr k) # TColon # jtoks v) (q # qs)) @ TCloseO # ts) =
        jparse (MKey False) (FObj ((k, v) # acc) # st)
          (join_with [TComma] (map (\<lambda>(k, v). TVal (JStr k) # TColon # jtoks v) (q # qs)) @ TCloseO # ts)"
    using Cons.prems [of k v] p by simp
  also have "\<dots> = jparse (MAfter (JObj (rev ((k, v) # acc) @ q # qs))) st ts"
    by (rule Cons.IH) (rule Cons.prems, auto)
  finally show ?case using p by simp
qed

lemma jparse_jtoks: "jparse (MValue b) st (jtoks v @ ts) = jparse (MAfter v) st ts"
proof (induction v arbitrary: b st ts)
  case (JArr xs)
  show ?case
  proof (cases xs)
    case Nil
    then show ?thesis by simp
  next
    case (Cons x xs')
    have "jparse (MValue True) (FArr [] # st) (join_with [TComma] (map jtoks (x # xs')) @ TCloseA # ts) =
          jparse (MAfter (JArr (rev [] @ x # xs'))) st ts"
      by (rule jparse_items) (use JArr.IH Cons in auto)
    then show ?thesis using Cons by simp
  qed
next
  case (JObj ps)
  show ?case
  proof (cases ps)
    case Nil
    then show ?thesis by simp
  next
    case (Cons p ps')
    have "jparse (MKey True) (FObj [] # st)
            (join_with [TComma] (map (\<lambda>(k, v). TVal (JStr k) # TColon # jtoks v) (p # ps')) @ TCloseO # ts) =
          jparse (MAfter (JObj (rev [] @ p # ps'))) st ts"
      by (rule jparse_members) (use JObj.IH Cons in fastforce)
    then show ?thesis using Cons by simp
  qed
qed simp_all

lemma json_loads_jdump: "printable v \<Longrightarrow> json_loads (jdump v) = Inr v"
proof -
  assume "printable v"
  then have "jtokens (jdump v @ []) = jtoks v @ jtokens []"
    by (intro jtokens_jdump) (simp_all add: tok_sep_def)
  then have "jtokens (jdump v) = jtoks v" by (simp add: jtokens.simps [of "[]"])
  moreover have "jparse (MValue False) [] (jtoks v @ []) = Inr v" by (simp only: jparse_jtoks) simp
  ultimately show ?thesis by (simp add: json_loads_def)
qed


section \<open>The digit limit\<close>

lemma next_token_digit:
  assumes "is_digit c" "json_number (c # r) = Some (t, r')"
  shows "next_token (c # r) = Some (t, r')"
proof -
  have "c \<noteq> CHR ''['' \<and> c \<noteq> CHR '']'' \<and> c \<noteq> CHR ''{'' \<and> c \<noteq> CHR ''}'' \<and> c \<noteq> CHR '','' \<and>
        c \<noteq> CHR '':'' \<and> c \<noteq> CHR 0x22 \<and> c \<noteq> CHR ''n'' \<and> c \<noteq> CHR ''t'' \<and> c \<noteq> CHR ''f''"
    using assms(1) by (auto simp: is_digit_def)
  then show ?thesis using assms(2) by (simp add: next_token_def literal_def json_literals_def)
qed

text \<open>An integer literal of more than \<open>max_str_digits\<close> digits is the token \<open>TBigInt\<close>.\<close>

lemma json_number_big:
  assumes "is_digit c" "c \<noteq> CHR ''0''" "list_all is_digit cs" "max_str_digits < Suc (length cs)"
    and "tok_sep s"
  shows "json_number (c # cs @ s) = Some (TBigInt, s)"
proof -
  have s: "takeWhile is_digit s = [] \<and> dropWhile is_digit s = s"
    using assms(5) by (rule tok_sep_not_digit)
  have "takeWhile is_digit (cs @ s) = cs" "dropWhile is_digit (cs @ s) = s"
    using assms(3) s by (simp_all add: takeWhile_append2 dropWhile_append2 list_all_iff)
  then have "json_digits (c # cs @ s) = Some (c # cs, s)"
    using assms(1,2) by (simp add: json_digits_def)
  moreover have "c \<noteq> CHR ''-''" using assms(1) by (auto simp: is_digit_def)
  ultimately show ?thesis
    using assms(4) tok_sep_frac [OF assms(5)] tok_sep_exp [OF assms(5)] by (simp add: json_number_def)
qed

text \<open>\<open>json.loads\<close> of an object whose member value is such a literal raises \<open>ValueError\<close>.\<close>

lemma json_loads_big_member:
  assumes "is_digit c" "c \<noteq> CHR ''0''" "list_all is_digit cs" "max_str_digits < Suc (length cs)"
  shows "json_loads (''{'' @ quote_str k @ '': '' @ c # cs @ ''}'') = Inl IntDigitsError"
proof -
  have n: "next_token (c # cs @ ''}'') = Some (TBigInt, ''}'')"
    using next_token_digit [OF assms(1) json_number_big [OF assms, of "''}''"]] by (simp add: tok_sep_def)
  have q: "next_token (quote_str k @ '': '' @ c # cs @ ''}'') = Some (TVal (JStr k), '': '' @ c # cs @ ''}'')"
    using jstring_quote_str [of "[]" k "'': '' @ c # cs @ ''}''"] by (simp add: next_token_def quote_str_def)
  have "jtokens (c # cs @ ''}'') = [TBigInt, TCloseO]"
    using jtokens_next [OF number_start_not_ws n] assms(1)
    by (simp add: jtokens_punct [of "CHR ''}''" "[]"] jtokens.simps [of "[]"])
  then have "jtokens ('': '' @ c # cs @ ''}'') = [TColon, TBigInt, TCloseO]"
    using jtokens_punct [of "CHR '':''" "'' '' @ c # cs @ ''}''"] by (simp add: jtokens_ws is_json_ws_def)
  moreover have "jtokens (quote_str k @ '': '' @ c # cs @ ''}'') =
                 TVal (JStr k) # jtokens ('': '' @ c # cs @ ''}'')"
    using q by (simp add: quote_str_def jtokens_next is_json_ws_def)
  ultimately have "jtokens (quote_str k @ '': '' @ c # cs @ ''}'') = [TVal (JStr k), TColon, TBigInt, TCloseO]"
    by simp
  then have "jtokens (''{'' @ quote_str k @ '': '' @ c # cs @ ''}'') =
             [TOpenO, TVal (JStr k), TColon, TBigInt, TCloseO]"
    using jtokens_punct [of "CHR ''{''"] by simp
  then show ?thesis by (simp add: json_loads_def)
qed

end
