(* ===== verification/Json_Logs.thy ===== *)
theory Json_Logs
  imports Json Timing Folder "HOL-Library.Char_ord" "HOL-Library.List_Lexorder"
begin

text \<open>
  The parsers of the JSON console-log format and what they write:
  \<^item> \<open>src/docs/plans/Bookkeeper/speed_tests/improved_parser_json.py\<close>
    (\<open>parse_json_folder_analysis_data\<close>, \<open>parse_timing_data\<close>),
  \<^item> \<open>src/docs/speed_tests/trial5_parser.py\<close> (\<open>parse_trial5_data\<close>,
    \<open>merge_data\<close>, \<open>save_results\<close>).
  Both capture \<open>({.+?})\<close> after a folder marker and hand it to \<open>json.loads\<close>
  (theory \<open>Json\<close>); both group the timer lines into runs as \<open>Timing\<close> does.
\<close>

section \<open>Capturing the JSON block\<close>

text \<open>
  \<open>({.+?})\<close> after a marker: an opening brace, one character, and the shortest run of
  characters up to a closing brace. Without \<open>re.DOTALL\<close> the dot does not match a
  newline, so a newline before the first closing brace fails the match at this
  position. The first character may be a closing brace itself; a multi-byte first
  character is completed by the following bytes, none of which is a brace or a newline.
\<close>

definition lazy_brace :: "bool \<Rightarrow> string \<Rightarrow> string matcher" where
  "lazy_brace dotall marker s = do {
     s1 \<leftarrow> lit (marker @ ''{'') s;
     (c, s2) \<leftarrow> (case s1 of [] \<Rightarrow> None | c # r \<Rightarrow> if dotall \<or> c \<noteq> CHR 0x0A then Some (c, r) else None);
     let g = takeWhile (\<lambda>x. x \<noteq> CHR ''}'' \<and> (dotall \<or> x \<noteq> CHR 0x0A)) s2;
     s4 \<leftarrow> lit ''}'' (drop (length g) s2);
     Some (''{'' @ c # g @ ''}'', s4)
   }"

section \<open>improved_parser_json.py\<close>

definition json_folder_marker :: string where
  "json_folder_marker = microscope @ '' FOLDER_ANALYSIS_DATA: ''"

text \<open>The columns of a folder row and the defaults of \<open>data.get\<close>.\<close>

definition json_folder_fields :: "(string \<times> json) list" where
  "json_folder_fields =
     [(''timestamp'', JInt 0), (''totalFiles'', JInt 0), (''duplicateCandidateCount'', JInt 0),
      (''duplicateCandidatePercent'', JInt 0), (''uniqueFilesSizeMB'', JFloat (Fin 0)),
      (''duplicateCandidatesSizeMB'', JFloat (Fin 0)), (''totalSizeMB'', JFloat (Fin 0)),
      (''totalDirectoryCount'', JInt 0), (''avgDirectoryDepth'', JFloat (Fin 0)),
      (''maxDirectoryDepth'', JInt 0), (''uniqueFilesTotal'', JInt 0), (''maxFileDepth'', JInt 0),
      (''avgFileDepth'', JFloat (Fin 0)), (''avgFilenameLength'', JFloat (Fin 0)),
      (''zeroByteFiles'', JInt 0), (''largestFileSizesMB'', JFloat (Fin 0))]"

definition json_folder_row :: "nat \<Rightarrow> json pydict \<Rightarrow> json pydict" where
  "json_folder_row n data =
     (''TestRun#'', JInt (int n)) # map (\<lambda>(k, d). (k, py_get (dget data) k d)) json_folder_fields"

text \<open>
  One capture: \<open>json.loads\<close>, then the row. Every exception of \<open>json.loads\<close>
  (\<open>except json.JSONDecodeError\<close>, then \<open>except Exception\<close>) and the
  \<open>AttributeError\<close> of \<open>.get\<close> on a value that is not an object are caught and skip
  the capture without using up a number; an error of the progress \<open>print\<close> comes
  after the row is stored and the number used.
\<close>

definition json_folder_record :: "nat \<Rightarrow> string \<Rightarrow> json pydict option" where
  "json_folder_record n m =
     (case json_loads m of Inr (JObj ps) \<Rightarrow> Some (json_folder_row n (json_dict ps)) | _ \<Rightarrow> None)"

definition parse_json_folder_analysis_data :: "string \<Rightarrow> json pydict list" where
  "parse_json_folder_analysis_data content =
     number_records json_folder_record 1 (findall (lazy_brace True json_folder_marker) content)"

text \<open>
  \<open>parse_timing_data\<close>: the runs are grouped as in \<open>Timing\<close>; the mode is read from
  the 3000 code points from the run's start, and is worker mode when they contain
  \<open>Web Worker restart failed\<close> or \<open>fileHashWorker.js\<close>.
\<close>

definition detect_mode_json :: "string \<Rightarrow> nat \<Rightarrow> bool" where
  "detect_mode_json content start =
     (let search_window = utf8_take 3000 (drop start content)
      in str_contains ''Web Worker restart failed'' search_window \<or>
         str_contains ''fileHashWorker.js'' search_window)"

definition parse_timing_data_json :: "string \<Rightarrow> timing_row list" where
  "parse_timing_data_json content =
     (let st = group_runs (timer_events content)
      in map (\<lambda>k. three_stage_row k
                    (detect_mode_json content (dget_or (test_run_positions st) k 0))
                    (dget (dget_or (test_run_data st) k [])))
           (sort (map fst (test_run_data st))))"

section \<open>trial5_parser.py\<close>

text \<open>The marker is written as the UTF-8 bytes of the microscope read as Windows-1252.\<close>

definition trial5_marker :: string where
  "trial5_marker = mojibake_microscope @ '' FOLDER_ANALYSIS_DATA: ''"

text \<open>\<open>format(x, '.1f')\<close>: numbers (and booleans) format; \<open>None\<close>, strings, lists and
  dicts raise.\<close>

fun fmt_float_ok :: "json \<Rightarrow> bool" where
  "fmt_float_ok (JInt _) = True"
| "fmt_float_ok (JFloat _) = True"
| "fmt_float_ok (JBool _) = True"
| "fmt_float_ok _ = False"

text \<open>
  One capture, numbered by its position among all captures: \<open>{'TestRun': i, **data}\<close>
  (a \<open>TestRun\<close> key of the data overwrites the number in place). Only
  \<open>JSONDecodeError\<close> is caught; the \<open>ValueError\<close> of an integer literal over the
  digit limit, the \<open>TypeError\<close> of \<open>**data\<close> on a value that is not an object and
  the \<open>.1f\<close> formats of the progress line raise out of the function.
\<close>

definition trial5_folder_item :: "nat \<Rightarrow> string \<Rightarrow> json pydict option option" where
  "trial5_folder_item i m =
     (case json_loads m of
        Inl JSONDecodeError \<Rightarrow> Some None
      | Inl IntDigitsError \<Rightarrow> None
      | Inr (JObj ps) \<Rightarrow>
          (let data = json_dict ps in
           if fmt_float_ok (py_get (dget data) ''totalSizeMB'' (JInt 0)) \<and>
              fmt_float_ok (py_get (dget data) ''avgDirectoryDepth'' (JInt 0))
           then Some (Some (foldl (\<lambda>d (k, v). dset d k v) [(''TestRun'', JInt (int i))] data))
           else None)
      | Inr _ \<Rightarrow> None)"

fun trial5_folder :: "nat \<Rightarrow> string list \<Rightarrow> json pydict list option" where
  "trial5_folder i [] = Some []"
| "trial5_folder i (m # ms) = do {
     item \<leftarrow> trial5_folder_item i m;
     rest \<leftarrow> trial5_folder (Suc i) ms;
     Some (case item of Some r \<Rightarrow> r # rest | None \<Rightarrow> rest)
   }"

text \<open>The grouping loop of \<open>parse_trial5_data\<close>, over \<open>re.findall\<close> of the main-thread
  timer lines: the current run and the run dictionaries.\<close>

definition trial5_step ::
  "nat \<times> (nat \<times> (string \<times> int) list) list \<Rightarrow> string \<times> int \<Rightarrow> nat \<times> (nat \<times> (string \<times> int) list) list" where
  "trial5_step st e =
     (case (st, e) of ((current_run, timing_data), (event, t)) \<Rightarrow>
        let current_run' = (if event = ''PROCESSING_START'' then Suc current_run else current_run)
        in if 0 < current_run'
           then (current_run', dset timing_data current_run'
                                 (dset (dget_or timing_data current_run' []) event t))
           else (current_run', timing_data))"

definition trial5_groups :: "string \<Rightarrow> (nat \<times> (string \<times> int) list) list" where
  "trial5_groups content =
     snd (foldl trial5_step (0, [])
            (map (\<lambda>(p, ev, t, src). (ev, t)) (timer_matches ''processingTimer'' Main content)))"

text \<open>A duration when the end is not before the start, \<open>None\<close> otherwise; a missing
  event reads as 0.\<close>

definition t5_span :: "int \<Rightarrow> int \<Rightarrow> json" where
  "t5_span a b = (if b \<ge> a then JInt (b - a) else JNull)"

definition trial5_timing_row :: "nat \<Rightarrow> (string \<times> int) list \<Rightarrow> json pydict" where
  "trial5_timing_row run_num data =
     (let start = dget_or data ''PROCESSING_START'' 0;
          dedup_start = dget_or data ''DEDUPLICATION_START'' 0;
          ui_start = dget_or data ''UI_UPDATE_START'' 0;
          end_t = dget_or data ''ALL_FILES_DISPLAYED'' 0
      in [(''TestRun'', JInt (int run_num)), (''totalDurationMs'', t5_span start end_t),
          (''phase1FileAnalysisMs'', t5_span start dedup_start),
          (''phase2HashProcessingMs'', t5_span dedup_start ui_start),
          (''phase3UIRenderingMs'', t5_span ui_start end_t),
          (''PROCESSING_START'', JInt start), (''DEDUPLICATION_START'', JInt dedup_start),
          (''UI_UPDATE_START'', JInt ui_start), (''ALL_FILES_DISPLAYED'', JInt end_t)])"

definition parse_trial5_data :: "string \<Rightarrow> (json pydict list \<times> json pydict list) option" where
  "parse_trial5_data content = do {
     folder_data \<leftarrow> trial5_folder 1 (findall (lazy_brace False trial5_marker) content);
     let timing_data = trial5_groups content;
     Some (folder_data,
           map (\<lambda>k. trial5_timing_row k (dget_or timing_data k [])) (sort (map fst timing_data)))
   }"

subsection \<open>Merging and the CSV columns\<close>

text \<open>
  \<open>merge_data\<close> keys both lists by \<open>TestRun\<close> (a later item with the same key
  replaces an earlier one), visits the sorted union of the keys, and merges the folder
  item with the timing item, the timing values winning. The keys are modelled as
  integers: a folder item whose \<open>TestRun\<close> the JSON overwrote with a value that is
  not an integer gives \<open>None\<close>.
\<close>

definition run_key :: "json pydict \<Rightarrow> int option" where
  "run_key item = (case dget item ''TestRun'' of Some (JInt n) \<Rightarrow> Some n | _ \<Rightarrow> None)"

definition by_run :: "json pydict list \<Rightarrow> (int \<times> json pydict) list option" where
  "by_run items =
     (if list_all (\<lambda>it. run_key it \<noteq> None) items
      then Some (foldl (\<lambda>d it. dset d (the (run_key it)) it) [] items) else None)"

definition merge_data :: "json pydict list \<Rightarrow> json pydict list \<Rightarrow> json pydict list option" where
  "merge_data folder_data timing_data = do {
     folder_by_run \<leftarrow> by_run folder_data;
     timing_by_run \<leftarrow> by_run timing_data;
     let all_runs = sort (remdups (map fst folder_by_run @ map fst timing_by_run));
     Some (map (\<lambda>run_num.
                  dset (foldl (\<lambda>d (k, v). dset d k v) (dget_or folder_by_run run_num [])
                          (dget_or timing_by_run run_num []))
                       ''TestRun'' (JInt run_num))
               all_runs)
   }"

definition csv_base_fields :: "string list" where
  "csv_base_fields =
     [''TestRun'', ''timestamp'', ''totalFiles'', ''duplicateCandidateCount'',
      ''duplicateCandidatePercent'', ''uniqueFilesSizeMB'', ''duplicateCandidatesSizeMB'',
      ''totalSizeMB'', ''totalDirectoryCount'', ''avgDirectoryDepth'', ''maxDirectoryDepth'',
      ''uniqueFilesTotal'', ''maxFileDepth'', ''avgFileDepth'', ''avgFilenameLength'',
      ''zeroByteFiles'', ''totalDurationMs'', ''phase1FileAnalysisMs'',
      ''phase2HashProcessingMs'', ''phase3UIRenderingMs'', ''PROCESSING_START'',
      ''DEDUPLICATION_START'', ''UI_UPDATE_START'', ''ALL_FILES_DISPLAYED'']"

text \<open>\<open>save_results\<close>: the base columns, then every other key of the rows in sorted
  order (Python compares strings by code point, which is the byte order of their UTF-8).
  An empty list writes nothing.\<close>

definition save_fieldnames :: "json pydict list \<Rightarrow> string list option" where
  "save_fieldnames merged_data =
     (if merged_data = [] then None
      else Some (csv_base_fields @
                 filter (\<lambda>k. k \<notin> set csv_base_fields)
                   (sort (remdups (concat (map (map fst) merged_data))))))"

section \<open>Lemmas\<close>

lemma json_folder_record_tag:
  "json_folder_record n m = Some r \<Longrightarrow> dget r ''TestRun#'' = Some (JInt (int n))"
  by (auto simp: json_folder_record_def json_folder_row_def dget_def split: sum.splits json.splits)

lemma json_folder_record_None:
  "(json_folder_record n m = None) = (json_folder_record n' m = None)"
  by (simp add: json_folder_record_def split: sum.splits json.splits)

lemma jdump_obj_body:
  assumes "ps \<noteq> []"
  obtains c g where "jdump (JObj ps) = ''{'' @ c # g @ ''}''"
proof -
  obtain k v qs where ps: "ps = (k, v) # qs" using assms by (cases ps) auto
  have "join_with '', '' (map (\<lambda>(k, v). quote_str k @ '': '' @ jdump v) ps) \<noteq> []"
    using ps by (cases qs) (simp_all add: quote_str_def)
  then obtain c g where "join_with '', '' (map (\<lambda>(k, v). quote_str k @ '': '' @ jdump v) ps) = c # g"
    by (cases "join_with '', '' (map (\<lambda>(k, v). quote_str k @ '': '' @ jdump v) ps)") auto
  then show ?thesis using that by simp
qed

lemma lazy_brace_body:
  assumes "CHR ''}'' \<notin> set g"
  shows "lazy_brace True marker (marker @ ''{'' @ c # g @ ''}'' @ rest) = Some (''{'' @ c # g @ ''}'', rest)"
proof -
  have tw: "takeWhile (\<lambda>x. x \<noteq> CHR ''}'' \<and> (True \<or> x \<noteq> CHR 0x0A)) (g @ ''}'' @ rest) = g"
    using assms by (subst takeWhile_append2) auto
  have l1: "lit (marker @ ''{'') ((marker @ ''{'') @ c # g @ ''}'' @ rest) = Some (c # g @ ''}'' @ rest)"
    by (rule lit_append)
  have l2: "lit ''}'' (drop (length g) (g @ ''}'' @ rest)) = Some rest"
    using lit_append [of "''}''" rest] by simp
  show ?thesis
    using tw l2 by (simp add: lazy_brace_def lit_snoc Let_def)
qed

lemma lazy_brace_jdump:
  assumes "ps \<noteq> []" "CHR ''}'' \<notin> set (butlast (jdump (JObj ps)))"
  shows "lazy_brace True marker (marker @ jdump (JObj ps) @ rest) = Some (jdump (JObj ps), rest)"
proof -
  obtain c g where j: "jdump (JObj ps) = ''{'' @ c # g @ ''}''" using assms(1) by (rule jdump_obj_body)
  have "CHR ''}'' \<notin> set g" using assms(2) j by (simp add: butlast_append)
  from lazy_brace_body [OF this, of marker c rest] show ?thesis by (simp only: j append_assoc append_Cons)
qed

lemma json_folder_marker_length: "length json_folder_marker = 27"
  by (simp add: json_folder_marker_def microscope_def)

lemma three_stage_row_mode: "(three_stage_row k w d)\<lparr>is_worker_mode := False\<rparr> = three_stage_row k False d"
  by (simp add: three_stage_row_def Let_def)

lemma trial5_step_group_step:
  "trial5_step (current_test_run st, test_run_data st) (ev, t) =
   (current_test_run (group_step st (p, ev, t, src)), test_run_data (group_step st (p, ev, t, src)))"
  by (simp add: trial5_step_def group_step_def Let_def)

lemma trial5_foldl:
  "foldl trial5_step (current_test_run st, test_run_data st) (map (\<lambda>(p, ev, t, src). (ev, t)) evs) =
   (current_test_run (foldl group_step st evs), test_run_data (foldl group_step st evs))"
proof (induction evs arbitrary: st)
  case Nil
  then show ?case by simp
next
  case (Cons e evs)
  obtain p ev t src where e: "e = (p, ev, t, src)" by (cases e) auto
  show ?case using Cons.IH [of "group_step st e"] trial5_step_group_step [of st ev t p src] e by simp
qed

lemma trial5_groups_eq:
  "trial5_groups content = test_run_data (group_runs (timer_matches ''processingTimer'' Main content))"
  using trial5_foldl [of groups_init "timer_matches ''processingTimer'' Main content"]
  by (simp add: trial5_groups_def group_runs_def groups_init_def)

lemma csv_base_fields_distinct: "distinct csv_base_fields"
  by (simp add: csv_base_fields_def)

section \<open>Properties\<close>

text \<open>
  C32: the rows of \<open>parse_json_folder_analysis_data\<close> are numbered \<open>1, 2, \<dots>\<close> without
  gaps, one for each captured block that decodes to a JSON object; a block that does not
  decode uses up no number.
\<close>

theorem json_folder_rows_numbered:
  "map (\<lambda>r. dget r ''TestRun#'') (parse_json_folder_analysis_data content) =
     map (\<lambda>k. Some (JInt (int k))) [1..<Suc (length (parse_json_folder_analysis_data content))] \<and>
   length (parse_json_folder_analysis_data content) =
     length (filter (\<lambda>m. \<exists>ps. json_loads m = Inr (JObj ps))
               (findall (lazy_brace True json_folder_marker) content))"
proof
  show "map (\<lambda>r. dget r ''TestRun#'') (parse_json_folder_analysis_data content) =
     map (\<lambda>k. Some (JInt (int k))) [1..<Suc (length (parse_json_folder_analysis_data content))]"
    using number_records_tags [where f = json_folder_record and tag = "\<lambda>r. dget r ''TestRun#''"
        and g = "\<lambda>k. Some (JInt (int k))", OF json_folder_record_tag,
        where n = 1 and ms = "findall (lazy_brace True json_folder_marker) content"]
    by (simp add: parse_json_folder_analysis_data_def del: upt_Suc)
  have "\<And>n n' m. (json_folder_record n m = None) = (json_folder_record n' m = None)"
    by (rule json_folder_record_None)
  from number_records_length [OF this, where n = 1]
  have "length (parse_json_folder_analysis_data content) =
     length (filter (\<lambda>m. json_folder_record 0 m \<noteq> None) (findall (lazy_brace True json_folder_marker) content))"
    by (simp add: parse_json_folder_analysis_data_def)
  moreover have "(\<lambda>m. json_folder_record 0 m \<noteq> None) = (\<lambda>m. \<exists>ps. json_loads m = Inr (JObj ps))"
    by (auto simp: fun_eq_iff json_folder_record_def split: sum.splits json.splits)
  ultimately show "length (parse_json_folder_analysis_data content) =
     length (filter (\<lambda>m. \<exists>ps. json_loads m = Inr (JObj ps))
               (findall (lazy_brace True json_folder_marker) content))"
    by simp
qed

text \<open>
  C33: a folder object logged after the marker is captured whole and read back as its row:
  when the printed object is not empty and has no closing brace before its last
  character, the first row of \<open>parse_json_folder_analysis_data\<close> holds the object's
  values (or the defaults) under the sixteen columns, numbered 1.
\<close>

theorem json_first_record:
  assumes "printable (JObj ps)" "ps \<noteq> []" "CHR ''}'' \<notin> set (butlast (jdump (JObj ps)))"
  shows "parse_json_folder_analysis_data (json_folder_marker @ jdump (JObj ps) @ rest) =
           json_folder_row 1 (json_dict ps) #
           number_records json_folder_record 2 (findall (lazy_brace True json_folder_marker) rest)"
proof -
  have len: "length rest < length (json_folder_marker @ jdump (JObj ps) @ rest)"
    by (simp only: length_append json_folder_marker_length)
  have "findall (lazy_brace True json_folder_marker) (json_folder_marker @ jdump (JObj ps) @ rest) =
        jdump (JObj ps) # findall (lazy_brace True json_folder_marker) rest"
    by (rule findall_first [where m = "lazy_brace True json_folder_marker",
          OF lazy_brace_jdump [OF assms(2,3)] len])
  moreover have "json_folder_record 1 (jdump (JObj ps)) = Some (json_folder_row 1 (json_dict ps))"
    using json_loads_jdump [OF assms(1)] by (simp add: json_folder_record_def del: jdump.simps)
  ultimately show ?thesis
    by (simp only: parse_json_folder_analysis_data_def number_records.simps option.case numeral_2_eq_2
        One_nat_def)
qed

theorem json_first_record_witness:
  "printable (JObj [(''totalFiles'', JInt 12)]) \<and> [(''totalFiles'', JInt 12)] \<noteq> [] \<and>
   CHR ''}'' \<notin> set (butlast (jdump (JObj [(''totalFiles'', JInt 12)]))) \<and>
   parse_json_folder_analysis_data (json_folder_marker @ jdump (JObj [(''totalFiles'', JInt 12)]) @ []) =
     json_folder_row 1 (json_dict [(''totalFiles'', JInt 12)]) #
     number_records json_folder_record 2 (findall (lazy_brace True json_folder_marker) [])"
proof -
  have h1: "printable (JObj [(''totalFiles'', JInt 12)])" by simp
  have h2: "[(''totalFiles'', JInt 12)] \<noteq> []" by simp
  have h3: "CHR ''}'' \<notin> set (butlast (jdump (JObj [(''totalFiles'', JInt 12)])))"
    by code_simp
  show ?thesis using h1 h2 h3 json_first_record [OF h1 h2 h3, of "[]"] by blast
qed

text \<open>
  C35: the grouping loop of \<open>parse_trial5_data\<close> refines the specification of the
  grouping: run \<open>k\<close> exists for \<open>1 \<le> k \<le> N\<close> and maps each event name to its last
  value among the main-thread timer lines of the run.
\<close>

theorem trial5_grouping_refines:
  "(\<lambda>k. map_option dget (dget (trial5_groups content) k)) =
   spec_runs (timer_matches ''processingTimer'' Main content)"
  using group_runs_inv [of "timer_matches ''processingTimer'' Main content"]
  by (simp add: trial5_groups_eq groups_inv_def abs_runs_def)

text \<open>
  C36: when a run has no \<open>DEDUPLICATION_START\<close> but has a non-negative
  \<open>UI_UPDATE_START\<close>, \<open>trial5_parser\<close> reports the absolute \<open>UI_UPDATE_START\<close>
  timestamp as the phase-2 duration (the missing event reads as 0), where the
  Bookkeeper parser reports no phase-2 duration.
\<close>

theorem trial5_phase2_absolute:
  assumes "dget data ''DEDUPLICATION_START'' = None" "dget data ''UI_UPDATE_START'' = Some u" "0 \<le> u"
  shows "dget (trial5_timing_row k data) ''phase2HashProcessingMs'' = Some (JInt u) \<and>
         phase2_hash_processing (three_stage_row k w (dget data)) = None"
proof -
  have "dget (trial5_timing_row k data) ''phase2HashProcessingMs'' =
        Some (t5_span (dget_or data ''DEDUPLICATION_START'' 0) (dget_or data ''UI_UPDATE_START'' 0))"
    by (simp add: trial5_timing_row_def Let_def dget_def)
  moreover have "dget_or data ''DEDUPLICATION_START'' 0 = 0" "dget_or data ''UI_UPDATE_START'' 0 = u"
    using assms(1,2) by (simp_all add: dget_or_def py_get_def)
  ultimately show ?thesis
    using assms by (simp add: t5_span_def three_stage_row_def Let_def)
qed

theorem trial5_phase2_absolute_witness:
  "dget [(''PROCESSING_START'', 100), (''UI_UPDATE_START'', (300::int))] ''DEDUPLICATION_START'' = None \<and>
   dget [(''PROCESSING_START'', 100), (''UI_UPDATE_START'', (300::int))] ''UI_UPDATE_START'' = Some 300 \<and>
   (0::int) \<le> 300 \<and>
   dget (trial5_timing_row 1 [(''PROCESSING_START'', 100), (''UI_UPDATE_START'', 300)])
     ''phase2HashProcessingMs'' = Some (JInt 300) \<and>
   phase2_hash_processing (three_stage_row 1 True (dget [(''PROCESSING_START'', 100), (''UI_UPDATE_START'', 300)])) = None"
proof -
  have h1: "dget [(''PROCESSING_START'', 100), (''UI_UPDATE_START'', (300::int))] ''DEDUPLICATION_START'' = None"
    by (simp add: dget_def)
  have h2: "dget [(''PROCESSING_START'', 100), (''UI_UPDATE_START'', (300::int))] ''UI_UPDATE_START'' = Some 300"
    by (simp add: dget_def)
  have h3: "(0::int) \<le> 300" by simp
  show ?thesis using h1 h2 h3 trial5_phase2_absolute [OF h1 h2 h3, of 1 True] by blast
qed

text \<open>
  C37: for a run with all four events in order, \<open>trial5_parser\<close> reports the same
  total and phase durations as the Bookkeeper parser, and the three phase columns of
  its row add up to its total column.
\<close>

theorem trial5_rows_agree:
  assumes "dget data ''PROCESSING_START'' = Some s" "dget data ''DEDUPLICATION_START'' = Some d"
    "dget data ''UI_UPDATE_START'' = Some u" "dget data ''ALL_FILES_DISPLAYED'' = Some a"
    "s \<le> d" "d \<le> u" "u \<le> a"
  shows "dget (trial5_timing_row k data) ''totalDurationMs'' =
           map_option JInt (total_duration (three_stage_row k w (dget data))) \<and>
         dget (trial5_timing_row k data) ''phase1FileAnalysisMs'' =
           map_option JInt (phase1_file_analysis (three_stage_row k w (dget data))) \<and>
         dget (trial5_timing_row k data) ''phase2HashProcessingMs'' =
           map_option JInt (phase2_hash_processing (three_stage_row k w (dget data))) \<and>
         dget (trial5_timing_row k data) ''phase3UIRenderingMs'' =
           map_option JInt (phase3_ui_rendering (three_stage_row k w (dget data))) \<and>
         (\<exists>t p1 p2 p3. dget (trial5_timing_row k data) ''totalDurationMs'' = Some (JInt t) \<and>
            dget (trial5_timing_row k data) ''phase1FileAnalysisMs'' = Some (JInt p1) \<and>
            dget (trial5_timing_row k data) ''phase2HashProcessingMs'' = Some (JInt p2) \<and>
            dget (trial5_timing_row k data) ''phase3UIRenderingMs'' = Some (JInt p3) \<and>
            p1 + p2 + p3 = t)"
  using assms by (simp add: trial5_timing_row_def dget_or_def py_get_def t5_span_def three_stage_row_def
      Let_def dget_def)

theorem trial5_rows_agree_witness:
  "let data = [(''PROCESSING_START'', 100), (''DEDUPLICATION_START'', 150), (''UI_UPDATE_START'', 300),
               (''ALL_FILES_DISPLAYED'', (400::int))] in
   dget data ''PROCESSING_START'' = Some 100 \<and> dget data ''DEDUPLICATION_START'' = Some 150 \<and>
   dget data ''UI_UPDATE_START'' = Some 300 \<and> dget data ''ALL_FILES_DISPLAYED'' = Some 400 \<and>
   (100::int) \<le> 150 \<and> (150::int) \<le> 300 \<and> (300::int) \<le> 400 \<and>
   dget (trial5_timing_row 1 data) ''totalDurationMs'' =
     map_option JInt (total_duration (three_stage_row 1 True (dget data))) \<and>
   dget (trial5_timing_row 1 data) ''phase1FileAnalysisMs'' =
     map_option JInt (phase1_file_analysis (three_stage_row 1 True (dget data))) \<and>
   dget (trial5_timing_row 1 data) ''phase2HashProcessingMs'' =
     map_option JInt (phase2_hash_processing (three_stage_row 1 True (dget data))) \<and>
   dget (trial5_timing_row 1 data) ''phase3UIRenderingMs'' =
     map_option JInt (phase3_ui_rendering (three_stage_row 1 True (dget data))) \<and>
   (\<exists>t p1 p2 p3. dget (trial5_timing_row 1 data) ''totalDurationMs'' = Some (JInt t) \<and>
      dget (trial5_timing_row 1 data) ''phase1FileAnalysisMs'' = Some (JInt p1) \<and>
      dget (trial5_timing_row 1 data) ''phase2HashProcessingMs'' = Some (JInt p2) \<and>
      dget (trial5_timing_row 1 data) ''phase3UIRenderingMs'' = Some (JInt p3) \<and>
      p1 + p2 + p3 = t)"
proof -
  define data :: "(string \<times> int) list" where
    "data = [(''PROCESSING_START'', 100), (''DEDUPLICATION_START'', 150), (''UI_UPDATE_START'', 300),
             (''ALL_FILES_DISPLAYED'', 400)]"
  have h1: "dget data ''PROCESSING_START'' = Some 100" by (simp add: data_def dget_def)
  have h2: "dget data ''DEDUPLICATION_START'' = Some 150" by (simp add: data_def dget_def)
  have h3: "dget data ''UI_UPDATE_START'' = Some 300" by (simp add: data_def dget_def)
  have h4: "dget data ''ALL_FILES_DISPLAYED'' = Some 400" by (simp add: data_def dget_def)
  have o: "(100::int) \<le> 150" "(150::int) \<le> 300" "(300::int) \<le> 400" by simp_all
  show ?thesis
    using h1 h2 h3 h4 o trial5_rows_agree [OF h1 h2 h3 h4 o, of 1 True] unfolding Let_def data_def
    by blast
qed

text \<open>
  C38: the CSV columns of \<open>save_results\<close> are distinct, start with the 24 fixed
  columns, and include every key of every merged row, so \<open>DictWriter\<close> never meets
  an unknown key.
\<close>

theorem save_fieldnames_cover:
  assumes "save_fieldnames rows = Some fs"
  shows "distinct fs \<and> take (length csv_base_fields) fs = csv_base_fields \<and>
         (\<forall>r\<in>set rows. set (map fst r) \<subseteq> set fs)"
proof -
  have fs: "fs = csv_base_fields @ filter (\<lambda>k. k \<notin> set csv_base_fields)
                   (sort (remdups (concat (map (map fst) rows))))"
    using assms by (simp add: save_fieldnames_def split: if_splits)
  have "distinct fs" using csv_base_fields_distinct by (auto simp: fs)
  moreover have "\<forall>r\<in>set rows. set (map fst r) \<subseteq> set fs" by (auto simp: fs)
  ultimately show ?thesis by (simp add: fs)
qed

theorem save_fieldnames_cover_witness:
  "let rows = [[(''TestRun'', JInt 1), (''zExtra'', JNull)], [(''aExtra'', JBool True)]] in
   save_fieldnames rows = Some (the (save_fieldnames rows)) \<and>
   distinct (the (save_fieldnames rows)) \<and>
   take (length csv_base_fields) (the (save_fieldnames rows)) = csv_base_fields \<and>
   list_all (\<lambda>r. set (map fst r) \<subseteq> set (the (save_fieldnames rows))) rows"
proof -
  define rows where "rows = [[(''TestRun'', JInt 1), (''zExtra'', JNull)], [(''aExtra'', JBool True)]]"
  have h: "save_fieldnames rows = Some (the (save_fieldnames rows))"
    by (simp add: rows_def save_fieldnames_def)
  show ?thesis
    using h save_fieldnames_cover [OF h] unfolding Let_def rows_def [symmetric] list_all_iff by blast
qed


text \<open>
  C39: a logged object with an integer member of more than 4300 digits makes
  \<open>json.loads\<close> raise \<open>ValueError\<close>, which is not a \<open>JSONDecodeError\<close>: the folder loop
  of \<open>parse_trial5_data\<close> raises out of the function and loses every entry, while
  \<open>parse_json_folder_analysis_data\<close> skips the capture.
\<close>

theorem trial5_digit_limit_raises:
  assumes "is_digit c" "c \<noteq> CHR ''0''" "list_all is_digit cs" "max_str_digits < Suc (length cs)"
  shows "trial5_folder i ((''{'' @ quote_str k @ '': '' @ c # cs @ ''}'') # ms) = None \<and>
         json_folder_record n (''{'' @ quote_str k @ '': '' @ c # cs @ ''}'') = None"
  using json_loads_big_member [OF assms, of k]
  by (simp add: trial5_folder_item_def json_folder_record_def)

theorem trial5_digit_limit_raises_witness:
  "is_digit (CHR ''1'') \<and> CHR ''1'' \<noteq> CHR ''0'' \<and> list_all is_digit (replicate 4300 (CHR ''0'')) \<and>
   max_str_digits < Suc (length (replicate 4300 (CHR ''0''))) \<and>
   trial5_folder 1 [''{'' @ quote_str ''totalFiles'' @ '': '' @ CHR ''1'' # replicate 4300 (CHR ''0'') @ ''}''] = None \<and>
   json_folder_record 1 (''{'' @ quote_str ''totalFiles'' @ '': '' @ CHR ''1'' # replicate 4300 (CHR ''0'') @ ''}'') = None"
proof -
  have h: "is_digit (CHR ''1'')" "CHR ''1'' \<noteq> CHR ''0''" "list_all is_digit (replicate 4300 (CHR ''0''))"
    "max_str_digits < Suc (length (replicate 4300 (CHR ''0'')))"
    by (simp_all add: is_digit_def list_all_iff max_str_digits_def)
  show ?thesis
    using h trial5_digit_limit_raises [OF h, of 1 "''totalFiles''" "[]" 1] by blast
qed

end
