(* ===== verification/Spec2Isabelle.thy ===== *)
theory Spec2Isabelle
  imports Timing Folder Phases Access Calibration Recalibration Json_Logs
begin

text \<open>
  \<^bold>\<open>A verification library for the Bookkeeper speed-test and file-counting scripts.\<close>

  The repository's Python code under \<open>src/\<close> falls into three groups: the console-log
  parsers, which scan a browser log for timing events and folder metrics and write
  one CSV row per test run; the analysis scripts, which read those rows with pandas
  and calibrate or test the three-phase time estimate; and the file counters, which walk
  a folder tree and classify each file. The parsers feed the analysis scripts through
  the CSV columns; the counters stand alone. Every part is modelled as pure functions
  over explicit inputs: the log text is a string, a walked tree is a list of file
  entries, a pandas table is a list of records. A Python exception is the value
  \<^const>\<open>None\<close> (or an error constructor) of the function that would raise it.

  \<^bold>\<open>Theories.\<close>
  \<^item> \<open>Prelude\<close>: the values of the scripts' dictionaries and rows (\<open>pyval\<close>),
    insertion-ordered dictionaries as association lists (\<open>dget\<close>, \<open>dput\<close>), UTF-8
    encoding and the shared list, option and map lemmas.
  \<^item> \<open>Text_Scan\<close>: \<open>re.search\<close>, \<open>re.finditer\<close> and \<open>re.findall\<close> specialised to the
    patterns the scripts use, as matchers on UTF-8 bytes, with the lemmas that a match
    resumes right after the matched text (\<open>finditer_offset\<close>, \<open>findall_first\<close>).
  \<^item> \<open>Timing\<close>: \<open>parse_timing_data\<close> and \<open>detect_execution_mode\<close> of
    \<open>src/docs/plans/Bookkeeper/speed_tests/parse_console_log.py\<close> (the two timer
    patterns, the merge by offset, the grouping loop, the three-stage row), and
    \<open>parse_timing_data\<close> of the older \<open>src/docs/speed_tests/parse_console_log.py\<close>
    (\<open>parse_timing_data_older\<close>: its counter starts at 1 and is incremented at every
    \<open>PROCESSING_START\<close>, with no guard for the first run). The grouping loop is proved
    to refine a declarative grouping (run \<open>k\<close> maps each event to its last value in run
    \<open>k\<close>); the rows, run numbers and phase differences follow from it (C1--C7). The
    older loop is proved to simulate the newer one with every run number shifted by
    one, so its rows are numbered from 2 (C8, C34).
  \<^item> \<open>Folder\<close>: the \<open>parse_folder_analysis_data\<close> functions of both
    \<open>parse_console_log.py\<close> files and \<open>improved_parser.extract_complete_folder_data\<close>:
    field search, \<open>int\<close>/\<open>float\<close> conversion with its \<open>ValueError\<close>, defaults and
    numbering, the derived metrics of the older parser, and the mis-encoded marker of
    \<open>improved_parser.py\<close> (C9--C13).
  \<^item> \<open>Floats\<close>: the IEEE values of pandas and numpy (exact rationals, two infinities,
    \<open>NaN\<close>), their arithmetic, and the statistics of a \<open>Series\<close> (which skip \<open>NaN\<close>)
    and of \<open>np\<close> on lists (which propagate it).
  \<^item> \<open>Phases\<close>: \<open>src/analyze_processing_phases.py\<close>: phase durations with their
    fallbacks, per-phase statistics over positive values, and the loop that selects the
    phases making up 90 percent of the time (C14--C17).
  \<^item> \<open>Access\<close>: \<open>src/count_browser_accessible_files.py\<close>,
    \<open>src/count_browser_files_fast.py\<close>, \<open>src/count_files_with_access.py\<close> and
    \<open>src/count_hidden_files.py\<close>: one step function per walked file, with each
    \<open>except\<close> branch of the source as a constructor of \<open>os_error\<close>, and the counting
    loops as folds; the counters are proved to partition the files and to file each
    error by its text (C18, C19, C21, C22). The \<open>except\<close> clauses of
    \<open>is_browser_accessible_fast\<close> are selected as Python does, by the first clause
    naming the exception's class or a base class (\<open>exc_class\<close>, \<open>handle\<close>), which makes
    the \<open>PermissionError\<close> clause dead (C20).
  \<^item> \<open>Calibration\<close>: \<open>final_calibration.py\<close>, \<open>simple_calibration.py\<close>,
    \<open>robust_calibration.py\<close>, \<open>validate_new_formula.py\<close>,
    \<open>validate_estimation_formula.py\<close> and \<open>analyze_3stage_data.py\<close>: the worker-mode
    filter, the median constants, the prediction and accuracy formulas, the summary with
    its \<open>int(...)\<close> and \<open>np.max\<close> errors, pandas index alignment in
    \<open>test_robust_formula\<close>, and the percentage shares (C24--C30).
  \<^item> \<open>Least_Squares\<close>: \<open>LinearRegression\<close> with one or two features, \<open>predict\<close>,
    \<open>r2_score\<close> and \<open>max(..., key=...)\<close>; the fits satisfy the normal equations,
    minimise the squared error, and fit exact data exactly.
  \<^item> \<open>Recalibration\<close>: the regression scripts \<open>recalibrate_constants.py\<close>,
    \<open>verified_calibration.py\<close> and \<open>size_aware_calibration.py\<close> on the merged table
    with file sizes: one line per phase, or the model of highest \<open>R^2\<close> among the count,
    size and combined fits, the fallback constants, and the test functions with the same
    label alignment as \<open>Calibration\<close>. Choosing by \<open>R^2\<close> is choosing the least-squares
    plane (C23); exact data give back their constants with zero errors (C31).
  \<^item> \<open>Json\<close>: \<open>json.loads\<close> as a tokenizer and a shift-reduce parser whose result
    is a value or one of its two exceptions: \<open>JSONDecodeError\<close>, or the \<open>ValueError\<close>
    of an \<open>int\<close> literal over CPython's 4300-digit limit (\<open>max_str_digits\<close>); the
    parser reads the tokens from the left, so the first token it cannot use decides
    which is raised. A reference printer \<open>jdump\<close> states what the parsers read back.
  \<^item> \<open>Json_Logs\<close>: \<open>improved_parser_json.py\<close> (the \<open>({.+?})\<close> capture after a marker,
    \<open>json.loads\<close>, the rows and their numbering, the timing parser with its 3000-character
    mode window) and \<open>src/docs/speed_tests/trial5_parser.py\<close> (its folder loop, its own
    grouping loop and rows, \<open>merge_data\<close> and the column list of \<open>save_results\<close>)
    (C32, C33, C35--C39). \<open>trial5_parser.py\<close> catches only \<open>JSONDecodeError\<close>, so
    the digit limit makes it raise (C39).

  \<^bold>\<open>Kinds of lemma.\<close> Functional behaviour of each parser on every branch (missing
  fields, conversion errors, early returns); invariants of the counting loops, proved by
  induction over the walked files; refinement of the grouping loops by a declarative
  grouping, and of the newer grouping by the older one; least-squares optimality and
  exactness of the fits the regression scripts keep; equivalence of the several scripts
  that compute the same accuracies or rows; error paths (the \<open>NaN\<close> constant without candidates, the
  misaligned pandas index, the dead \<open>PermissionError\<close> handler); the round trip of the timer
  line and of a logged JSON object; bounds of the statistics and of the accuracy.

  \<^bold>\<open>Bounds and termination.\<close> No fuel is used. Every loop of the scripts runs over a
  finite list (log matches, walked files, table rows) and is a structural recursion or a
  fold. The JSON tokenizer is a \<open>function\<close> that terminates because each token consumes
  at least one character (measure: the length of the rest); the parser recurses on the
  token list, so nesting depth is unbounded in the model. A float literal overflows to
  infinity from \<open>2^1024 - 2^970\<close> on, the halfway point above the largest double;
  an \<open>int\<close> literal is limited to 4300 digits, CPython's default since 3.11.

  \<^bold>\<open>Not modelled.\<close>
  \<^item> File and console I/O: reading logs and CSV files, \<open>write_csv\<close>, \<open>save_to_json\<close>,
    the printed reports, argument handling and every \<open>main\<close>; \<open>os.walk\<close> and
    \<open>os.stat\<close> are inputs.
  \<^item> \<open>src/docs/test_results/generate_performance_graph.py\<close> (plotting only).
  \<^item> \<open>phase2_relationship_analysis.py\<close>, \<open>trial5_comprehensive_calibration.py\<close> and
    \<open>trial5_enhanced_optimization.py\<close>: they fit with \<open>scipy.optimize.curve_fit\<close>,
    regressions on three or more features and iterative optimisers, whose results
    are not given by a closed form one can state exactly. The printed \<open>R^2\<close> of the
    one-feature fits of \<open>recalibrate_constants.py\<close> is not modelled (only printed).
  \<^item> Correlations and standard deviations (square roots), IEEE rounding of finite floats,
    Python's recursion limit in \<open>json.loads\<close>, and \<open>merge_data\<close> on non-integer run keys.
\<close>

end
